theory Spec2Isabelle
  imports Main "HOL-Library.AList"
begin

section \<open>The cluster registry (pkg/cluster/serf/serf.go)\<close>

subsection \<open>Go slices over an explicit store\<close>

text \<open>
  The registry keeps \<^verbatim>\<open>map[string][]string\<close>.  A Go slice is a header (pointer, length,
  capacity) into a backing array, and \<^verbatim>\<open>Endpoints\<close> hands such a header to its caller,
  so the backing arrays live in an explicit store shared by the registry and its callers.
  Address \<open>0\<close> stands for "no backing array": the nil slice and the literal
  \<^verbatim>\<open>[]string{}\<close> both have length and capacity \<open>0\<close> and differ only under
  \<^verbatim>\<open>== nil\<close>, which this code never tests.
\<close>

record slice =
  s_ptr :: nat
  s_len :: nat
  s_cap :: nat

record heap =
  arrays :: "nat \<Rightarrow> string list"
  fresh :: nat

definition empty_slice :: slice where
  "empty_slice = \<lparr>s_ptr = 0, s_len = 0, s_cap = 0\<rparr>"

definition heap0 :: heap where
  "heap0 = \<lparr>arrays = (\<lambda>_. []), fresh = 1\<rparr>"

definition elems :: "heap \<Rightarrow> slice \<Rightarrow> string list" where
  \<comment> \<open>the elements a holder of the header can read: indices \<open>0 ..< len\<close>\<close>
  "elems h s = take (s_len s) (arrays h (s_ptr s))"

definition slice_set :: "heap \<Rightarrow> slice \<Rightarrow> nat \<Rightarrow> string \<Rightarrow> heap option" where
  \<comment> \<open>\<^verbatim>\<open>s[i] = v\<close>; Go panics (here \<open>None\<close>) when \<open>i\<close> is not below the length\<close>
  "slice_set h s i v =
     (if i < s_len s
      then Some (h\<lparr>arrays := (arrays h)(s_ptr s := (arrays h (s_ptr s))[i := v])\<rparr>)
      else None)"

definition append_go :: "(nat \<Rightarrow> nat) \<Rightarrow> heap \<Rightarrow> slice \<Rightarrow> string \<Rightarrow> slice \<times> heap" where
  \<comment> \<open>\<^verbatim>\<open>append(s, x)\<close>: in place when capacity is left, otherwise into a fresh array.
      The new capacity is the Go runtime's choice; \<open>grow\<close> stands for it.\<close>
  "append_go grow h s x =
     (if s_len s < s_cap s then
        (s\<lparr>s_len := s_len s + 1\<rparr>,
         h\<lparr>arrays := (arrays h)(s_ptr s := (arrays h (s_ptr s))[s_len s := x])\<rparr>)
      else
        (let c = max (grow (s_cap s)) (s_len s + 1); a = fresh h in
         (\<lparr>s_ptr = a, s_len = s_len s + 1, s_cap = c\<rparr>,
          h\<lparr>arrays := (arrays h)(a := elems h s @ [x] @ replicate (c - s_len s - 1) []),
            fresh := a + 1\<rparr>)))"

subsection \<open>The serf struct and its registry operations\<close>

record serf =
  peer :: string
  address :: string
  byDigest :: "string \<rightharpoonup> slice"

definition StatusStarted :: int where "StatusStarted = 1"
definition StatusEnded :: int where "StatusEnded = 0"

definition EventStartLayer :: string where "EventStartLayer = ''START_LAYER''"
definition EventEndLayer :: string where "EventEndLayer = ''END_LAYER''"

record LayerEvent =
  Status :: int
  Digest :: string
  Address :: string

definition New :: "string \<Rightarrow> serf" where
  \<comment> \<open>the struct literal of \<^verbatim>\<open>New\<close> sets no \<^verbatim>\<open>address\<close> field: it stays the zero value\<close>
  "New p = \<lparr>peer = p, address = [], byDigest = Map.empty\<rparr>"

definition Endpoints :: "serf \<Rightarrow> string \<Rightarrow> slice" where
  \<comment> \<open>\<^verbatim>\<open>return s.byDigest[digest]\<close>: the stored header itself, nil for a missing key\<close>
  "Endpoints s digest = (case byDigest s digest of None \<Rightarrow> empty_slice | Some ns \<Rightarrow> ns)"

definition addNode :: "(nat \<Rightarrow> nat) \<Rightarrow> string \<Rightarrow> string \<Rightarrow> serf \<times> heap \<Rightarrow> serf \<times> heap" where
  "addNode grow digest node st =
     (let s = fst st; h = snd st;
          nodes = (case byDigest s digest of None \<Rightarrow> empty_slice | Some ns \<Rightarrow> ns)
      in if node \<in> set (elems h nodes) then st
         else (let r = append_go grow h nodes node
               in (s\<lparr>byDigest := (byDigest s)(digest \<mapsto> fst r)\<rparr>, snd r)))"

fun delNode_loop ::
  "(nat \<Rightarrow> nat) \<Rightarrow> string \<Rightarrow> slice \<Rightarrow> nat list \<Rightarrow> slice \<times> heap \<Rightarrow> slice \<times> heap" where
  "delNode_loop grow node nodes [] acc = acc"
| "delNode_loop grow node nodes (i # is) acc =
     (let n = arrays (snd acc) (s_ptr nodes) ! i
      in if n \<noteq> node
         then delNode_loop grow node nodes is (append_go grow (snd acc) (fst acc) n)
         else delNode_loop grow node nodes is acc)"

definition delNode :: "(nat \<Rightarrow> nat) \<Rightarrow> string \<Rightarrow> string \<Rightarrow> serf \<times> heap \<Rightarrow> serf \<times> heap" where
  "delNode grow digest node st =
     (let s = fst st; h = snd st in
      case byDigest s digest of
        None \<Rightarrow> st
      | Some nodes \<Rightarrow>
          (let r = delNode_loop grow node nodes [0 ..< s_len nodes] (empty_slice, h)
           in (s\<lparr>byDigest := (byDigest s)(digest \<mapsto> fst r)\<rparr>, snd r)))"

subsection \<open>The event loop of Serve\<close>

datatype event =
  MemberEvent
| QueryEvent
| UserEvent (ev_name: string) (ev_payload: string)

text \<open>
  \<^verbatim>\<open>json.Unmarshal\<close> is the standard library's; \<open>unmarshal\<close> stands for it, \<open>None\<close>
  being a non-nil error.  One pass of the \<^verbatim>\<open>for { select { ... } }\<close> body:
\<close>

definition handle_event ::
  "(string \<Rightarrow> LayerEvent option) \<Rightarrow> (nat \<Rightarrow> nat) \<Rightarrow> serf \<times> heap \<Rightarrow> event \<Rightarrow> serf \<times> heap" where
  "handle_event unmarshal grow st ev =
     (case ev of
        UserEvent name payload \<Rightarrow>
          (case unmarshal payload of
             None \<Rightarrow> st
           | Some le \<Rightarrow>
               (let st1 = (if Status le = StatusStarted
                           then addNode grow (Digest le) (Address le) st else st)
                in if Status le = StatusEnded
                   then delNode grow (Digest le) (Address le) st1 else st1))
      | _ \<Rightarrow> st)"

text \<open>
  The loop never returns; it blocks on the channel.  Its state after the events
  delivered so far is the fold of the loop body over them.
\<close>

fun serve_loop ::
  "(string \<Rightarrow> LayerEvent option) \<Rightarrow> (nat \<Rightarrow> nat) \<Rightarrow> event list \<Rightarrow> serf \<times> heap \<Rightarrow> serf \<times> heap" where
  "serve_loop unmarshal grow [] st = st"
| "serve_loop unmarshal grow (ev # evs) st =
     serve_loop unmarshal grow evs (handle_event unmarshal grow st ev)"

definition Serve ::
  "(string \<Rightarrow> LayerEvent option) \<Rightarrow> (nat \<Rightarrow> nat) \<Rightarrow> int \<times> bool \<Rightarrow> event list \<Rightarrow> serf \<times> heap
    \<Rightarrow> string + serf \<times> heap" where
  \<comment> \<open>\<open>join\<close> is what \<^verbatim>\<open>agent.Join\<close> returned: the count and whether the error was non-nil\<close>
  "Serve unmarshal grow join evs st =
     (if fst join \<noteq> 1 then Inl ''failed to contact''
      else if snd join then Inl ''failed to join cluster''
      else Inr (serve_loop unmarshal grow evs st))"

section \<open>The proxy (the handler, the file writer and the two copy routines)\<close>

subsection \<open>Standard-library functions the handler calls\<close>

definition is_digit :: "char \<Rightarrow> bool" where
  "is_digit c = (48 \<le> (of_char c :: nat) \<and> (of_char c :: nat) \<le> 57)"

fun ParseUint :: "nat \<Rightarrow> string \<Rightarrow> nat option" where
  \<comment> \<open>base 10: every byte must be a decimal digit\<close>
  "ParseUint acc [] = Some acc"
| "ParseUint acc (c # cs) =
     (if is_digit c then ParseUint (acc * 10 + ((of_char c :: nat) - 48)) cs else None)"

definition ParseInt :: "string \<Rightarrow> int option" where
  \<comment> \<open>\<^verbatim>\<open>strconv.ParseInt(s, 10, 64)\<close>; \<open>None\<close> is a non-nil error (syntax or range)\<close>
  "ParseInt s =
     (case s of
        [] \<Rightarrow> None
      | c # cs \<Rightarrow>
          (let neg = (c = CHR ''-'');
               ds = (if c = CHR ''+'' \<or> c = CHR ''-'' then cs else s)
           in if ds = [] then None
              else (case ParseUint 0 ds of
                      None \<Rightarrow> None
                    | Some un \<Rightarrow>
                        if \<not> neg \<and> un \<ge> 2 ^ 63 then None
                        else if neg \<and> un > 2 ^ 63 then None
                        else Some (if neg then - int un else int un))))"

fun show_nat :: "nat \<Rightarrow> string" where
  "show_nat n =
     (if n < 10 then [char_of (48 + n)] else show_nat (n div 10) @ [char_of (48 + n mod 10)])"

declare show_nat.simps [simp del]

definition show_int :: "int \<Rightarrow> string" where
  \<comment> \<open>the verb \<^verbatim>\<open>%d\<close> of \<^verbatim>\<open>fmt.Sprintf\<close>\<close>
  "show_int i = (if i < 0 then CHR ''-'' # show_nat (nat (- i)) else show_nat (nat i))"

definition ishex :: "char \<Rightarrow> bool" where
  "ishex c = (let n = (of_char c :: nat) in
                (48 \<le> n \<and> n \<le> 57) \<or> (97 \<le> n \<and> n \<le> 102) \<or> (65 \<le> n \<and> n \<le> 70))"

definition unhex :: "char \<Rightarrow> nat" where
  "unhex c = (let n = (of_char c :: nat) in
                if 48 \<le> n \<and> n \<le> 57 then n - 48
                else if 97 \<le> n \<and> n \<le> 102 then n - 97 + 10
                else if 65 \<le> n \<and> n \<le> 70 then n - 65 + 10
                else 0)"

fun QueryUnescape :: "string \<Rightarrow> string option" where
  \<comment> \<open>\<^verbatim>\<open>url.QueryUnescape\<close>: \<^verbatim>\<open>%XY\<close> is a byte, \<^verbatim>\<open>+\<close> a space; a \<^verbatim>\<open>%\<close> not
      followed by two hex digits is an error\<close>
  "QueryUnescape [] = Some []"
| "QueryUnescape (c # cs) =
     (if c = CHR ''%'' then
        (case cs of
           a # b # rest \<Rightarrow>
             (if ishex a \<and> ishex b
              then map_option ((#) (char_of (unhex a * 16 + unhex b))) (QueryUnescape rest)
              else None)
         | _ \<Rightarrow> None)
      else map_option ((#) (if c = CHR ''+'' then CHR '' '' else c)) (QueryUnescape cs))"

subsection \<open>The world a request runs in\<close>

text \<open>
  A request changes three things: the files under the cache directory, the response it
  writes, and what it does to the outside (GETs, broadcasts, reads, sleeps), which is
  kept as a trace of actions in the order the code performs them.  Log lines carry the
  fixed part of their format string.
\<close>

datatype action =
    Log string
  | HttpGet string
  | BodyRead
  | BodyClose
  | Create string
  | Open string
  | FileReadAt string int
  | FileWrite string string
  | FileClose string
  | Remove string
  | Broadcast string LayerEvent
  | CallEndpoints string
  | SetHeader string string
  | WriteHeader nat
  | RespWrite string
  | Sleep nat

record response =
  resp_status :: "nat option"
  resp_headers :: "(string \<times> string) list"
  resp_body :: string

record world =
  fs :: "string \<rightharpoonup> string"
  resp :: response
  trace :: "action list"

definition response0 :: response where
  "response0 = \<lparr>resp_status = None, resp_headers = [], resp_body = []\<rparr>"

definition act :: "action \<Rightarrow> world \<Rightarrow> world" where
  "act a w = w\<lparr>trace := trace w @ [a]\<rparr>"

datatype rerr = NoErr | EOF | ReadErr

text \<open>What a sink does with one \<^verbatim>\<open>Write\<close>: take everything, or take a prefix and fail.\<close>

datatype wres = WriteAll | WriteFail nat

definition taken :: "wres \<Rightarrow> string \<Rightarrow> nat" where
  "taken r d = (case r of WriteAll \<Rightarrow> length d | WriteFail k \<Rightarrow> min k (length d))"

definition failed :: "wres \<Rightarrow> bool" where
  "failed r = (r \<noteq> WriteAll)"

text \<open>
  One \<^verbatim>\<open>Read\<close> of the response body together with what the two sinks will do with the
  bytes it returned.
\<close>

record chunk =
  c_data :: string
  c_err :: rerr
  c_file :: wres
  c_resp :: wres

text \<open>One pass of the loop of \<^verbatim>\<open>copyFromFile\<close>: the content of the open file at that
  moment (another request may be appending to it), whether the read hits an I/O error
  and after how many bytes, and what the response does with the write.\<close>

record tick =
  t_file :: string
  t_fault :: "nat option"
  t_resp :: wres

text \<open>
  What the outside does to a request: for each URL whether \<^verbatim>\<open>http.DefaultClient.Get\<close>
  returns an error (\<open>None\<close>) or a response, whose body is \<^verbatim>\<open>http.NoBody\<close> (the empty
  list) or the list of what its successive reads return; for each path whether \<^verbatim>\<open>os.Create\<close> fails (\<^verbatim>\<open>os.Open\<close> fails when
  the file is not there); what \<^verbatim>\<open>rand.Intn\<close> draws, reduced into its range
  \<open>0 ..< n\<close>; and the passes of the file reader.
\<close>

record env =
  http_get :: "string \<Rightarrow> chunk list option"
  create_fails :: "string \<Rightarrow> bool"
  intn :: "nat \<Rightarrow> nat"
  ticks :: "tick list"

record Proxy =
  port :: int
  localDir :: string

text \<open>A run has returned, or is still going on after everything the environment held.\<close>

datatype 'a run = Returned 'a | Pending 'a

fun returned :: "'a run \<Rightarrow> bool" where
  "returned (Returned x) = True"
| "returned (Pending x) = False"

fun outcome :: "'a run \<Rightarrow> 'a" where
  "outcome (Returned x) = x"
| "outcome (Pending x) = x"

subsection \<open>Response, file and cluster primitives\<close>

definition writeHeader :: "nat \<Rightarrow> world \<Rightarrow> world" where
  \<comment> \<open>\<^verbatim>\<open>writer.WriteHeader(code)\<close>: the first status written is the one that counts\<close>
  "writeHeader code w =
     act (WriteHeader code)
       (w\<lparr>resp := (resp w)\<lparr>resp_status :=
          (case resp_status (resp w) of None \<Rightarrow> Some code | Some c \<Rightarrow> Some c)\<rparr>\<rparr>)"

definition setHeader :: "string \<Rightarrow> string \<Rightarrow> world \<Rightarrow> world" where
  "setHeader k v w =
     act (SetHeader k v)
       (w\<lparr>resp := (resp w)\<lparr>resp_headers := AList.update k v (resp_headers (resp w))\<rparr>\<rparr>)"

definition respWrite :: "string \<Rightarrow> wres \<Rightarrow> world \<Rightarrow> world \<times> nat \<times> bool" where
  \<comment> \<open>\<^verbatim>\<open>writer.Write(data)\<close>: the bytes taken reach the caller; a first write without a
      status sends 200\<close>
  "respWrite d r w =
     (act (RespWrite d)
        (w\<lparr>resp := (resp w)\<lparr>
            resp_status := (case resp_status (resp w) of None \<Rightarrow> Some 200 | Some c \<Rightarrow> Some c),
            resp_body := resp_body (resp w) @ take (taken r d) d\<rparr>\<rparr>),
      taken r d, failed r)"

definition fileWrite :: "string \<Rightarrow> string \<Rightarrow> wres \<Rightarrow> world \<Rightarrow> world \<times> nat \<times> bool" where
  \<comment> \<open>\<^verbatim>\<open>File.Write(data)\<close> on the file created at \<open>fp\<close>\<close>
  "fileWrite fp d r w =
     (act (FileWrite fp d)
        (case fs w fp of
           None \<Rightarrow> w
         | Some old \<Rightarrow> w\<lparr>fs := (fs w)(fp \<mapsto> old @ take (taken r d) d)\<rparr>),
      taken r d, failed r)"

definition osCreate :: "string \<Rightarrow> world \<Rightarrow> world" where
  \<comment> \<open>a successful \<^verbatim>\<open>os.Create\<close>: the file exists and is empty\<close>
  "osCreate fp w = w\<lparr>fs := (fs w)(fp \<mapsto> [])\<rparr>"

definition osRemove :: "string \<Rightarrow> world \<Rightarrow> world" where
  "osRemove fp w = act (Remove fp) (w\<lparr>fs := (fs w)(fp := None)\<rparr>)"

text \<open>
  \<^verbatim>\<open>StartLayer\<close> and \<^verbatim>\<open>EndLayer\<close> marshal a \<^verbatim>\<open>LayerEvent\<close> and hand it to
  \<^verbatim>\<open>agent.UserEvent\<close>; the broadcast is recorded with the event before marshalling
  (\<^verbatim>\<open>json.Marshal\<close> of an int and two strings returns no error).
\<close>

definition StartLayer :: "serf \<Rightarrow> string \<Rightarrow> world \<Rightarrow> world" where
  "StartLayer s digest w =
     act (Broadcast EventStartLayer
            \<lparr>Status = StatusStarted, Digest = digest, Address = address s\<rparr>) w"

definition EndLayer :: "serf \<Rightarrow> string \<Rightarrow> world \<Rightarrow> world" where
  "EndLayer s digest w =
     act (Broadcast EventEndLayer
            \<lparr>Status = StatusEnded, Digest = digest, Address = address s\<rparr>) w"

subsection \<open>fileWriter.Write and io.CopyBuffer\<close>

definition fileWriter_Write ::
  "string \<Rightarrow> string \<Rightarrow> wres \<Rightarrow> wres \<Rightarrow> world \<Rightarrow> world \<times> nat \<times> bool" where
  \<comment> \<open>\<^verbatim>\<open>fw.File.Write(data); return fw.Writer.Write(data)\<close>: the file's result is dropped\<close>
  "fileWriter_Write fp d rf rr w = respWrite d rr (fst (fileWrite fp d rf w))"

text \<open>
  \<^verbatim>\<open>io.CopyBuffer(fw, resp.Body, buf)\<close> of the standard library.  Its loop: read; when
  bytes came, write them and stop on a write error or a short write; stop on a read error,
  which is the returned error unless it is \<^verbatim>\<open>io.EOF\<close>.  The list is what the successive
  reads return; after it the body is at end of file.  The second component says whether
  the returned error is non-nil.
\<close>

fun copyBuffer_loop :: "string \<Rightarrow> chunk list \<Rightarrow> world \<Rightarrow> world \<times> bool" where
  "copyBuffer_loop fp [] w = (act BodyRead w, False)"
| "copyBuffer_loop fp (c # cs) w =
     (let w1 = act BodyRead w in
      if 0 < length (c_data c) then
        (let r = fileWriter_Write fp (c_data c) (c_file c) (c_resp c) w1 in
         if snd (snd r) then (fst r, True)
         else if length (c_data c) \<noteq> fst (snd r) then (fst r, True)
         else if c_err c \<noteq> NoErr then (fst r, c_err c \<noteq> EOF)
         else copyBuffer_loop fp cs (fst r))
      else if c_err c \<noteq> NoErr then (w1, c_err c \<noteq> EOF)
      else copyBuffer_loop fp cs w1)"

text \<open>
  Before its loop \<^verbatim>\<open>io.CopyBuffer\<close> asks whether the source has a \<^verbatim>\<open>WriteTo\<close> and,
  if so, returns what that call returns.  Of the bodies the HTTP client hands out only
  \<^verbatim>\<open>http.NoBody\<close> has one: it is the body of a response without content
  (\<^verbatim>\<open>Content-Length: 0\<close>), and its \<^verbatim>\<open>WriteTo\<close> writes nothing and returns no error,
  so such a body is never read.  The empty list stands for \<^verbatim>\<open>http.NoBody\<close>; a body
  that is read and is at end of file at once is the list of one read that returns no
  bytes and \<^verbatim>\<open>io.EOF\<close>.  (\<^verbatim>\<open>fileWriter\<close> has only \<^verbatim>\<open>Write\<close>, so the destination
  offers no \<^verbatim>\<open>ReadFrom\<close>.)
\<close>

definition CopyBuffer :: "string \<Rightarrow> chunk list \<Rightarrow> world \<Rightarrow> world \<times> bool" where
  "CopyBuffer fp body w =
     (case body of [] \<Rightarrow> (w, False) | c # cs \<Rightarrow> copyBuffer_loop fp (c # cs) w)"

subsection \<open>copyFromURL\<close>

definition copyFromURL :: "Proxy \<Rightarrow> serf \<Rightarrow> env \<Rightarrow> string \<Rightarrow> string \<Rightarrow> world \<Rightarrow> world" where
  "copyFromURL p cl e path url w0 =
     (let w1 = act (HttpGet url) (act (Log ''copy from url'') w0) in
      case http_get e url of
        None \<Rightarrow> writeHeader 400 w1
      | Some body \<Rightarrow>
          (let filePath = localDir p @ path;
               w2 = act (Create filePath) w1
           in if create_fails e filePath then
                act BodyClose (writeHeader 500 (act (Log ''failed to create file'') w2))
              else
                (let w3 = StartLayer cl path (osCreate filePath w2);
                     r = CopyBuffer filePath body w3;
                     w4 = (if snd r then
                             osRemove filePath
                               (act (FileClose filePath)
                                  (act (Log ''failed to copy from url'') (fst r)))
                           else fst r)
                 in act BodyClose (EndLayer cl path w4))))"

subsection \<open>copyFromFile\<close>

definition wrap64 :: "int \<Rightarrow> int" where
  \<comment> \<open>the value of an \<^verbatim>\<open>int64\<close> computation\<close>
  "wrap64 x = (x + 2 ^ 63) mod 2 ^ 64 - 2 ^ 63"

definition bufsize :: nat where
  "bufsize = 50 * 1024 * 1024"

definition ReadAt :: "tick \<Rightarrow> int \<Rightarrow> string \<times> rerr" where
  \<comment> \<open>\<^verbatim>\<open>file.ReadAt(buffer, offset)\<close>: fewer bytes than the buffer holds come with
      \<^verbatim>\<open>io.EOF\<close>; a negative offset is an error\<close>
  "ReadAt t off =
     (if off < 0 then ([], ReadErr)
      else (let d = take bufsize (drop (nat off) (t_file t))
            in case t_fault t of
                 Some k \<Rightarrow> (take k d, ReadErr)
               | None \<Rightarrow> (d, if length d < bufsize then EOF else NoErr)))"

text \<open>
  The loop \<^verbatim>\<open>for offset != (length - 1)\<close>.  It need not end, so the model runs it
  against the passes observed so far: \<open>Returned\<close> when the loop condition failed,
  \<open>Pending\<close> when the loop is still running after the last pass given.  The local
  variable \<^verbatim>\<open>offset\<close> is kept beside the world.
\<close>

fun copyFromFile_loop ::
  "tick list \<Rightarrow> string \<Rightarrow> int \<Rightarrow> int \<Rightarrow> world \<Rightarrow> (world \<times> int) run" where
  "copyFromFile_loop [] fp len offset w =
     (if offset \<noteq> wrap64 (len - 1) then Pending (w, offset) else Returned (w, offset))"
| "copyFromFile_loop (t # ts) fp len offset w =
     (if offset \<noteq> wrap64 (len - 1) then
        (let rd = ReadAt t offset;
             w1 = act (FileReadAt fp offset) w;
             w2 = (if snd rd = EOF then (if offset < len then act (Sleep 300) w1 else w1)
                   else if snd rd \<noteq> NoErr then act (Log ''failed to read from file'') w1
                   else w1);
             wr = respWrite (fst rd) (t_resp t) w2;
             w3 = (if snd (snd wr) then act (Log ''failed to write'') (fst wr) else fst wr)
         in copyFromFile_loop ts fp len (wrap64 (offset + int (fst (snd wr)))) w3)
      else Returned (w, offset))"

definition copyFromFile :: "Proxy \<Rightarrow> env \<Rightarrow> string \<Rightarrow> int \<Rightarrow> world \<Rightarrow> world run" where
  "copyFromFile p e path len w0 =
     (let filePath = localDir p @ path;
          w1 = act (Open filePath) (act (Log ''copy from file'') w0)
      in case fs w1 filePath of
           None \<Rightarrow> Returned (writeHeader 500 (act (Log ''failed to open file'') w1))
         | Some _ \<Rightarrow>
             (case copyFromFile_loop (ticks e) filePath len 0 w1 of
                Returned r \<Rightarrow> Returned (act (FileClose filePath) (fst r))
              | Pending r \<Rightarrow> Pending (fst r)))"

subsection \<open>HandlerFunc\<close>

text \<open>
  A request as the handler reads it: \<^verbatim>\<open>req.URL.Path\<close> and the values
  \<^verbatim>\<open>req.URL.Query().Get\<close> returns for \<^verbatim>\<open>len\<close>, \<^verbatim>\<open>relay\<close> and \<^verbatim>\<open>source\<close>
  (empty when the parameter is absent; the query parser has unescaped them once).
\<close>

record request =
  req_path :: string
  q_len :: string
  q_relay :: string
  q_source :: string

definition relay_url :: "Proxy \<Rightarrow> string \<Rightarrow> string \<Rightarrow> int \<Rightarrow> string" where
  \<comment> \<open>\<^verbatim>\<open>fmt.Sprintf("http://%s:%d%s?relay=true&len=%d", node, p.port, path, length)\<close>\<close>
  "relay_url p node path len =
     ''http://'' @ node @ '':'' @ show_int (port p) @ path @ ''?relay=true&len='' @ show_int len"

definition HandlerFunc :: "Proxy \<Rightarrow> serf \<times> heap \<Rightarrow> env \<Rightarrow> request \<Rightarrow> world \<Rightarrow> world run" where
  "HandlerFunc p cl e req w =
     (let path = req_path req; qsLen = q_len req in
      case ParseInt qsLen of
        None \<Rightarrow> Returned (writeHeader 400 w)
      | Some len \<Rightarrow>
          (let w1 = setHeader ''Content-Length'' qsLen w in
           if q_relay req \<noteq> [] then copyFromFile p e path len w1
           else
             (let nodes = elems (snd cl) (Endpoints (fst cl) path);
                  w2 = act (CallEndpoints path) w1
              in if 1 \<le> length nodes then
                   (let node = nodes ! (intn e (length nodes) mod length nodes);
                        url = relay_url p node path len
                    in Returned (copyFromURL p (fst cl) e path url w2))
                 else
                   (let source = q_source req in
                    if source \<noteq> [] then
                      (case QueryUnescape source of
                         None \<Rightarrow>
                           Returned (writeHeader 500
                             (act (Log ''failed to unescape source query param'') w2))
                       | Some src \<Rightarrow> Returned (copyFromURL p (fst cl) e path src w2))
                    else Returned w2))))"

section \<open>Observations on runs\<close>

text \<open>
  The events the loop lets pass without touching the registry: those that are no user
  events, and the user events whose payload does not decode or decodes to a status that
  is neither \<open>StatusStarted\<close> nor \<open>StatusEnded\<close>.  The name of the event plays no part.
\<close>

definition discarded :: "(string \<Rightarrow> LayerEvent option) \<Rightarrow> event \<Rightarrow> bool" where
  "discarded unmarshal ev =
     (case ev of
        UserEvent name payload \<Rightarrow>
          (case unmarshal payload of
             None \<Rightarrow> True
           | Some le \<Rightarrow> Status le \<noteq> StatusStarted \<and> Status le \<noteq> StatusEnded)
      | _ \<Rightarrow> True)"

text \<open>The actions a run added to the trace it started with.\<close>

definition emitted :: "world \<Rightarrow> world \<Rightarrow> action list" where
  "emitted w w' = drop (length (trace w)) (trace w')"

fun is_broadcast :: "action \<Rightarrow> bool" where
  "is_broadcast (Broadcast n le) = True"
| "is_broadcast _ = False"

definition broadcasts :: "action list \<Rightarrow> action list" where
  "broadcasts tr = filter is_broadcast tr"

text \<open>The two events as \<open>StartLayer\<close> and \<open>EndLayer\<close> broadcast them.\<close>

definition started :: "serf \<Rightarrow> string \<Rightarrow> action" where
  "started s digest =
     Broadcast EventStartLayer \<lparr>Status = StatusStarted, Digest = digest, Address = address s\<rparr>"

definition ended :: "serf \<Rightarrow> string \<Rightarrow> action" where
  "ended s digest =
     Broadcast EventEndLayer \<lparr>Status = StatusEnded, Digest = digest, Address = address s\<rparr>"

text \<open>The actions of the copy loop, and the actions of serving from the local file: no
  registry lookup, no GET, no file creation and no broadcast is among the latter.\<close>

fun is_copy_action :: "action \<Rightarrow> bool" where
  "is_copy_action BodyRead = True"
| "is_copy_action (FileWrite fp d) = True"
| "is_copy_action (RespWrite d) = True"
| "is_copy_action _ = False"


text \<open>\<open>before a b tr\<close>: both occur in \<open>tr\<close>, and \<open>a\<close> first occurs earlier than \<open>b\<close> does.\<close>

definition first_index :: "action \<Rightarrow> action list \<Rightarrow> nat" where
  "first_index a tr = length (takeWhile (\<lambda>x. x \<noteq> a) tr)"

definition before :: "action \<Rightarrow> action \<Rightarrow> action list \<Rightarrow> bool" where
  "before a b tr = (a \<in> set tr \<and> b \<in> set tr \<and> first_index a tr < first_index b tr)"

text \<open>The status a run left on the response, and the two classes of error status.\<close>

definition status_of :: "world run \<Rightarrow> nat option" where
  "status_of r = resp_status (resp (outcome r))"

definition client_error :: "nat option \<Rightarrow> bool" where
  "client_error st = (case st of None \<Rightarrow> False | Some c \<Rightarrow> 400 \<le> c \<and> c < 500)"

definition server_error :: "nat option \<Rightarrow> bool" where
  "server_error st = (case st of None \<Rightarrow> False | Some c \<Rightarrow> 500 \<le> c \<and> c < 600)"

text \<open>
  What the copy of a body leaves behind, read off the list of its reads.  The copy goes
  from read to read and ends with the first read that returns an error (\<^verbatim>\<open>io.EOF\<close> or
  another) or whose bytes the caller does not take completely.  \<open>copy_fails\<close>: the copy
  returns an error, that is, it ended with a failed write to the caller or with a read
  error other than \<^verbatim>\<open>io.EOF\<close>.  \<open>delivered\<close> and \<open>cached\<close>: the bytes the caller and
  the cache file took.  \<open>body_bytes\<close>: the bytes the reads return up to and including the
  first read that returns an error, which is the body as the client receives it.
\<close>

fun copy_fails :: "chunk list \<Rightarrow> bool" where
  "copy_fails [] = False"
| "copy_fails (c # cs) =
     (if c_data c \<noteq> [] \<and> failed (c_resp c) then True
      else if c_err c \<noteq> NoErr then c_err c \<noteq> EOF
      else copy_fails cs)"

fun delivered :: "chunk list \<Rightarrow> string" where
  "delivered [] = []"
| "delivered (c # cs) =
     take (taken (c_resp c) (c_data c)) (c_data c)
       @ (if (c_data c \<noteq> [] \<and> failed (c_resp c)) \<or> c_err c \<noteq> NoErr then []
          else delivered cs)"

fun cached :: "chunk list \<Rightarrow> string" where
  "cached [] = []"
| "cached (c # cs) =
     take (taken (c_file c) (c_data c)) (c_data c)
       @ (if (c_data c \<noteq> [] \<and> failed (c_resp c)) \<or> c_err c \<noteq> NoErr then []
          else cached cs)"

fun body_bytes :: "chunk list \<Rightarrow> string" where
  "body_bytes [] = []"
| "body_bytes (c # cs) = c_data c @ (if c_err c \<noteq> NoErr then [] else body_bytes cs)"

text \<open>
  A file that is only appended to while it is read: the first pass finds \<open>f\<close> or an
  extension of it, and every pass finds the file of the pass before or an extension of it.
\<close>

fun grows :: "string \<Rightarrow> tick list \<Rightarrow> bool" where
  "grows f [] = True"
| "grows f (t # ts) = (take (length f) (t_file t) = f \<and> grows (t_file t) ts)"


section \<open>Concrete scenarios\<close>

text \<open>A small decoder and a growth policy.\<close>

definition um0 :: "string \<Rightarrow> LayerEvent option" where
  "um0 p = (if p = ''start abc n1'' then Some \<lparr>Status = 1, Digest = ''/abc'', Address = ''n1''\<rparr>
            else if p = ''end abc n1'' then Some \<lparr>Status = 0, Digest = ''/abc'', Address = ''n1''\<rparr>
            else if p = ''status 7'' then Some \<lparr>Status = 7, Digest = ''/abc'', Address = ''n1''\<rparr>
            else None)"

definition grow2 :: "nat \<Rightarrow> nat" where
  "grow2 c = 2 * c"

text \<open>
  A node on port 8080 caching under \<^verbatim>\<open>/tmp/pull-agent\<close>; a world with no file and
  one where \<^verbatim>\<open>/abc\<close> is cached with its first 5 bytes; a registry with no entry and
  one where \<^verbatim>\<open>10.0.0.1\<close> is downloading \<^verbatim>\<open>/abc\<close>.
\<close>

definition p0 :: Proxy where
  "p0 = \<lparr>port = 8080, localDir = ''/tmp/pull-agent''\<rparr>"

definition w0 :: world where
  "w0 = \<lparr>fs = Map.empty, resp = response0, trace = []\<rparr>"

definition w_cached :: world where
  "w_cached = w0\<lparr>fs := [''/tmp/pull-agent/abc'' \<mapsto> ''01234'']\<rparr>"

definition cl0 :: "serf \<times> heap" where
  "cl0 = (New ''seed'', heap0)"

definition cl1 :: "serf \<times> heap" where
  "cl1 = addNode grow2 ''/abc'' ''10.0.0.1'' cl0"

text \<open>Two more registries: one that knows a peer that cannot be reached, one that knows
  the peer for a path under which no file can be created here.\<close>

definition cl_unreachable :: "serf \<times> heap" where
  "cl_unreachable = addNode grow2 ''/abc'' ''10.0.0.9'' cl0"

definition cl_locked :: "serf \<times> heap" where
  "cl_locked = addNode grow2 ''/locked'' ''10.0.0.1'' cl0"

text \<open>The store after a caller assigned to element 0 of the slice \<open>Endpoints\<close> gave it.\<close>

definition evil_heap :: heap where
  "evil_heap = (case slice_set (snd cl1) (Endpoints (fst cl1) ''/abc'') 0 ''evil'' of
                  Some h \<Rightarrow> h | None \<Rightarrow> snd cl1)"

text \<open>
  An environment with an origin that serves \<^verbatim>\<open>/abc\<close> in two chunks, the peer, an
  origin whose body breaks off with an error before the first byte, one whose body is
  at a clean end of file before the first byte, one that answers without content
  (\<^verbatim>\<open>http.NoBody\<close>), one whose caller stops taking bytes in the second chunk, one where
  the first write to the cache file fails, and a path under which no file can be created.
  Every other GET fails.
\<close>

definition ck :: "string \<Rightarrow> rerr \<Rightarrow> chunk" where
  "ck d er = \<lparr>c_data = d, c_err = er, c_file = WriteAll, c_resp = WriteAll\<rparr>"

definition e0 :: env where
  "e0 = \<lparr>http_get = (\<lambda>u.
            if u = ''http://origin/abc'' then Some [ck ''hello'' NoErr, ck ''world'' EOF]
            else if u = ''http://10.0.0.1:8080/abc?relay=true&len=10''
              then Some [ck ''01234'' NoErr, ck ''56789'' NoErr]
            else if u = ''http://10.0.0.1:8080/locked?relay=true&len=10''
              then Some [ck ''01234'' NoErr, ck ''56789'' NoErr]
            else if u = ''http://origin/zero'' then Some [ck [] ReadErr]
            else if u = ''http://origin/eof0'' then Some [ck [] EOF]
            else if u = ''http://origin/empty'' then Some []
            else if u = ''http://origin/gone''
              then Some [ck ''he'' NoErr, (ck ''llo'' NoErr)\<lparr>c_resp := WriteFail 1\<rparr>,
                         ck ''world'' EOF]
            else if u = ''http://origin/diskfull''
              then Some [(ck ''hello'' NoErr)\<lparr>c_file := WriteFail 0\<rparr>, ck ''world'' NoErr]
            else None),
          create_fails = (\<lambda>fp. fp = ''/tmp/pull-agent/locked''),
          intn = (\<lambda>n. 0),
          ticks = []\<rparr>"

text \<open>
  The same with passes of the file reader, which are healthy (\<open>tk\<close>): three over a file
  that stays at 5 bytes; three over a file that grows from 5 to 9 bytes; two over a file
  that grows from 5 bytes to all 10.
\<close>

definition tk :: "string \<Rightarrow> tick" where
  "tk d = \<lparr>t_file = d, t_fault = None, t_resp = WriteAll\<rparr>"

definition e_polling :: env where
  "e_polling = e0\<lparr>ticks := [tk ''01234'', tk ''01234'', tk ''01234'']\<rparr>"

definition e_grown :: env where
  "e_grown = e0\<lparr>ticks := [tk ''01234'', tk ''01234'', tk ''012345678'']\<rparr>"

definition e_complete :: env where
  "e_complete = e0\<lparr>ticks := [tk ''01234'', tk ''0123456789'']\<rparr>"

text \<open>Requests.\<close>

definition req_src :: request where
  "req_src = \<lparr>req_path = ''/abc'', q_len = ''10'', q_relay = [],
              q_source = ''http%3A%2F%2Forigin%2Fabc''\<rparr>"

definition req_peer :: request where
  "req_peer = \<lparr>req_path = ''/abc'', q_len = ''10'', q_relay = [], q_source = []\<rparr>"

definition req_peer_locked :: request where
  "req_peer_locked = \<lparr>req_path = ''/locked'', q_len = ''10'', q_relay = [], q_source = []\<rparr>"

definition req_plain :: request where
  "req_plain = \<lparr>req_path = ''/abc'', q_len = ''10'', q_relay = [], q_source = []\<rparr>"

definition req_relay :: request where
  "req_relay = \<lparr>req_path = ''/abc'', q_len = ''10'', q_relay = ''true'', q_source = []\<rparr>"

definition req_no_len :: request where
  "req_no_len = \<lparr>req_path = ''/abc'', q_len = [], q_relay = ''true'', q_source = []\<rparr>"

definition req_eof0 :: request where
  "req_eof0 = \<lparr>req_path = ''/abc'', q_len = ''10'', q_relay = [],
               q_source = ''http://origin/eof0''\<rparr>"

definition req_diskfull :: request where
  "req_diskfull = \<lparr>req_path = ''/abc'', q_len = ''10'', q_relay = [],
                   q_source = ''http://origin/diskfull''\<rparr>"

definition req_zero :: request where
  "req_zero = \<lparr>req_path = ''/abc'', q_len = ''10'', q_relay = [],
               q_source = ''http://origin/zero''\<rparr>"

definition req_nowhere :: request where
  "req_nowhere = \<lparr>req_path = ''/abc'', q_len = ''10'', q_relay = [],
                  q_source = ''http://nowhere/abc''\<rparr>"

definition req_bad_source :: request where
  "req_bad_source = \<lparr>req_path = ''/abc'', q_len = ''10'', q_relay = [], q_source = ''%zz''\<rparr>"

definition req_locked :: request where
  "req_locked = \<lparr>req_path = ''/locked'', q_len = ''10'', q_relay = [],
                 q_source = ''http://origin/abc''\<rparr>"

section \<open>What the event loop does with an event\<close>

lemma serve_loop_append:
  "serve_loop um g (xs @ ys) st = serve_loop um g ys (serve_loop um g xs st)"
  by (induction xs arbitrary: st) simp_all

lemma handle_event_discarded:
  "discarded um ev \<Longrightarrow> handle_event um g st ev = st"
  by (auto simp: discarded_def handle_event_def split: event.splits option.splits)

lemma handle_event_ignores_name:
  "handle_event um g st (UserEvent name payload) = handle_event um g st (UserEvent name' payload)"
  by (simp add: handle_event_def)

lemma handle_event_started:
  "um payload = Some le \<Longrightarrow> Status le = StatusStarted \<Longrightarrow>
     handle_event um g st (UserEvent name payload) = addNode g (Digest le) (Address le) st"
  by (simp add: handle_event_def StatusStarted_def StatusEnded_def)

lemma handle_event_ended:
  "um payload = Some le \<Longrightarrow> Status le = StatusEnded \<Longrightarrow>
     handle_event um g st (UserEvent name payload) = delNode g (Digest le) (Address le) st"
  by (simp add: handle_event_def StatusStarted_def StatusEnded_def)

text \<open>
  C6 (as amended).  An event that is no user event, a user event whose payload does not
  decode, and a user event whose decoded status is neither started (1) nor ended (0)
  leave the registry and the store as they were, and the loop goes on: the state after
  any later events is the state those events produce without it.  The name of a user
  event is never looked at: two user events with the same payload are handled alike
  whatever they are called, and a payload that decodes to status 1 or 0 is applied to
  the registry (\<open>addNode\<close>, \<open>delNode\<close>) under any event name.
\<close>

theorem event_handling:
  "(discarded um ev \<longrightarrow>
      handle_event um g st ev = st
    \<and> serve_loop um g (pre @ ev # post) st = serve_loop um g (pre @ post) st)
   \<and> handle_event um g st (UserEvent name payload) = handle_event um g st (UserEvent name' payload)
   \<and> (um payload = Some le \<and> Status le = StatusStarted \<longrightarrow>
        handle_event um g st (UserEvent name payload) = addNode g (Digest le) (Address le) st)
   \<and> (um payload = Some le \<and> Status le = StatusEnded \<longrightarrow>
        handle_event um g st (UserEvent name payload) = delNode g (Digest le) (Address le) st)"
proof (intro conjI impI)
  assume d: "discarded um ev"
  show "handle_event um g st ev = st" using d by (rule handle_event_discarded)
  show "serve_loop um g (pre @ ev # post) st = serve_loop um g (pre @ post) st"
    using d by (simp add: serve_loop_append handle_event_discarded)
next
  show "handle_event um g st (UserEvent name payload) = handle_event um g st (UserEvent name' payload)"
    by (rule handle_event_ignores_name)
next
  assume "um payload = Some le \<and> Status le = StatusStarted"
  then show "handle_event um g st (UserEvent name payload) = addNode g (Digest le) (Address le) st"
    by (simp add: handle_event_started)
next
  assume "um payload = Some le \<and> Status le = StatusEnded"
  then show "handle_event um g st (UserEvent name payload) = delNode g (Digest le) (Address le) st"
    by (simp add: handle_event_ended)
qed

lemma discarded_examples:
  "discarded um0 MemberEvent"
  "discarded um0 (UserEvent EventStartLayer ''{not json'')"
  "discarded um0 (UserEvent EventStartLayer ''status 7'')"
  by (simp_all add: discarded_def um0_def StatusStarted_def StatusEnded_def)

lemma decoded_examples:
  "um0 ''start abc n1'' = Some \<lparr>Status = 1, Digest = ''/abc'', Address = ''n1''\<rparr>
     \<and> Status \<lparr>Status = 1, Digest = ''/abc'', Address = ''n1''\<rparr> = StatusStarted"
  "um0 ''end abc n1'' = Some \<lparr>Status = 0, Digest = ''/abc'', Address = ''n1''\<rparr>
     \<and> Status \<lparr>Status = 0, Digest = ''/abc'', Address = ''n1''\<rparr> = StatusEnded"
  by (simp_all add: um0_def StatusStarted_def StatusEnded_def)

theorem event_handling_witness:
  "discarded um0 MemberEvent
   \<and> handle_event um0 grow2 cl1 MemberEvent = cl1
   \<and> discarded um0 (UserEvent EventStartLayer ''{not json'')
   \<and> handle_event um0 grow2 cl1 (UserEvent EventStartLayer ''{not json'') = cl1
   \<and> serve_loop um0 grow2
        ([UserEvent EventStartLayer ''start abc n1'']
           @ UserEvent EventStartLayer ''{not json''
           # [UserEvent EventEndLayer ''end abc n1'']) cl1
     = serve_loop um0 grow2
        ([UserEvent EventStartLayer ''start abc n1''] @ [UserEvent EventEndLayer ''end abc n1''])
        cl1
   \<and> discarded um0 (UserEvent EventStartLayer ''status 7'')
   \<and> handle_event um0 grow2 cl1 (UserEvent EventStartLayer ''status 7'') = cl1
   \<and> um0 ''start abc n1'' = Some \<lparr>Status = 1, Digest = ''/abc'', Address = ''n1''\<rparr>
   \<and> handle_event um0 grow2 cl0 (UserEvent ''SOME_OTHER'' ''start abc n1'')
       = addNode grow2 ''/abc'' ''n1'' cl0
   \<and> um0 ''end abc n1'' = Some \<lparr>Status = 0, Digest = ''/abc'', Address = ''n1''\<rparr>
   \<and> handle_event um0 grow2 cl1 (UserEvent ''SOME_OTHER'' ''end abc n1'')
       = delNode grow2 ''/abc'' ''n1'' cl1"
proof -
  note t1 = event_handling [where um = um0 and ev = MemberEvent and g = grow2 and st = cl1
              and pre = "[]" and post = "[]",
              THEN conjunct1, THEN mp, OF discarded_examples(1), THEN conjunct1]
  note t2 = event_handling [where um = um0 and ev = "UserEvent EventStartLayer ''{not json''"
              and g = grow2 and st = cl1
              and pre = "[UserEvent EventStartLayer ''start abc n1'']"
              and post = "[UserEvent EventEndLayer ''end abc n1'']",
              THEN conjunct1, THEN mp, OF discarded_examples(2)]
  note t3 = event_handling [where um = um0 and ev = "UserEvent EventStartLayer ''status 7''"
              and g = grow2 and st = cl1 and pre = "[]" and post = "[]",
              THEN conjunct1, THEN mp, OF discarded_examples(3), THEN conjunct1]
  note t4 = event_handling [where um = um0 and g = grow2 and st = cl0
              and name = "''SOME_OTHER''" and payload = "''start abc n1''"
              and le = "\<lparr>Status = 1, Digest = ''/abc'', Address = ''n1''\<rparr>",
              THEN conjunct2, THEN conjunct2, THEN conjunct1, THEN mp, OF decoded_examples(1)]
  note t5 = event_handling [where um = um0 and g = grow2 and st = cl1
              and name = "''SOME_OTHER''" and payload = "''end abc n1''"
              and le = "\<lparr>Status = 0, Digest = ''/abc'', Address = ''n1''\<rparr>",
              THEN conjunct2, THEN conjunct2, THEN conjunct2, THEN mp, OF decoded_examples(2)]
  have t4': "handle_event um0 grow2 cl0 (UserEvent ''SOME_OTHER'' ''start abc n1'')
       = addNode grow2 ''/abc'' ''n1'' cl0"
    using t4 by simp
  have t5': "handle_event um0 grow2 cl1 (UserEvent ''SOME_OTHER'' ''end abc n1'')
       = delNode grow2 ''/abc'' ''n1'' cl1"
    using t5 by simp
  show ?thesis
    using discarded_examples t1 t2 [THEN conjunct1] t2 [THEN conjunct2] t3
      decoded_examples(1) [THEN conjunct1] t4' decoded_examples(2) [THEN conjunct1] t5'
    by (intro conjI)
qed

text \<open>
  The claim as stated fails for the event type: a user event whose name is neither
  \<^verbatim>\<open>START_LAYER\<close> nor \<^verbatim>\<open>END_LAYER\<close>, with a payload of status 1, adds its node to
  the registry, which had none for \<^verbatim>\<open>/abc\<close>.
\<close>

theorem unknown_event_name_counterexample:
  "''SOME_OTHER'' \<noteq> EventStartLayer \<and> ''SOME_OTHER'' \<noteq> EventEndLayer
   \<and> elems (snd cl0) (Endpoints (fst cl0) ''/abc'') = []
   \<and> elems (snd (handle_event um0 grow2 cl0 (UserEvent ''SOME_OTHER'' ''start abc n1'')))
        (Endpoints (fst (handle_event um0 grow2 cl0 (UserEvent ''SOME_OTHER'' ''start abc n1'')))
           ''/abc'')
       = [''n1'']"
proof -
  have "handle_event um0 grow2 cl0 (UserEvent ''SOME_OTHER'' ''start abc n1'')
          = addNode grow2 ''/abc'' ''n1'' cl0"
    using decoded_examples(1) by (simp add: handle_event_started)
  moreover have "elems (snd (addNode grow2 ''/abc'' ''n1'' cl0))
                   (Endpoints (fst (addNode grow2 ''/abc'' ''n1'' cl0)) ''/abc'') = [''n1'']"
    by (simp add: cl0_def addNode_def New_def heap0_def empty_slice_def elems_def
          append_go_def grow2_def Endpoints_def Let_def)
  moreover have "elems (snd cl0) (Endpoints (fst cl0) ''/abc'') = []"
    by (simp add: cl0_def New_def Endpoints_def elems_def empty_slice_def)
  ultimately show ?thesis
    by (simp add: EventStartLayer_def EventEndLayer_def)
qed

section \<open>Projections of the primitives\<close>

lemma act_simps [simp]:
  "trace (act a w) = trace w @ [a]" "fs (act a w) = fs w" "resp (act a w) = resp w"
  by (simp_all add: act_def)

lemma writeHeader_simps [simp]:
  "trace (writeHeader c w) = trace w @ [WriteHeader c]"
  "fs (writeHeader c w) = fs w"
  "resp_body (resp (writeHeader c w)) = resp_body (resp w)"
  "resp_status (resp (writeHeader c w)) =
     (case resp_status (resp w) of None \<Rightarrow> Some c | Some c' \<Rightarrow> Some c')"
  by (simp_all add: writeHeader_def)

lemma setHeader_simps [simp]:
  "trace (setHeader k v w) = trace w @ [SetHeader k v]"
  "fs (setHeader k v w) = fs w"
  "resp_body (resp (setHeader k v w)) = resp_body (resp w)"
  "resp_status (resp (setHeader k v w)) = resp_status (resp w)"
  by (simp_all add: setHeader_def)

lemma respWrite_simps [simp]:
  "trace (fst (respWrite d r w)) = trace w @ [RespWrite d]"
  "fs (fst (respWrite d r w)) = fs w"
  "resp_body (resp (fst (respWrite d r w))) = resp_body (resp w) @ take (taken r d) d"
  "snd (respWrite d r w) = (taken r d, failed r)"
  by (simp_all add: respWrite_def)

lemma fileWrite_simps [simp]:
  "trace (fst (fileWrite fp d r w)) = trace w @ [FileWrite fp d]"
  "resp (fst (fileWrite fp d r w)) = resp w"
  "q \<noteq> fp \<Longrightarrow> fs (fst (fileWrite fp d r w)) q = fs w q"
  "(fs (fst (fileWrite fp d r w)) fp = None) = (fs w fp = None)"
  by (simp_all add: fileWrite_def split: option.splits)

lemma osCreate_simps [simp]:
  "trace (osCreate fp w) = trace w" "resp (osCreate fp w) = resp w"
  "fs (osCreate fp w) = (fs w)(fp \<mapsto> [])"
  by (simp_all add: osCreate_def)

lemma osRemove_simps [simp]:
  "trace (osRemove fp w) = trace w @ [Remove fp]" "resp (osRemove fp w) = resp w"
  "fs (osRemove fp w) = (fs w)(fp := None)"
  by (simp_all add: osRemove_def)

lemma StartLayer_simps [simp]:
  "trace (StartLayer s d w) = trace w @ [started s d]"
  "fs (StartLayer s d w) = fs w" "resp (StartLayer s d w) = resp w"
  by (simp_all add: StartLayer_def started_def)

lemma EndLayer_simps [simp]:
  "trace (EndLayer s d w) = trace w @ [ended s d]"
  "fs (EndLayer s d w) = fs w" "resp (EndLayer s d w) = resp w"
  by (simp_all add: EndLayer_def ended_def)

lemma fileWriter_Write_simps [simp]:
  "trace (fst (fileWriter_Write fp d rf rr w)) = trace w @ [FileWrite fp d, RespWrite d]"
  "q \<noteq> fp \<Longrightarrow> fs (fst (fileWriter_Write fp d rf rr w)) q = fs w q"
  "(fs (fst (fileWriter_Write fp d rf rr w)) fp = None) = (fs w fp = None)"
  "resp_body (resp (fst (fileWriter_Write fp d rf rr w))) = resp_body (resp w) @ take (taken rr d) d"
  "snd (fileWriter_Write fp d rf rr w) = (taken rr d, failed rr)"
  by (simp_all add: fileWriter_Write_def)

lemma is_broadcast_simps [simp]:
  "is_broadcast (started s d)" "is_broadcast (ended s d)"
  by (simp_all add: started_def ended_def)

lemma fileWriter_Write_fs_at:
  "fs w fp = Some old \<Longrightarrow>
     fs (fst (fileWriter_Write fp d rf rr w)) fp = Some (old @ take (taken rf d) d)"
  by (simp add: fileWriter_Write_def respWrite_def fileWrite_def)

section \<open>io.CopyBuffer\<close>

lemma taken_not_failed: "\<not> failed r \<Longrightarrow> taken r d = length d"
  by (simp add: failed_def taken_def)

lemma copyBuffer_loop_stop:
  assumes "c_data c \<noteq> []" and "failed (c_resp c) \<or> c_err c \<noteq> NoErr"
  shows "fst (copyBuffer_loop fp (c # cs) w)
           = fst (fileWriter_Write fp (c_data c) (c_file c) (c_resp c) (act BodyRead w))"
  using assms by (auto simp: Let_def)

lemma copyBuffer_loop_go:
  assumes "c_data c \<noteq> []" and "\<not> failed (c_resp c)" and "c_err c = NoErr"
  shows "copyBuffer_loop fp (c # cs) w
           = copyBuffer_loop fp cs (fst (fileWriter_Write fp (c_data c) (c_file c) (c_resp c) (act BodyRead w)))"
  using assms by (simp add: Let_def taken_not_failed)

lemma copyBuffer_loop_empty_stop:
  assumes "c_data c = []" "c_err c \<noteq> NoErr"
  shows "fst (copyBuffer_loop fp (c # cs) w) = act BodyRead w"
  using assms by (simp add: Let_def)

lemma copyBuffer_loop_empty_go:
  assumes "c_data c = []" "c_err c = NoErr"
  shows "copyBuffer_loop fp (c # cs) w = copyBuffer_loop fp cs (act BodyRead w)"
  using assms by (simp add: Let_def)

lemma copyBuffer_loop_trace:
  "\<exists>xs. trace (fst (copyBuffer_loop fp cs w)) = trace w @ BodyRead # xs
        \<and> (\<forall>a \<in> set xs. is_copy_action a)"
proof (induction cs arbitrary: w)
  case Nil
  show ?case by simp
next
  case (Cons c cs)
  let ?w1 = "act BodyRead w"
  let ?r = "fileWriter_Write fp (c_data c) (c_file c) (c_resp c) ?w1"
  consider
      (stop) "c_data c \<noteq> []" "failed (c_resp c) \<or> c_err c \<noteq> NoErr"
    | (go) "c_data c \<noteq> []" "\<not> failed (c_resp c)" "c_err c = NoErr"
    | (estop) "c_data c = []" "c_err c \<noteq> NoErr"
    | (ego) "c_data c = []" "c_err c = NoErr"
    by blast
  then show ?case
  proof cases
    case stop
    have "trace (fst (copyBuffer_loop fp (c # cs) w))
                 = trace w @ BodyRead # [FileWrite fp (c_data c), RespWrite (c_data c)]"
      by (simp only: copyBuffer_loop_stop [OF stop] fileWriter_Write_simps act_simps) simp
    then show ?thesis by simp
  next
    case go
    obtain ys where ys: "trace (fst (copyBuffer_loop fp cs (fst ?r))) = trace (fst ?r) @ BodyRead # ys"
        "\<forall>a \<in> set ys. is_copy_action a"
      using Cons.IH by blast
    have "trace (fst (copyBuffer_loop fp (c # cs) w))
            = trace w @ BodyRead # ([FileWrite fp (c_data c), RespWrite (c_data c), BodyRead] @ ys)"
      using ys(1) by (simp only: copyBuffer_loop_go [OF go] fileWriter_Write_simps act_simps) simp
    moreover have "\<forall>a \<in> set ([FileWrite fp (c_data c), RespWrite (c_data c), BodyRead] @ ys).
                     is_copy_action a"
      using ys(2) by simp
    ultimately show ?thesis by blast
  next
    case estop
    have "trace (fst (copyBuffer_loop fp (c # cs) w)) = trace w @ BodyRead # []"
      by (simp only: copyBuffer_loop_empty_stop [OF estop] act_simps)
    then show ?thesis by simp
  next
    case ego
    obtain zs where zs: "trace (fst (copyBuffer_loop fp cs ?w1)) = trace ?w1 @ BodyRead # zs"
        "\<forall>a \<in> set zs. is_copy_action a"
      using Cons.IH by blast
    have "trace (fst (copyBuffer_loop fp (c # cs) w)) = trace w @ BodyRead # (BodyRead # zs)"
      using zs(1) by (simp only: copyBuffer_loop_empty_go [OF ego] act_simps) simp
    moreover have "\<forall>a \<in> set (BodyRead # zs). is_copy_action a"
      using zs(2) by simp
    ultimately show ?thesis by blast
  qed
qed

lemma copyBuffer_loop_err_indep:
  "snd (copyBuffer_loop fp cs w) = snd (copyBuffer_loop fp' cs w')"
  by (induction cs arbitrary: w w') (auto simp: Let_def)

lemma copyBuffer_loop_fs_other:
  "q \<noteq> fp \<Longrightarrow> fs (fst (copyBuffer_loop fp cs w)) q = fs w q"
  by (induction cs arbitrary: w) (auto simp: Let_def)

lemma copyBuffer_loop_fs_kept:
  "(fs (fst (copyBuffer_loop fp cs w)) fp = None) = (fs w fp = None)"
  by (induction cs arbitrary: w) (auto simp: Let_def)

lemma copyBuffer_loop_fails: "snd (copyBuffer_loop fp cs w) = copy_fails cs"
  by (induction cs arbitrary: w) (auto simp: Let_def taken_not_failed)

lemma copyBuffer_loop_delivered:
  "resp_body (resp (fst (copyBuffer_loop fp cs w))) = resp_body (resp w) @ delivered cs"
proof (induction cs arbitrary: w)
  case Nil
  show ?case by simp
next
  case (Cons c cs)
  show ?case
  proof (cases "c_data c = []")
    case True
    then show ?thesis using Cons.IH by (simp add: Let_def taken_def split: wres.splits)
  next
    case False
    then show ?thesis using Cons.IH by (auto simp: Let_def taken_not_failed)
  qed
qed

lemma copyBuffer_loop_cached:
  "fs w fp = Some old \<Longrightarrow> fs (fst (copyBuffer_loop fp cs w)) fp = Some (old @ cached cs)"
proof (induction cs arbitrary: w old)
  case Nil
  then show ?case by simp
next
  case (Cons c cs)
  let ?w' = "fst (fileWriter_Write fp (c_data c) (c_file c) (c_resp c) (act BodyRead w))"
  have f': "fs ?w' fp = Some (old @ take (taken (c_file c) (c_data c)) (c_data c))"
    using Cons.prems by (simp add: fileWriter_Write_fs_at)
  have f0: "fs (act BodyRead w) fp = Some old" using Cons.prems by simp
  show ?case
  proof (cases "c_data c = []")
    case True
    then show ?thesis
      using Cons.IH [OF f0] f0 by (simp add: Let_def taken_def split: wres.splits)
  next
    case False
    then show ?thesis
      using Cons.IH [OF f'] f' by (auto simp: Let_def taken_not_failed)
  qed
qed

text \<open>The whole of \<open>CopyBuffer\<close>: nothing at all for \<^verbatim>\<open>http.NoBody\<close>, the loop otherwise.\<close>

lemma CopyBuffer_Nil: "CopyBuffer fp [] w = (w, False)"
  by (simp add: CopyBuffer_def)

lemma CopyBuffer_nonempty: "body \<noteq> [] \<Longrightarrow> CopyBuffer fp body w = copyBuffer_loop fp body w"
  by (cases body) (simp_all add: CopyBuffer_def)

lemma CopyBuffer_trace:
  "\<exists>xs. trace (fst (CopyBuffer fp cs w)) = trace w @ xs \<and> (\<forall>a \<in> set xs. is_copy_action a)"
proof (cases "cs = []")
  case True
  then show ?thesis by (simp add: CopyBuffer_Nil)
next
  case False
  obtain xs where "trace (fst (copyBuffer_loop fp cs w)) = trace w @ BodyRead # xs"
      "\<forall>a \<in> set xs. is_copy_action a"
    using copyBuffer_loop_trace by blast
  then have "trace (fst (CopyBuffer fp cs w)) = trace w @ (BodyRead # xs)"
      "\<forall>a \<in> set (BodyRead # xs). is_copy_action a"
    using False by (simp_all add: CopyBuffer_nonempty)
  then show ?thesis by blast
qed

lemma CopyBuffer_fails: "snd (CopyBuffer fp cs w) = copy_fails cs"
  by (cases "cs = []") (simp_all add: CopyBuffer_Nil CopyBuffer_nonempty copyBuffer_loop_fails)

lemma CopyBuffer_delivered:
  "resp_body (resp (fst (CopyBuffer fp cs w))) = resp_body (resp w) @ delivered cs"
  by (cases "cs = []") (simp_all add: CopyBuffer_Nil CopyBuffer_nonempty copyBuffer_loop_delivered)

lemma CopyBuffer_cached:
  "fs w fp = Some old \<Longrightarrow> fs (fst (CopyBuffer fp cs w)) fp = Some (old @ cached cs)"
  by (cases "cs = []") (simp_all add: CopyBuffer_Nil CopyBuffer_nonempty copyBuffer_loop_cached)

lemma CopyBuffer_fs_other:
  "q \<noteq> fp \<Longrightarrow> fs (fst (CopyBuffer fp cs w)) q = fs w q"
  by (cases "cs = []") (simp_all add: CopyBuffer_Nil CopyBuffer_nonempty copyBuffer_loop_fs_other)

lemma delivered_whole:
  "\<forall>c \<in> set cs. c_resp c = WriteAll \<Longrightarrow> delivered cs = body_bytes cs"
  by (induction cs) (auto simp: taken_def failed_def)

lemma cached_whole:
  "\<forall>c \<in> set cs. c_resp c = WriteAll \<and> c_file c = WriteAll \<Longrightarrow> cached cs = body_bytes cs"
  by (induction cs) (auto simp: taken_def failed_def)

section \<open>copyFromURL\<close>

lemma copyFromURL_get_fails:
  "http_get e url = None \<Longrightarrow>
     copyFromURL p cl e path url w
       = writeHeader 400 (act (HttpGet url) (act (Log ''copy from url'') w))"
  by (simp add: copyFromURL_def)

lemma copyFromURL_create_fails:
  "http_get e url = Some body \<Longrightarrow> create_fails e (localDir p @ path) \<Longrightarrow>
     copyFromURL p cl e path url w
       = act BodyClose (writeHeader 500 (act (Log ''failed to create file'')
           (act (Create (localDir p @ path)) (act (HttpGet url) (act (Log ''copy from url'') w)))))"
  by (simp add: copyFromURL_def)

lemma copyFromURL_trace:
  assumes "http_get e url = Some body" and "\<not> create_fails e (localDir p @ path)"
  shows "\<exists>xs. trace (copyFromURL p cl e path url w)
               = trace w @ [Log ''copy from url'', HttpGet url, Create (localDir p @ path),
                            started cl path] @ xs @ [ended cl path, BodyClose]
             \<and> (\<forall>a \<in> set xs. \<not> is_broadcast a)"
proof -
  let ?fp = "localDir p @ path"
  let ?w3 = "StartLayer cl path (osCreate ?fp (act (Create ?fp)
               (act (HttpGet url) (act (Log ''copy from url'') w))))"
  obtain ys where ys: "trace (fst (CopyBuffer ?fp body ?w3)) = trace ?w3 @ ys"
      "\<forall>a \<in> set ys. is_copy_action a"
    using CopyBuffer_trace by blast
  have nb: "\<forall>a \<in> set ys. \<not> is_broadcast a"
  proof
    fix a assume "a \<in> set ys"
    then have "is_copy_action a" using ys(2) by blast
    then show "\<not> is_broadcast a" by (cases a) simp_all
  qed
  show ?thesis
  proof (cases "snd (CopyBuffer ?fp body ?w3)")
    case True
    have "trace (copyFromURL p cl e path url w)
            = trace w @ [Log ''copy from url'', HttpGet url, Create ?fp, started cl path]
                @ (ys @ [Log ''failed to copy from url'', FileClose ?fp, Remove ?fp])
                @ [ended cl path, BodyClose]"
      using assms True ys(1) by (simp add: copyFromURL_def Let_def)
    moreover have "\<forall>a \<in> set (ys @ [Log ''failed to copy from url'', FileClose ?fp, Remove ?fp]).
                     \<not> is_broadcast a"
      using nb by simp
    ultimately show ?thesis by blast
  next
    case False
    have "trace (copyFromURL p cl e path url w)
            = trace w @ [Log ''copy from url'', HttpGet url, Create ?fp, started cl path]
                @ ys @ [ended cl path, BodyClose]"
      using assms False ys(1) by (simp add: copyFromURL_def Let_def)
    with nb show ?thesis by blast
  qed
qed

lemma copyFromURL_trace_read:
  assumes "http_get e url = Some body" and "\<not> create_fails e (localDir p @ path)"
      and "body \<noteq> []"
  shows "\<exists>xs. trace (copyFromURL p cl e path url w)
               = trace w @ [Log ''copy from url'', HttpGet url, Create (localDir p @ path),
                            started cl path, BodyRead] @ xs"
proof -
  let ?fp = "localDir p @ path"
  let ?w3 = "StartLayer cl path (osCreate ?fp (act (Create ?fp)
               (act (HttpGet url) (act (Log ''copy from url'') w))))"
  obtain ys where "trace (fst (copyBuffer_loop ?fp body ?w3)) = trace ?w3 @ BodyRead # ys"
    using copyBuffer_loop_trace by blast
  then have ys: "trace (fst (CopyBuffer ?fp body ?w3)) = trace ?w3 @ BodyRead # ys"
    using assms(3) by (simp add: CopyBuffer_nonempty)
  show ?thesis
  proof (cases "snd (CopyBuffer ?fp body ?w3)")
    case True
    have "trace (copyFromURL p cl e path url w)
            = trace w @ [Log ''copy from url'', HttpGet url, Create ?fp, started cl path, BodyRead]
                @ (ys @ [Log ''failed to copy from url'', FileClose ?fp, Remove ?fp,
                         ended cl path, BodyClose])"
      using assms(1,2) True ys by (simp add: copyFromURL_def Let_def)
    then show ?thesis by blast
  next
    case False
    have "trace (copyFromURL p cl e path url w)
            = trace w @ [Log ''copy from url'', HttpGet url, Create ?fp, started cl path, BodyRead]
                @ (ys @ [ended cl path, BodyClose])"
      using assms(1,2) False ys by (simp add: copyFromURL_def Let_def)
    then show ?thesis by blast
  qed
qed

lemma copyFromURL_body:
  assumes "http_get e url = Some body" and "\<not> create_fails e (localDir p @ path)"
  shows "resp_body (resp (copyFromURL p cl e path url w)) = resp_body (resp w) @ delivered body"
  using assms by (simp add: copyFromURL_def Let_def CopyBuffer_delivered)

lemma copyFromURL_file:
  assumes "http_get e url = Some body" and "\<not> create_fails e (localDir p @ path)"
  shows "fs (copyFromURL p cl e path url w) (localDir p @ path)
           = (if copy_fails body then None else Some (cached body))"
proof -
  let ?fp = "localDir p @ path"
  let ?w3 = "StartLayer cl path (osCreate ?fp (act (Create ?fp)
               (act (HttpGet url) (act (Log ''copy from url'') w))))"
  have "fs ?w3 ?fp = Some []" by simp
  then have "fs (fst (CopyBuffer ?fp body ?w3)) ?fp = Some ([] @ cached body)"
    by (rule CopyBuffer_cached)
  then show ?thesis
    using assms by (simp add: copyFromURL_def Let_def CopyBuffer_fails)
qed

lemma copyFromURL_untouched:
  assumes "http_get e url = None \<or> create_fails e (localDir p @ path)"
  shows "fs (copyFromURL p cl e path url w) = fs w"
    and "resp_body (resp (copyFromURL p cl e path url w)) = resp_body (resp w)"
  using assms by (auto simp: copyFromURL_def Let_def split: option.splits)

lemma copyFromURL_status:
  assumes "resp_status (resp w) = None"
  shows "http_get e url = None \<Longrightarrow>
           resp_status (resp (copyFromURL p cl e path url w)) = Some 400"
    and "http_get e url = Some body \<Longrightarrow> create_fails e (localDir p @ path) \<Longrightarrow>
           resp_status (resp (copyFromURL p cl e path url w)) = Some 500"
  using assms by (simp_all add: copyFromURL_get_fails copyFromURL_create_fails)

lemma copyFromURL_no_broadcast:
  assumes "http_get e url = None \<or> create_fails e (localDir p @ path)"
  shows "\<exists>ys. trace (copyFromURL p cl e path url w) = trace w @ ys \<and> filter is_broadcast ys = []"
  using assms by (auto simp: copyFromURL_def Let_def split: option.splits)

lemma emitted_append [simp]: "trace w' = trace w @ xs \<Longrightarrow> emitted w w' = xs"
  by (simp add: emitted_def)

text \<open>
  C10.  In every run of \<open>copyFromURL\<close> the broadcasts it makes are: none at all when
  the GET fails or the cache file cannot be created; otherwise exactly the started event
  followed by the ended event, once each, whether the copy succeeded or failed.  So the
  ended event is broadcast if and only if the started event was.
\<close>

theorem copyFromURL_broadcasts:
  "broadcasts (emitted w (copyFromURL p cl e path url w))
     = (if http_get e url = None \<or> create_fails e (localDir p @ path) then []
        else [started cl path, ended cl path])"
proof (cases "http_get e url")
  case None
  then show ?thesis
    by (simp add: copyFromURL_get_fails broadcasts_def)
next
  case (Some body)
  show ?thesis
  proof (cases "create_fails e (localDir p @ path)")
    case True
    with Some show ?thesis
      by (simp add: copyFromURL_create_fails broadcasts_def)
  next
    case False
    from copyFromURL_trace [OF Some False]
    obtain xs where xs: "trace (copyFromURL p cl e path url w)
               = trace w @ [Log ''copy from url'', HttpGet url, Create (localDir p @ path),
                            started cl path] @ xs @ [ended cl path, BodyClose]"
             "\<forall>a \<in> set xs. \<not> is_broadcast a"
      by blast
    have "filter is_broadcast xs = []" using xs(2) by (simp add: filter_empty_conv)
    with xs(1) Some False show ?thesis
      by (simp add: broadcasts_def)
  qed
qed

theorem copyFromURL_broadcasts_witness:
  "broadcasts (emitted w0 (copyFromURL p0 (fst cl0) e0 ''/abc'' ''http://origin/abc'' w0))
     = [started (fst cl0) ''/abc'', ended (fst cl0) ''/abc'']
   \<and> broadcasts (emitted w0 (copyFromURL p0 (fst cl0) e0 ''/abc'' ''http://origin/zero'' w0))
     = [started (fst cl0) ''/abc'', ended (fst cl0) ''/abc'']
   \<and> broadcasts (emitted w0 (copyFromURL p0 (fst cl0) e0 ''/abc'' ''http://nowhere/abc'' w0)) = []
   \<and> broadcasts (emitted w0 (copyFromURL p0 (fst cl0) e0 ''/locked'' ''http://origin/abc'' w0)) = []"
  using copyFromURL_broadcasts [of w0 p0 "fst cl0" e0 "''/abc''" "''http://origin/abc''"]
        copyFromURL_broadcasts [of w0 p0 "fst cl0" e0 "''/abc''" "''http://origin/zero''"]
        copyFromURL_broadcasts [of w0 p0 "fst cl0" e0 "''/abc''" "''http://nowhere/abc''"]
        copyFromURL_broadcasts [of w0 p0 "fst cl0" e0 "''/locked''" "''http://origin/abc''"]
  by (simp add: e0_def p0_def)

section \<open>The registry hands out its own slices\<close>

lemma cl0_nodes: "elems (snd cl0) (Endpoints (fst cl0) path) = []"
  by (simp add: cl0_def New_def Endpoints_def elems_def empty_slice_def)

lemma cl1_slice:
  "Endpoints (fst cl1) ''/abc'' = \<lparr>s_ptr = 1, s_len = 1, s_cap = 1\<rparr>"
  "arrays (snd cl1) (Suc 0) = [''10.0.0.1'']"
  by (simp_all add: cl1_def cl0_def addNode_def New_def heap0_def empty_slice_def elems_def
        append_go_def grow2_def Endpoints_def Let_def)

lemma cl1_nodes: "elems (snd cl1) (Endpoints (fst cl1) ''/abc'') = [''10.0.0.1'']"
  by (simp add: cl1_slice elems_def)

text \<open>
  C2 (as amended).  For every artifact, \<open>Endpoints\<close> returns the very slice header the
  registry stores under it in \<open>byDigest\<close> (the nil slice, with no element, when it
  stores none), not a copy: the two share the backing array.  So an assignment through
  the returned slice, at the index of any element it shows, changes what the registry
  itself holds for the artifact: the stored slice and every later \<open>Endpoints\<close> call read
  the assigned value there, and the registry then takes the assigned value for a
  downloader (\<open>addNode\<close> finds it present and changes nothing).
\<close>

theorem Endpoints_returns_stored_slice:
  "(byDigest s d = None \<longrightarrow> Endpoints s d = empty_slice \<and> elems h (Endpoints s d) = [])
   \<and> (byDigest s d = Some ns \<longrightarrow> Endpoints s d = ns)
   \<and> (byDigest s d = Some ns \<and> i < length (elems h ns) \<longrightarrow>
        (\<exists>h'. slice_set h (Endpoints s d) i v = Some h'
            \<and> elems h' ns = (elems h ns)[i := v]
            \<and> elems h' (Endpoints s d) = (elems h (Endpoints s d))[i := v]
            \<and> addNode g d v (s, h') = (s, h')))"
proof (intro conjI impI)
  assume "byDigest s d = None"
  then show "Endpoints s d = empty_slice" and "elems h (Endpoints s d) = []"
    by (simp_all add: Endpoints_def elems_def empty_slice_def)
next
  assume "byDigest s d = Some ns"
  then show "Endpoints s d = ns" by (simp add: Endpoints_def)
next
  assume a: "byDigest s d = Some ns \<and> i < length (elems h ns)"
  then have st: "byDigest s d = Some ns" and i: "i < length (elems h ns)" by simp_all
  have e: "Endpoints s d = ns" using st by (simp add: Endpoints_def)
  have il: "i < s_len ns" using i by (simp add: elems_def)
  define h' where "h' = h\<lparr>arrays := (arrays h)(s_ptr ns := (arrays h (s_ptr ns))[i := v])\<rparr>"
  have 1: "slice_set h (Endpoints s d) i v = Some h'"
    using il by (simp add: slice_set_def e h'_def)
  have 2: "elems h' ns = (elems h ns)[i := v]"
    by (simp add: h'_def elems_def take_update_swap)
  have 3: "elems h' (Endpoints s d) = (elems h (Endpoints s d))[i := v]"
    using 2 by (simp add: e)
  have "v \<in> set (elems h' ns)"
    unfolding 2 using i by (rule set_update_memI)
  then have 4: "addNode g d v (s, h') = (s, h')"
    using st by (simp add: addNode_def Let_def)
  from 1 2 3 4 show "\<exists>h'. slice_set h (Endpoints s d) i v = Some h'
            \<and> elems h' ns = (elems h ns)[i := v]
            \<and> elems h' (Endpoints s d) = (elems h (Endpoints s d))[i := v]
            \<and> addNode g d v (s, h') = (s, h')"
    by blast
qed

lemma cl1_stored:
  "byDigest (fst cl1) ''/abc'' = Some \<lparr>s_ptr = 1, s_len = 1, s_cap = 1\<rparr>
     \<and> 0 < length (elems (snd cl1) \<lparr>s_ptr = 1, s_len = 1, s_cap = 1\<rparr>)"
  "byDigest (fst cl0) ''/abc'' = None"
  by (simp_all add: cl1_def cl0_def addNode_def New_def heap0_def empty_slice_def elems_def
        append_go_def grow2_def Let_def)

theorem Endpoints_returns_stored_slice_witness:
  "byDigest (fst cl0) ''/abc'' = None
   \<and> Endpoints (fst cl0) ''/abc'' = empty_slice
   \<and> byDigest (fst cl1) ''/abc'' = Some \<lparr>s_ptr = 1, s_len = 1, s_cap = 1\<rparr>
   \<and> Endpoints (fst cl1) ''/abc'' = \<lparr>s_ptr = 1, s_len = 1, s_cap = 1\<rparr>
   \<and> 0 < length (elems (snd cl1) \<lparr>s_ptr = 1, s_len = 1, s_cap = 1\<rparr>)
   \<and> (\<exists>h'. slice_set (snd cl1) (Endpoints (fst cl1) ''/abc'') 0 ''evil'' = Some h'
          \<and> elems h' \<lparr>s_ptr = 1, s_len = 1, s_cap = 1\<rparr>
              = (elems (snd cl1) \<lparr>s_ptr = 1, s_len = 1, s_cap = 1\<rparr>)[0 := ''evil'']
          \<and> elems h' (Endpoints (fst cl1) ''/abc'')
              = (elems (snd cl1) (Endpoints (fst cl1) ''/abc''))[0 := ''evil'']
          \<and> addNode grow2 ''/abc'' ''evil'' (fst cl1, h') = (fst cl1, h'))"
proof -
  note t1 = Endpoints_returns_stored_slice [where s = "fst cl0" and d = "''/abc''" and h = "snd cl0",
              THEN conjunct1, THEN mp, OF cl1_stored(2), THEN conjunct1]
  note t2 = Endpoints_returns_stored_slice [where s = "fst cl1" and d = "''/abc''",
              THEN conjunct2, THEN conjunct1, THEN mp, OF cl1_stored(1) [THEN conjunct1]]
  note t3 = Endpoints_returns_stored_slice [where s = "fst cl1" and d = "''/abc''"
              and h = "snd cl1" and i = 0 and v = "''evil''" and g = grow2,
              THEN conjunct2, THEN conjunct2, THEN mp, OF cl1_stored(1)]
  show ?thesis
    using cl1_stored(2) t1 cl1_stored(1) [THEN conjunct1] t2 cl1_stored(1) [THEN conjunct2] t3
    by (intro conjI)
qed

text \<open>
  The claim as stated fails: with \<^verbatim>\<open>10.0.0.1\<close> registered for \<^verbatim>\<open>/abc\<close>, the caller
  assigns to element 0 of the slice \<open>Endpoints\<close> returned, and the next \<open>Endpoints\<close> call
  reads the caller's value.
\<close>

theorem Endpoints_snapshot_counterexample:
  "elems (snd cl1) (Endpoints (fst cl1) ''/abc'') = [''10.0.0.1'']
   \<and> slice_set (snd cl1) (Endpoints (fst cl1) ''/abc'') 0 ''evil'' \<noteq> None
   \<and> elems evil_heap (Endpoints (fst cl1) ''/abc'') = [''evil'']"
  by (simp add: evil_heap_def cl1_slice elems_def slice_set_def)

section \<open>The branches of the handler\<close>

lemma Handler_bad_len:
  "ParseInt (q_len req) = None \<Longrightarrow> HandlerFunc p cl e req w = Returned (writeHeader 400 w)"
  by (simp add: HandlerFunc_def)

lemma Handler_relay:
  "ParseInt (q_len req) = Some n \<Longrightarrow> q_relay req \<noteq> [] \<Longrightarrow>
     HandlerFunc p cl e req w
       = copyFromFile p e (req_path req) n (setHeader ''Content-Length'' (q_len req) w)"
  by (simp add: HandlerFunc_def)

lemma Handler_peer:
  "ParseInt (q_len req) = Some n \<Longrightarrow> q_relay req = [] \<Longrightarrow>
   elems (snd cl) (Endpoints (fst cl) (req_path req)) = nodes \<Longrightarrow> nodes \<noteq> [] \<Longrightarrow>
     HandlerFunc p cl e req w
       = Returned (copyFromURL p (fst cl) e (req_path req)
           (relay_url p (nodes ! (intn e (length nodes) mod length nodes)) (req_path req) n)
           (act (CallEndpoints (req_path req)) (setHeader ''Content-Length'' (q_len req) w)))"
  by (cases nodes) (simp_all add: HandlerFunc_def Let_def)

lemma Handler_source:
  "ParseInt (q_len req) = Some n \<Longrightarrow> q_relay req = [] \<Longrightarrow>
   elems (snd cl) (Endpoints (fst cl) (req_path req)) = [] \<Longrightarrow>
   q_source req \<noteq> [] \<Longrightarrow> QueryUnescape (q_source req) = Some src \<Longrightarrow>
     HandlerFunc p cl e req w
       = Returned (copyFromURL p (fst cl) e (req_path req) src
           (act (CallEndpoints (req_path req)) (setHeader ''Content-Length'' (q_len req) w)))"
  by (simp add: HandlerFunc_def Let_def)

lemma Handler_bad_source:
  "ParseInt (q_len req) = Some n \<Longrightarrow> q_relay req = [] \<Longrightarrow>
   elems (snd cl) (Endpoints (fst cl) (req_path req)) = [] \<Longrightarrow>
   q_source req \<noteq> [] \<Longrightarrow> QueryUnescape (q_source req) = None \<Longrightarrow>
     HandlerFunc p cl e req w
       = Returned (writeHeader 500 (act (Log ''failed to unescape source query param'')
           (act (CallEndpoints (req_path req)) (setHeader ''Content-Length'' (q_len req) w))))"
  by (simp add: HandlerFunc_def Let_def)

lemma Handler_nothing:
  "ParseInt (q_len req) = Some n \<Longrightarrow> q_relay req = [] \<Longrightarrow>
   elems (snd cl) (Endpoints (fst cl) (req_path req)) = [] \<Longrightarrow> q_source req = [] \<Longrightarrow>
     HandlerFunc p cl e req w
       = Returned (act (CallEndpoints (req_path req)) (setHeader ''Content-Length'' (q_len req) w))"
  by (simp add: HandlerFunc_def Let_def)

lemma Handler_source_get_fails:
  assumes "ParseInt (q_len req) = Some n" and "q_relay req = []"
      and "elems (snd cl) (Endpoints (fst cl) (req_path req)) = []"
      and "q_source req \<noteq> []" and "QueryUnescape (q_source req) = Some src"
      and "http_get e src = None"
  shows "HandlerFunc p cl e req w
           = Returned (writeHeader 400 (act (HttpGet src) (act (Log ''copy from url'')
               (act (CallEndpoints (req_path req))
                  (setHeader ''Content-Length'' (q_len req) w)))))"
  by (simp add: Handler_source [OF assms(1-5)] copyFromURL_get_fails [OF assms(6)])

lemma Handler_source_create_fails:
  assumes "ParseInt (q_len req) = Some n" and "q_relay req = []"
      and "elems (snd cl) (Endpoints (fst cl) (req_path req)) = []"
      and "q_source req \<noteq> []" and "QueryUnescape (q_source req) = Some src"
      and "http_get e src = Some body" and "create_fails e (localDir p @ req_path req)"
  shows "HandlerFunc p cl e req w
           = Returned (act BodyClose (writeHeader 500 (act (Log ''failed to create file'')
               (act (Create (localDir p @ req_path req)) (act (HttpGet src)
                 (act (Log ''copy from url'') (act (CallEndpoints (req_path req))
                    (setHeader ''Content-Length'' (q_len req) w))))))))"
  by (simp add: Handler_source [OF assms(1-5)] copyFromURL_create_fails [OF assms(6,7)])

section \<open>Concrete values\<close>

lemma parse_10: "ParseInt ''10'' = Some 10"
  by (simp add: ParseInt_def is_digit_def)

lemma parse_empty: "ParseInt [] = None"
  by (simp add: ParseInt_def)

lemma unescape_origin:
  "QueryUnescape ''http%3A%2F%2Forigin%2Fabc'' = Some ''http://origin/abc''"
  by (simp add: ishex_def unhex_def char_of_def bit_Suc_0_iff)

lemma unescape_bad: "QueryUnescape ''%zz'' = None"
  by (simp add: ishex_def)

lemma show_nat_values: "show_nat 8080 = ''8080''" "show_nat 10 = ''10''"
  by (simp_all add: show_nat.simps char_of_def bit_Suc_0_iff)

lemma relay_url_10:
  "relay_url p0 ''10.0.0.1'' ''/abc'' 10 = ''http://10.0.0.1:8080/abc?relay=true&len=10''"
  by (simp add: relay_url_def p0_def show_int_def show_nat_values)

section \<open>The authoritative fetch\<close>

lemma started_neq_ended [simp]: "started s d \<noteq> ended s' d'" "ended s' d' \<noteq> started s d"
  by (simp_all add: started_def ended_def EventStartLayer_def EventEndLayer_def)

lemma started_ended_shape [simp]:
  "started s d \<noteq> Log m" "started s d \<noteq> HttpGet u" "started s d \<noteq> Create f"
  "started s d \<noteq> BodyRead" "started s d \<noteq> BodyClose" "started s d \<noteq> SetHeader k v"
  "started s d \<noteq> CallEndpoints q" "started s d \<noteq> WriteHeader c"
  "ended s d \<noteq> Log m" "ended s d \<noteq> HttpGet u" "ended s d \<noteq> Create f"
  "ended s d \<noteq> BodyRead" "ended s d \<noteq> BodyClose" "ended s d \<noteq> SetHeader k v"
  "ended s d \<noteq> CallEndpoints q" "ended s d \<noteq> WriteHeader c"
  by (simp_all add: started_def ended_def)

lemmas started_ended_shape_sym [simp] = started_ended_shape [THEN not_sym]

lemma not_broadcast_count:
  "\<forall>a \<in> set xs. \<not> is_broadcast a \<Longrightarrow> is_broadcast b \<Longrightarrow> count_list xs b = 0"
  by (induction xs) auto

lemma first_index_here: "a \<notin> set pre \<Longrightarrow> first_index a (pre @ a # rest) = length pre"
  by (induction pre) (auto simp: first_index_def)

lemma Handler_source_trace:
  assumes "ParseInt (q_len req) = Some n" and "q_relay req = []"
      and "elems (snd cl) (Endpoints (fst cl) (req_path req)) = []"
      and "q_source req \<noteq> []" and "QueryUnescape (q_source req) = Some src"
      and "http_get e src = Some body" and "\<not> create_fails e (localDir p @ req_path req)"
  shows "\<exists>xs. trace (outcome (HandlerFunc p cl e req w))
               = trace w @ [SetHeader ''Content-Length'' (q_len req), CallEndpoints (req_path req),
                   Log ''copy from url'', HttpGet src, Create (localDir p @ req_path req),
                   started (fst cl) (req_path req)]
                 @ xs @ [ended (fst cl) (req_path req), BodyClose]
             \<and> (\<forall>a \<in> set xs. \<not> is_broadcast a)"
proof -
  let ?w2 = "act (CallEndpoints (req_path req)) (setHeader ''Content-Length'' (q_len req) w)"
  obtain xs where xs: "trace (copyFromURL p (fst cl) e (req_path req) src ?w2)
               = trace ?w2 @ [Log ''copy from url'', HttpGet src, Create (localDir p @ req_path req),
                            started (fst cl) (req_path req)] @ xs
                   @ [ended (fst cl) (req_path req), BodyClose]"
             "\<forall>a \<in> set xs. \<not> is_broadcast a"
    using copyFromURL_trace [OF assms(6,7)] by blast
  have "trace (outcome (HandlerFunc p cl e req w))
               = trace w @ [SetHeader ''Content-Length'' (q_len req), CallEndpoints (req_path req),
                   Log ''copy from url'', HttpGet src, Create (localDir p @ req_path req),
                   started (fst cl) (req_path req)]
                 @ xs @ [ended (fst cl) (req_path req), BodyClose]"
    using xs(1) by (simp add: Handler_source [OF assms(1-5)])
  with xs(2) show ?thesis by blast
qed

text \<open>
  C4 (as amended).  On the authoritative path (length parses, no relay flag, no endpoint
  known, a source that unescapes) the handler returns.  When the GET fails or the cache
  file cannot be created, the ended event is not broadcast (nor was the started one) and
  no file changes.  Once the GET has succeeded and the cache file has been created, the
  ended event is broadcast exactly once, however the copy goes.  When the copy returns
  an error, wherever in the copy loop that happens (a read error of the body, at the
  first read with 0 bytes or after any number of chunks, or a failed write to the
  caller), the cache file does not exist afterwards.  When the copy returns no error the
  file stays, holding the bytes it took, which may be fewer than the origin sent (a
  failed write to the cache file is no error of the copy) and fewer than the length
  asked for: a body that is at a clean end of file after 0 bytes is such a copy.
\<close>

theorem fetch_cleanup:
  assumes "ParseInt (q_len req) = Some n" and "q_relay req = []"
      and "elems (snd cl) (Endpoints (fst cl) (req_path req)) = []"
      and "q_source req \<noteq> []" and "QueryUnescape (q_source req) = Some src"
  shows "returned (HandlerFunc p cl e req w)
       \<and> (http_get e src = None \<or> create_fails e (localDir p @ req_path req) \<longrightarrow>
            count_list (emitted w (outcome (HandlerFunc p cl e req w)))
              (ended (fst cl) (req_path req)) = 0
          \<and> broadcasts (emitted w (outcome (HandlerFunc p cl e req w))) = []
          \<and> fs (outcome (HandlerFunc p cl e req w)) = fs w)
       \<and> (http_get e src = Some body \<and> \<not> create_fails e (localDir p @ req_path req) \<longrightarrow>
            count_list (emitted w (outcome (HandlerFunc p cl e req w)))
              (ended (fst cl) (req_path req)) = 1
          \<and> (copy_fails body \<longrightarrow>
               fs (outcome (HandlerFunc p cl e req w)) (localDir p @ req_path req) = None)
          \<and> (\<not> copy_fails body \<longrightarrow>
               fs (outcome (HandlerFunc p cl e req w)) (localDir p @ req_path req)
                 = Some (cached body)))"
proof -
  let ?w2 = "act (CallEndpoints (req_path req)) (setHeader ''Content-Length'' (q_len req) w)"
  let ?fp = "localDir p @ req_path req"
  let ?H = "HandlerFunc p cl e req w"
  have run: "?H = Returned (copyFromURL p (fst cl) e (req_path req) src ?w2)"
    using assms by (rule Handler_source)
  have r: "returned ?H" by (simp add: run)
  have a: "http_get e src = None \<or> create_fails e ?fp \<longrightarrow>
            count_list (emitted w (outcome ?H)) (ended (fst cl) (req_path req)) = 0
          \<and> broadcasts (emitted w (outcome ?H)) = []
          \<and> fs (outcome ?H) = fs w"
  proof
    assume d: "http_get e src = None \<or> create_fails e ?fp"
    obtain ys where ys: "trace (copyFromURL p (fst cl) e (req_path req) src ?w2) = trace ?w2 @ ys"
        "filter is_broadcast ys = []"
      using copyFromURL_no_broadcast [OF d] by blast
    have em: "emitted w (outcome ?H)
            = [SetHeader ''Content-Length'' (q_len req), CallEndpoints (req_path req)] @ ys"
      using ys(1) by (simp add: run)
    have nb: "\<forall>x \<in> set ys. \<not> is_broadcast x"
      using ys(2) by (simp add: filter_empty_conv)
    have "count_list ys (ended (fst cl) (req_path req)) = 0"
      using nb by (rule not_broadcast_count) simp
    then have 1: "count_list (emitted w (outcome ?H)) (ended (fst cl) (req_path req)) = 0"
      unfolding em by simp
    have 2: "broadcasts (emitted w (outcome ?H)) = []"
      unfolding em using ys(2) by (simp add: broadcasts_def)
    have 3: "fs (outcome ?H) = fs w"
      using copyFromURL_untouched(1) [OF d, of "fst cl" ?w2] by (simp add: run)
    from 1 2 3
    show "count_list (emitted w (outcome ?H)) (ended (fst cl) (req_path req)) = 0
          \<and> broadcasts (emitted w (outcome ?H)) = []
          \<and> fs (outcome ?H) = fs w"
      by (intro conjI)
  qed
  have b: "http_get e src = Some body \<and> \<not> create_fails e ?fp \<longrightarrow>
            count_list (emitted w (outcome ?H)) (ended (fst cl) (req_path req)) = 1
          \<and> (copy_fails body \<longrightarrow> fs (outcome ?H) ?fp = None)
          \<and> (\<not> copy_fails body \<longrightarrow> fs (outcome ?H) ?fp = Some (cached body))"
  proof
    assume "http_get e src = Some body \<and> \<not> create_fails e ?fp"
    then have g: "http_get e src = Some body" and c: "\<not> create_fails e ?fp" by simp_all
    obtain xs where xs: "trace (outcome ?H)
               = trace w @ [SetHeader ''Content-Length'' (q_len req), CallEndpoints (req_path req),
                   Log ''copy from url'', HttpGet src, Create ?fp,
                   started (fst cl) (req_path req)]
                 @ xs @ [ended (fst cl) (req_path req), BodyClose]"
             "\<forall>a \<in> set xs. \<not> is_broadcast a"
      using Handler_source_trace [OF assms g c] by blast
    have "count_list xs (ended (fst cl) (req_path req)) = 0"
      using xs(2) by (rule not_broadcast_count) simp
    then have 1: "count_list (emitted w (outcome ?H)) (ended (fst cl) (req_path req)) = 1"
      using xs(1) by simp
    have f: "fs (outcome ?H) ?fp = (if copy_fails body then None else Some (cached body))"
      using copyFromURL_file [OF g c] by (simp add: run)
    show "count_list (emitted w (outcome ?H)) (ended (fst cl) (req_path req)) = 1
          \<and> (copy_fails body \<longrightarrow> fs (outcome ?H) ?fp = None)
          \<and> (\<not> copy_fails body \<longrightarrow> fs (outcome ?H) ?fp = Some (cached body))"
      using 1 f by simp
  qed
  show ?thesis by (rule conjI [OF r conjI [OF a b]])
qed

lemma unescape_plain_urls:
  "QueryUnescape ''http://origin/zero'' = Some ''http://origin/zero''"
  "QueryUnescape ''http://origin/gone'' = Some ''http://origin/gone''"
  "QueryUnescape ''http://origin/abc'' = Some ''http://origin/abc''"
  "QueryUnescape ''http://nowhere/abc'' = Some ''http://nowhere/abc''"
  "QueryUnescape ''http://origin/eof0'' = Some ''http://origin/eof0''"
  "QueryUnescape ''http://origin/empty'' = Some ''http://origin/empty''"
  by simp_all

lemma req_zero_path:
  "ParseInt (q_len req_zero) = Some 10" "q_relay req_zero = []"
  "elems (snd cl0) (Endpoints (fst cl0) (req_path req_zero)) = []"
  "q_source req_zero \<noteq> []"
  "QueryUnescape (q_source req_zero) = Some ''http://origin/zero''"
  "http_get e0 ''http://origin/zero'' = Some [ck [] ReadErr]"
  "\<not> create_fails e0 (localDir p0 @ req_path req_zero)"
  "copy_fails [ck [] ReadErr]"
  by (simp_all add: req_zero_def parse_10 cl0_nodes e0_def p0_def ck_def)

lemma req_eof0_path:
  "ParseInt (q_len req_eof0) = Some 10" "q_relay req_eof0 = []"
  "elems (snd cl0) (Endpoints (fst cl0) (req_path req_eof0)) = []"
  "q_source req_eof0 \<noteq> []"
  "QueryUnescape (q_source req_eof0) = Some ''http://origin/eof0''"
  "http_get e0 ''http://origin/eof0'' = Some [ck [] EOF]"
  "\<not> create_fails e0 (localDir p0 @ req_path req_eof0)"
  "\<not> copy_fails [ck [] EOF]"
  "cached [ck [] EOF] = []"
  by (simp_all add: req_eof0_def parse_10 cl0_nodes e0_def p0_def ck_def)

lemma req_diskfull_path:
  "ParseInt (q_len req_diskfull) = Some 10" "q_relay req_diskfull = []"
  "elems (snd cl0) (Endpoints (fst cl0) (req_path req_diskfull)) = []"
  "q_source req_diskfull \<noteq> []"
  "QueryUnescape (q_source req_diskfull) = Some ''http://origin/diskfull''"
  "http_get e0 ''http://origin/diskfull''
     = Some [(ck ''hello'' NoErr)\<lparr>c_file := WriteFail 0\<rparr>, ck ''world'' NoErr]"
  "\<not> create_fails e0 (localDir p0 @ req_path req_diskfull)"
  "\<not> copy_fails [(ck ''hello'' NoErr)\<lparr>c_file := WriteFail 0\<rparr>, ck ''world'' NoErr]"
  "cached [(ck ''hello'' NoErr)\<lparr>c_file := WriteFail 0\<rparr>, ck ''world'' NoErr] = ''world''"
  "delivered [(ck ''hello'' NoErr)\<lparr>c_file := WriteFail 0\<rparr>, ck ''world'' NoErr]
     = ''helloworld''"
  by (simp_all add: req_diskfull_def parse_10 cl0_nodes e0_def p0_def ck_def taken_def
        failed_def)

lemma req_unreachable_source_path:
  "ParseInt (q_len req_nowhere) = Some 10" "q_relay req_nowhere = []"
  "elems (snd cl0) (Endpoints (fst cl0) (req_path req_nowhere)) = []"
  "q_source req_nowhere \<noteq> []"
  "QueryUnescape (q_source req_nowhere) = Some ''http://nowhere/abc''"
  "http_get e0 ''http://nowhere/abc'' = None"
  by (simp_all add: req_nowhere_def parse_10 cl0_nodes e0_def)

theorem fetch_cleanup_witness:
  "ParseInt (q_len req_zero) = Some 10 \<and> q_relay req_zero = []
   \<and> elems (snd cl0) (Endpoints (fst cl0) (req_path req_zero)) = []
   \<and> q_source req_zero \<noteq> []
   \<and> QueryUnescape (q_source req_zero) = Some ''http://origin/zero''
   \<and> http_get e0 ''http://origin/zero'' = Some [ck [] ReadErr]
   \<and> \<not> create_fails e0 (localDir p0 @ req_path req_zero)
   \<and> copy_fails [ck [] ReadErr]
   \<and> returned (HandlerFunc p0 cl0 e0 req_zero w0)
   \<and> count_list (emitted w0 (outcome (HandlerFunc p0 cl0 e0 req_zero w0)))
        (ended (fst cl0) (req_path req_zero)) = 1
   \<and> fs (outcome (HandlerFunc p0 cl0 e0 req_zero w0)) (localDir p0 @ req_path req_zero) = None
   \<and> http_get e0 ''http://origin/eof0'' = Some [ck [] EOF]
   \<and> \<not> copy_fails [ck [] EOF]
   \<and> count_list (emitted w0 (outcome (HandlerFunc p0 cl0 e0 req_eof0 w0)))
        (ended (fst cl0) (req_path req_eof0)) = 1
   \<and> fs (outcome (HandlerFunc p0 cl0 e0 req_eof0 w0)) (localDir p0 @ req_path req_eof0)
        = Some (cached [ck [] EOF])
   \<and> http_get e0 ''http://nowhere/abc'' = None
   \<and> returned (HandlerFunc p0 cl0 e0 req_nowhere w0)
   \<and> count_list (emitted w0 (outcome (HandlerFunc p0 cl0 e0 req_nowhere w0)))
        (ended (fst cl0) (req_path req_nowhere)) = 0
   \<and> fs (outcome (HandlerFunc p0 cl0 e0 req_nowhere w0)) = fs w0"
proof -
  note z = fetch_cleanup [OF req_zero_path(1-5),
              where e = e0 and body = "[ck [] ReadErr]" and p = p0 and w = w0]
  note zb = z [THEN conjunct2, THEN conjunct2, THEN mp, OF conjI [OF req_zero_path(6,7)]]
  note o = fetch_cleanup [OF req_eof0_path(1-5),
              where e = e0 and body = "[ck [] EOF]" and p = p0 and w = w0]
  note ob = o [THEN conjunct2, THEN conjunct2, THEN mp, OF conjI [OF req_eof0_path(6,7)]]
  note u = fetch_cleanup [OF req_unreachable_source_path(1-5),
              where e = e0 and p = p0 and w = w0]
  note ua = u [THEN conjunct2, THEN conjunct1, THEN mp, OF disjI1,
               OF req_unreachable_source_path(6)]
  show ?thesis
    using req_zero_path z [THEN conjunct1] zb [THEN conjunct1]
      zb [THEN conjunct2, THEN conjunct1, THEN mp, OF req_zero_path(8)]
      req_eof0_path(6,8) ob [THEN conjunct1]
      ob [THEN conjunct2, THEN conjunct2, THEN mp, OF req_eof0_path(8)]
      req_unreachable_source_path(6) u [THEN conjunct1] ua [THEN conjunct1]
      ua [THEN conjunct2, THEN conjunct2]
    by (intro conjI)
qed

text \<open>
  The claim as stated fails for an origin that closes its connection after sending 0
  bytes of the body when the client sees a clean end of file: the copy returns no error,
  nothing reaches the caller, who asked for 10 bytes, and the empty cache file is still
  there after the request.  It fails as well when the writes to the cache file fail: of
  the ten bytes the caller received, the file that stays holds five.
\<close>

theorem fetch_cleanup_counterexample:
  "http_get e0 ''http://origin/eof0'' = Some [ck [] EOF]
   \<and> returned (HandlerFunc p0 cl0 e0 req_eof0 w0)
   \<and> resp_body (resp (outcome (HandlerFunc p0 cl0 e0 req_eof0 w0))) = []
   \<and> fs (outcome (HandlerFunc p0 cl0 e0 req_eof0 w0)) ''/tmp/pull-agent/abc'' = Some []
   \<and> resp_body (resp (outcome (HandlerFunc p0 cl0 e0 req_diskfull w0))) = ''helloworld''
   \<and> fs (outcome (HandlerFunc p0 cl0 e0 req_diskfull w0)) ''/tmp/pull-agent/abc''
        = Some ''world''"
proof -
  have run: "HandlerFunc p0 cl0 e0 req_eof0 w0
     = Returned (copyFromURL p0 (fst cl0) e0 (req_path req_eof0) ''http://origin/eof0''
         (act (CallEndpoints (req_path req_eof0))
            (setHeader ''Content-Length'' (q_len req_eof0) w0)))"
    using req_eof0_path(1-5) by (rule Handler_source)
  have rund: "HandlerFunc p0 cl0 e0 req_diskfull w0
     = Returned (copyFromURL p0 (fst cl0) e0 (req_path req_diskfull) ''http://origin/diskfull''
         (act (CallEndpoints (req_path req_diskfull))
            (setHeader ''Content-Length'' (q_len req_diskfull) w0)))"
    using req_diskfull_path(1-5) by (rule Handler_source)
  have p: "localDir p0 @ req_path req_eof0 = ''/tmp/pull-agent/abc''"
      "localDir p0 @ req_path req_diskfull = ''/tmp/pull-agent/abc''"
    by (simp_all add: p0_def req_eof0_def req_diskfull_def)
  have b: "resp_body (resp w0) = []" by (simp add: w0_def response0_def)
  have 1: "resp_body (resp (outcome (HandlerFunc p0 cl0 e0 req_eof0 w0))) = []"
    unfolding run using copyFromURL_body [OF req_eof0_path(6,7), of "fst cl0"] b
    by (simp add: ck_def)
  have 2: "fs (outcome (HandlerFunc p0 cl0 e0 req_eof0 w0)) ''/tmp/pull-agent/abc'' = Some []"
    unfolding run using copyFromURL_file [OF req_eof0_path(6,7), of "fst cl0"] req_eof0_path(8,9)
    by (simp add: p)
  have 3: "returned (HandlerFunc p0 cl0 e0 req_eof0 w0)"
    unfolding run by simp
  have 4: "resp_body (resp (outcome (HandlerFunc p0 cl0 e0 req_diskfull w0))) = ''helloworld''"
    unfolding rund outcome.simps copyFromURL_body [OF req_diskfull_path(6,7)] req_diskfull_path(10)
    using b by simp
  have 5: "fs (outcome (HandlerFunc p0 cl0 e0 req_diskfull w0))
              (localDir p0 @ req_path req_diskfull) = Some ''world''"
    unfolding rund outcome.simps copyFromURL_file [OF req_diskfull_path(6,7)]
    using req_diskfull_path(8,9) by (simp only: if_False)
  note 5 = 5 [unfolded p(2)]
  show ?thesis using req_eof0_path(6) 3 1 2 4 5 by (intro conjI)
qed
section \<open>When the started event is broadcast\<close>

text \<open>
  C3 (as amended).  On the authoritative path (length parses, no relay flag, no endpoint
  known, a source that unescapes) the started event is broadcast only after the HTTP GET
  to the source has returned successfully and the cache file has been created: what the
  handler does before the broadcast is to set the header, ask the registry, log, send the
  GET and create the file, in this order, and nothing else.  So no read of the response
  body precedes the broadcast, and when the body is read at all (the body of a response
  without content never is) the first read follows it.  When the GET fails or the file
  cannot be created, nothing is broadcast.
\<close>

theorem started_follows_get_and_create:
  assumes "ParseInt (q_len req) = Some n" and "q_relay req = []"
      and "elems (snd cl) (Endpoints (fst cl) (req_path req)) = []"
      and "q_source req \<noteq> []" and "QueryUnescape (q_source req) = Some src"
  shows "(http_get e src = None \<or> create_fails e (localDir p @ req_path req) \<longrightarrow>
            broadcasts (emitted w (outcome (HandlerFunc p cl e req w))) = [])
       \<and> (http_get e src \<noteq> None \<and> \<not> create_fails e (localDir p @ req_path req) \<longrightarrow>
            before (HttpGet src) (started (fst cl) (req_path req))
              (emitted w (outcome (HandlerFunc p cl e req w)))
          \<and> before (Create (localDir p @ req_path req)) (started (fst cl) (req_path req))
              (emitted w (outcome (HandlerFunc p cl e req w)))
          \<and> takeWhile (\<lambda>a. a \<noteq> started (fst cl) (req_path req))
               (emitted w (outcome (HandlerFunc p cl e req w)))
              = [SetHeader ''Content-Length'' (q_len req), CallEndpoints (req_path req),
                 Log ''copy from url'', HttpGet src, Create (localDir p @ req_path req)]
          \<and> BodyRead \<notin> set (takeWhile (\<lambda>a. a \<noteq> started (fst cl) (req_path req))
                                (emitted w (outcome (HandlerFunc p cl e req w)))))
       \<and> (http_get e src = Some body \<and> body \<noteq> []
            \<and> \<not> create_fails e (localDir p @ req_path req) \<longrightarrow>
            before (started (fst cl) (req_path req)) BodyRead
              (emitted w (outcome (HandlerFunc p cl e req w))))"
proof (intro conjI impI)
  assume "http_get e src = None \<or> create_fails e (localDir p @ req_path req)"
  then consider (get) "http_get e src = None"
    | (create) body where "http_get e src = Some body" "create_fails e (localDir p @ req_path req)"
    by (cases "http_get e src") auto
  then show "broadcasts (emitted w (outcome (HandlerFunc p cl e req w))) = []"
  proof cases
    case get
    show ?thesis
      by (simp add: Handler_source_get_fails [OF assms get] broadcasts_def)
  next
    case create
    show ?thesis
      by (simp add: Handler_source_create_fails [OF assms create] broadcasts_def)
  qed
next
  assume ok: "http_get e src \<noteq> None \<and> \<not> create_fails e (localDir p @ req_path req)"
  then obtain body' where body: "http_get e src = Some body'" by auto
  from ok have nf: "\<not> create_fails e (localDir p @ req_path req)" by simp
  obtain xs where xs: "trace (outcome (HandlerFunc p cl e req w))
               = trace w @ [SetHeader ''Content-Length'' (q_len req), CallEndpoints (req_path req),
                   Log ''copy from url'', HttpGet src, Create (localDir p @ req_path req),
                   started (fst cl) (req_path req)]
                 @ xs @ [ended (fst cl) (req_path req), BodyClose]"
    using Handler_source_trace [OF assms body nf] by blast
  have em: "emitted w (outcome (HandlerFunc p cl e req w))
              = [SetHeader ''Content-Length'' (q_len req), CallEndpoints (req_path req),
                   Log ''copy from url'', HttpGet src, Create (localDir p @ req_path req),
                   started (fst cl) (req_path req)]
                 @ xs @ [ended (fst cl) (req_path req), BodyClose]"
    using xs by simp
  show "before (HttpGet src) (started (fst cl) (req_path req))
          (emitted w (outcome (HandlerFunc p cl e req w)))"
    unfolding em by (simp add: before_def first_index_def)
  show "before (Create (localDir p @ req_path req)) (started (fst cl) (req_path req))
          (emitted w (outcome (HandlerFunc p cl e req w)))"
    unfolding em by (simp add: before_def first_index_def)
  show pre: "takeWhile (\<lambda>a. a \<noteq> started (fst cl) (req_path req))
               (emitted w (outcome (HandlerFunc p cl e req w)))
              = [SetHeader ''Content-Length'' (q_len req), CallEndpoints (req_path req),
                 Log ''copy from url'', HttpGet src, Create (localDir p @ req_path req)]"
    unfolding em by simp
  show "BodyRead \<notin> set (takeWhile (\<lambda>a. a \<noteq> started (fst cl) (req_path req))
                                (emitted w (outcome (HandlerFunc p cl e req w))))"
    unfolding pre by simp
next
  assume a: "http_get e src = Some body \<and> body \<noteq> []
            \<and> \<not> create_fails e (localDir p @ req_path req)"
  then have body: "http_get e src = Some body" and ne: "body \<noteq> []"
    and nf: "\<not> create_fails e (localDir p @ req_path req)"
    by simp_all
  let ?w2 = "act (CallEndpoints (req_path req)) (setHeader ''Content-Length'' (q_len req) w)"
  obtain xs where xs: "trace (copyFromURL p (fst cl) e (req_path req) src ?w2)
               = trace ?w2 @ [Log ''copy from url'', HttpGet src, Create (localDir p @ req_path req),
                            started (fst cl) (req_path req), BodyRead] @ xs"
    using copyFromURL_trace_read [OF body nf ne] by blast
  have em: "emitted w (outcome (HandlerFunc p cl e req w))
              = [SetHeader ''Content-Length'' (q_len req), CallEndpoints (req_path req),
                   Log ''copy from url'', HttpGet src, Create (localDir p @ req_path req),
                   started (fst cl) (req_path req), BodyRead] @ xs"
    using xs by (simp add: Handler_source [OF assms])
  show "before (started (fst cl) (req_path req)) BodyRead
          (emitted w (outcome (HandlerFunc p cl e req w)))"
    unfolding em by (simp add: before_def first_index_def)
qed

lemma run_src:
  "HandlerFunc p0 cl0 e0 req_src w0
     = Returned (copyFromURL p0 (fst cl0) e0 ''/abc'' ''http://origin/abc''
         (act (CallEndpoints ''/abc'') (setHeader ''Content-Length'' ''10'' w0)))"
proof -
  have h1: "ParseInt (q_len req_src) = Some 10" by (simp add: req_src_def parse_10)
  have h2: "q_relay req_src = []" by (simp add: req_src_def)
  have h3: "elems (snd cl0) (Endpoints (fst cl0) (req_path req_src)) = []" by (rule cl0_nodes)
  have h4: "q_source req_src \<noteq> []" by (simp add: req_src_def)
  have h5: "QueryUnescape (q_source req_src) = Some ''http://origin/abc''"
    by (simp add: req_src_def ishex_def unhex_def char_of_def bit_Suc_0_iff)
  from Handler_source [OF h1 h2 h3 h4 h5] show ?thesis by (simp add: req_src_def)
qed

lemma run_src_trace:
  "trace (outcome (HandlerFunc p0 cl0 e0 req_src w0))
     = [SetHeader ''Content-Length'' ''10'', CallEndpoints ''/abc'', Log ''copy from url'',
        HttpGet ''http://origin/abc'', Create ''/tmp/pull-agent/abc'',
        started (fst cl0) ''/abc'',
        BodyRead, FileWrite ''/tmp/pull-agent/abc'' ''hello'', RespWrite ''hello'',
        BodyRead, FileWrite ''/tmp/pull-agent/abc'' ''world'', RespWrite ''world'',
        ended (fst cl0) ''/abc'', BodyClose]"
  unfolding run_src
  by (simp add: copyFromURL_def CopyBuffer_def e0_def p0_def w0_def ck_def Let_def taken_def failed_def)

text \<open>
  The claim as stated fails: in a fetch of \<^verbatim>\<open>/abc\<close> from the origin the GET comes
  first and the started event after it.
\<close>

theorem started_before_get_counterexample:
  "before (HttpGet ''http://origin/abc'') (started (fst cl0) ''/abc'')
     (trace (outcome (HandlerFunc p0 cl0 e0 req_src w0)))
   \<and> \<not> before (started (fst cl0) ''/abc'') (HttpGet ''http://origin/abc'')
       (trace (outcome (HandlerFunc p0 cl0 e0 req_src w0)))"
  by (simp add: run_src_trace before_def first_index_def)

lemma req_nowhere_path:
  "ParseInt (q_len req_nowhere) = Some 10" "q_relay req_nowhere = []"
  "elems (snd cl0) (Endpoints (fst cl0) (req_path req_nowhere)) = []"
  "q_source req_nowhere \<noteq> []"
  "QueryUnescape (q_source req_nowhere) = Some ''http://nowhere/abc''"
  "http_get e0 ''http://nowhere/abc'' = None"
  by (simp_all add: req_nowhere_def parse_10 cl0_nodes e0_def)

lemma req_src_path:
  "ParseInt (q_len req_src) = Some 10" "q_relay req_src = []"
  "elems (snd cl0) (Endpoints (fst cl0) (req_path req_src)) = []"
  "q_source req_src \<noteq> []"
  "QueryUnescape (q_source req_src) = Some ''http://origin/abc''"
  "http_get e0 ''http://origin/abc'' \<noteq> None
     \<and> \<not> create_fails e0 (localDir p0 @ req_path req_src)"
  "http_get e0 ''http://origin/abc'' = Some [ck ''hello'' NoErr, ck ''world'' EOF]
     \<and> [ck ''hello'' NoErr, ck ''world'' EOF] \<noteq> []
     \<and> \<not> create_fails e0 (localDir p0 @ req_path req_src)"
  by (simp_all add: req_src_def parse_10 cl0_nodes e0_def p0_def
        ishex_def unhex_def char_of_def bit_Suc_0_iff)

theorem started_follows_get_and_create_witness:
  "ParseInt (q_len req_src) = Some 10 \<and> q_relay req_src = []
   \<and> elems (snd cl0) (Endpoints (fst cl0) (req_path req_src)) = []
   \<and> q_source req_src \<noteq> []
   \<and> QueryUnescape (q_source req_src) = Some ''http://origin/abc''
   \<and> http_get e0 ''http://origin/abc'' = Some [ck ''hello'' NoErr, ck ''world'' EOF]
   \<and> \<not> create_fails e0 (localDir p0 @ req_path req_src)
   \<and> before (HttpGet ''http://origin/abc'') (started (fst cl0) (req_path req_src))
        (emitted w0 (outcome (HandlerFunc p0 cl0 e0 req_src w0)))
   \<and> before (Create (localDir p0 @ req_path req_src)) (started (fst cl0) (req_path req_src))
        (emitted w0 (outcome (HandlerFunc p0 cl0 e0 req_src w0)))
   \<and> BodyRead \<notin> set (takeWhile (\<lambda>a. a \<noteq> started (fst cl0) (req_path req_src))
                         (emitted w0 (outcome (HandlerFunc p0 cl0 e0 req_src w0))))
   \<and> before (started (fst cl0) (req_path req_src)) BodyRead
        (emitted w0 (outcome (HandlerFunc p0 cl0 e0 req_src w0)))
   \<and> ParseInt (q_len req_nowhere) = Some 10 \<and> q_relay req_nowhere = []
   \<and> elems (snd cl0) (Endpoints (fst cl0) (req_path req_nowhere)) = []
   \<and> q_source req_nowhere \<noteq> []
   \<and> QueryUnescape (q_source req_nowhere) = Some ''http://nowhere/abc''
   \<and> http_get e0 ''http://nowhere/abc'' = None
   \<and> broadcasts (emitted w0 (outcome (HandlerFunc p0 cl0 e0 req_nowhere w0))) = []"
proof -
  note t = started_follows_get_and_create [OF req_src_path(1-5),
             where e = e0 and p = p0 and w = w0
               and body = "[ck ''hello'' NoErr, ck ''world'' EOF]"]
  note t2 = t [THEN conjunct2, THEN conjunct1, THEN mp, OF req_src_path(6)]
  note t3 = t [THEN conjunct2, THEN conjunct2, THEN mp, OF req_src_path(7)]
  note u = started_follows_get_and_create [OF req_nowhere_path(1-5),
             where e = e0 and p = p0 and w = w0,
             THEN conjunct1, THEN mp, OF disjI1, OF req_nowhere_path(6)]
  show ?thesis
    using req_src_path(1-5) req_src_path(7) [THEN conjunct1]
      req_src_path(7) [THEN conjunct2, THEN conjunct2]
      t2 [THEN conjunct1] t2 [THEN conjunct2, THEN conjunct1]
      t2 [THEN conjunct2, THEN conjunct2, THEN conjunct2] t3
      req_nowhere_path u
    by (intro conjI)
qed

lemma empty_body_never_read:
  "http_get e0 ''http://origin/empty'' = Some []"
  "trace (copyFromURL p0 (fst cl0) e0 ''/abc'' ''http://origin/empty'' w0)
     = [Log ''copy from url'', HttpGet ''http://origin/empty'', Create ''/tmp/pull-agent/abc'',
        started (fst cl0) ''/abc'', ended (fst cl0) ''/abc'', BodyClose]"
  by (simp_all add: copyFromURL_def e0_def p0_def w0_def Let_def CopyBuffer_Nil)

section \<open>The length survives the relay URL\<close>

lemma ParseUint_snoc:
  "is_digit c \<Longrightarrow>
     ParseUint acc (xs @ [c]) = map_option (\<lambda>v. v * 10 + ((of_char c :: nat) - 48)) (ParseUint acc xs)"
  by (induction xs arbitrary: acc) simp_all

lemma digit_char:
  assumes "d < 10"
  shows "is_digit (char_of (48 + d))" and "(of_char (char_of (48 + d) :: char) :: nat) - 48 = d"
  using assms by (simp_all add: is_digit_def)

lemma ParseUint_show_nat: "ParseUint 0 (show_nat n) = Some n"
proof (induction n rule: show_nat.induct)
  case (1 n)
  show ?case
  proof (cases "n < 10")
    case True
    then show ?thesis
      by (subst show_nat.simps) (simp add: digit_char)
  next
    case False
    then have ih: "ParseUint 0 (show_nat (n div 10)) = Some (n div 10)"
      using "1.IH" by simp
    have d: "n mod 10 < 10" by simp
    have "ParseUint 0 (show_nat n)
            = ParseUint 0 (show_nat (n div 10) @ [char_of (48 + n mod 10)])"
      using False by (subst show_nat.simps) simp
    also have "\<dots> = Some (n div 10 * 10 + n mod 10)"
      by (simp only: ParseUint_snoc [OF digit_char(1) [OF d]] digit_char(2) [OF d] ih option.map)
    finally show ?thesis by simp
  qed
qed

lemma show_nat_head: "\<exists>c cs. show_nat n = c # cs \<and> is_digit c"
proof (induction n rule: show_nat.induct)
  case (1 n)
  show ?case
  proof (cases "n < 10")
    case True
    then show ?thesis by (subst show_nat.simps) (simp add: digit_char)
  next
    case False
    then obtain c cs where "show_nat (n div 10) = c # cs" "is_digit c"
      using "1.IH" by auto
    then show ?thesis using False by (subst show_nat.simps) simp
  qed
qed

lemma digit_not_sign: "is_digit c \<Longrightarrow> c \<noteq> CHR ''+'' \<and> c \<noteq> CHR ''-''"
  by (auto simp: is_digit_def)

lemma ParseInt_show_int:
  assumes "- (2 ^ 63) \<le> n" and "n < 2 ^ 63"
  shows "ParseInt (show_int n) = Some n"
proof (cases "n < 0")
  case True
  obtain c cs where cs: "show_nat (nat (- n)) = c # cs" using show_nat_head by blast
  have "nat (- n) \<le> 2 ^ 63" using assms(1) True by (simp add: nat_le_iff)
  then show ?thesis
    using True ParseUint_show_nat [of "nat (- n)"] cs
    by (simp add: ParseInt_def show_int_def)
next
  case False
  obtain c cs where cs: "show_nat (nat n) = c # cs" "is_digit c" using show_nat_head by blast
  have "\<not> 2 ^ 63 \<le> nat n" using assms(2) False by (simp add: nat_less_iff not_le)
  then show ?thesis
    using False ParseUint_show_nat [of "nat n"] cs digit_not_sign [OF cs(2)]
    by (simp add: ParseInt_def show_int_def)
qed

lemma ParseInt_range: "ParseInt s = Some n \<Longrightarrow> - (2 ^ 63) \<le> n \<and> n < 2 ^ 63"
  by (auto simp: ParseInt_def Let_def nat_less_iff split: list.splits option.splits if_splits)

lemma ParseInt_roundtrip: "ParseInt s = Some n \<Longrightarrow> ParseInt (show_int n) = Some n"
  using ParseInt_range ParseInt_show_int by blast

section \<open>Relaying through a peer\<close>

lemma copyFromURL_emits_get:
  "\<exists>ys. trace (copyFromURL p cl e path url w) = trace w @ ys \<and> HttpGet url \<in> set ys"
proof (cases "http_get e url")
  case None
  then show ?thesis by (simp add: copyFromURL_get_fails)
next
  case (Some body)
  show ?thesis
  proof (cases "create_fails e (localDir p @ path)")
    case True
    with Some show ?thesis by (simp add: copyFromURL_create_fails)
  next
    case False
    from copyFromURL_trace [OF Some False] obtain xs where
      "trace (copyFromURL p cl e path url w)
         = trace w @ [Log ''copy from url'', HttpGet url, Create (localDir p @ path),
                      started cl path] @ xs @ [ended cl path, BodyClose]"
      by blast
    then show ?thesis by simp
  qed
qed

text \<open>
  C1 (as amended).  For a request whose length parses, without the relay flag, for which
  \<open>Endpoints\<close> returns a non-empty list, the handler picks the entry at index
  \<^verbatim>\<open>rand.Intn(len(nodes))\<close>, builds the URL
  \<^verbatim>\<open>http://<node>:<port><path>?relay=true&len=<length>\<close> (the length printed there
  parses back to the same number) and runs \<open>copyFromURL\<close> on it, the routine the origin
  fetch uses; the GET goes to that URL.  When the GET fails the answer is 400, when the
  local cache file cannot be created it is 500, and in both cases nothing reaches the
  caller as body, no file changes and nothing is broadcast.  Otherwise the caller
  receives what the reads of the peer's body return, read by read, until a read returns
  an error or a write to the caller fails: the whole body when no write to the caller
  fails.  And the relaying node does write locally: it creates the cache file, which in
  the end holds the bytes it took or, when the copy returned an error, is removed again,
  and it broadcasts the started and the ended event, once each.
\<close>

theorem relay_through_peer:
  assumes "ParseInt (q_len req) = Some n" and "q_relay req = []"
      and "elems (snd cl) (Endpoints (fst cl) (req_path req)) = nodes" and "nodes \<noteq> []"
      and "node = nodes ! (intn e (length nodes) mod length nodes)"
      and "url = ''http://'' @ node @ '':'' @ show_int (port p) @ req_path req
                   @ ''?relay=true&len='' @ show_int n"
  shows "node \<in> set nodes \<and> ParseInt (show_int n) = Some n
       \<and> HandlerFunc p cl e req w
           = Returned (copyFromURL p (fst cl) e (req_path req) url
               (act (CallEndpoints (req_path req)) (setHeader ''Content-Length'' (q_len req) w)))
       \<and> HttpGet url \<in> set (emitted w (outcome (HandlerFunc p cl e req w)))
       \<and> (http_get e url = None \<longrightarrow>
            resp_body (resp (outcome (HandlerFunc p cl e req w))) = resp_body (resp w)
          \<and> fs (outcome (HandlerFunc p cl e req w)) = fs w
          \<and> broadcasts (emitted w (outcome (HandlerFunc p cl e req w))) = []
          \<and> (resp_status (resp w) = None \<longrightarrow>
               status_of (HandlerFunc p cl e req w) = Some 400))
       \<and> (http_get e url = Some body \<and> create_fails e (localDir p @ req_path req) \<longrightarrow>
            resp_body (resp (outcome (HandlerFunc p cl e req w))) = resp_body (resp w)
          \<and> fs (outcome (HandlerFunc p cl e req w)) = fs w
          \<and> broadcasts (emitted w (outcome (HandlerFunc p cl e req w))) = []
          \<and> (resp_status (resp w) = None \<longrightarrow>
               status_of (HandlerFunc p cl e req w) = Some 500))
       \<and> (http_get e url = Some body \<and> \<not> create_fails e (localDir p @ req_path req) \<longrightarrow>
            resp_body (resp (outcome (HandlerFunc p cl e req w)))
              = resp_body (resp w) @ delivered body
          \<and> ((\<forall>c \<in> set body. c_resp c = WriteAll) \<longrightarrow>
                resp_body (resp (outcome (HandlerFunc p cl e req w)))
                  = resp_body (resp w) @ body_bytes body)
          \<and> Create (localDir p @ req_path req)
               \<in> set (emitted w (outcome (HandlerFunc p cl e req w)))
          \<and> broadcasts (emitted w (outcome (HandlerFunc p cl e req w)))
              = [started (fst cl) (req_path req), ended (fst cl) (req_path req)]
          \<and> fs (outcome (HandlerFunc p cl e req w)) (localDir p @ req_path req)
              = (if copy_fails body then None else Some (cached body)))"
proof -
  let ?w2 = "act (CallEndpoints (req_path req)) (setHeader ''Content-Length'' (q_len req) w)"
  let ?fp = "localDir p @ req_path req"
  let ?H = "HandlerFunc p cl e req w"
  have u: "url = relay_url p node (req_path req) n"
    using assms(6) by (simp add: relay_url_def)
  have run: "?H = Returned (copyFromURL p (fst cl) e (req_path req) url ?w2)"
    using Handler_peer [OF assms(1-4)] u assms(5) by simp
  have mem: "node \<in> set nodes"
    using assms(4,5) by simp
  have len: "ParseInt (show_int n) = Some n"
    using assms(1) by (rule ParseInt_roundtrip)
  have w2: "resp_body (resp ?w2) = resp_body (resp w)" "fs ?w2 = fs w"
      "resp_status (resp ?w2) = resp_status (resp w)"
    by simp_all
  have get: "HttpGet url \<in> set (emitted w (outcome ?H))"
  proof -
    obtain ys where ys: "trace (copyFromURL p (fst cl) e (req_path req) url ?w2) = trace ?w2 @ ys"
        "HttpGet url \<in> set ys"
      using copyFromURL_emits_get by blast
    have "emitted w (outcome ?H)
            = [SetHeader ''Content-Length'' (q_len req), CallEndpoints (req_path req)] @ ys"
      using ys(1) by (simp add: run)
    with ys(2) show ?thesis by simp
  qed
  have quiet: "broadcasts (emitted w (outcome ?H)) = []"
    if d: "http_get e url = None \<or> create_fails e ?fp"
  proof -
    obtain ys where ys: "trace (copyFromURL p (fst cl) e (req_path req) url ?w2) = trace ?w2 @ ys"
        "filter is_broadcast ys = []"
      using copyFromURL_no_broadcast [OF d] by blast
    have "emitted w (outcome ?H)
            = [SetHeader ''Content-Length'' (q_len req), CallEndpoints (req_path req)] @ ys"
      using ys(1) by (simp add: run)
    with ys(2) show ?thesis by (simp add: broadcasts_def)
  qed
  have c5: "http_get e url = None \<longrightarrow>
            resp_body (resp (outcome ?H)) = resp_body (resp w)
          \<and> fs (outcome ?H) = fs w
          \<and> broadcasts (emitted w (outcome ?H)) = []
          \<and> (resp_status (resp w) = None \<longrightarrow> status_of ?H = Some 400)"
  proof
    assume g: "http_get e url = None"
    then have d: "http_get e url = None \<or> create_fails e ?fp" by simp
    have 1: "resp_body (resp (outcome ?H)) = resp_body (resp w)"
      using copyFromURL_untouched(2) [OF d, of "fst cl" ?w2] w2 by (simp add: run)
    have 2: "fs (outcome ?H) = fs w"
      using copyFromURL_untouched(1) [OF d, of "fst cl" ?w2] w2 by (simp add: run)
    have 3: "resp_status (resp w) = None \<longrightarrow> status_of ?H = Some 400"
      using copyFromURL_status(1) [OF _ g, of ?w2 p "fst cl" "req_path req"] w2
      by (simp add: run status_of_def)
    from 1 2 quiet [OF d] 3
    show "resp_body (resp (outcome ?H)) = resp_body (resp w)
          \<and> fs (outcome ?H) = fs w
          \<and> broadcasts (emitted w (outcome ?H)) = []
          \<and> (resp_status (resp w) = None \<longrightarrow> status_of ?H = Some 400)"
      by (intro conjI)
  qed
  have c6: "http_get e url = Some body \<and> create_fails e ?fp \<longrightarrow>
            resp_body (resp (outcome ?H)) = resp_body (resp w)
          \<and> fs (outcome ?H) = fs w
          \<and> broadcasts (emitted w (outcome ?H)) = []
          \<and> (resp_status (resp w) = None \<longrightarrow> status_of ?H = Some 500)"
  proof
    assume a: "http_get e url = Some body \<and> create_fails e ?fp"
    then have g: "http_get e url = Some body" and c: "create_fails e ?fp" by simp_all
    from c have d: "http_get e url = None \<or> create_fails e ?fp" by simp
    have 1: "resp_body (resp (outcome ?H)) = resp_body (resp w)"
      using copyFromURL_untouched(2) [OF d, of "fst cl" ?w2] w2 by (simp add: run)
    have 2: "fs (outcome ?H) = fs w"
      using copyFromURL_untouched(1) [OF d, of "fst cl" ?w2] w2 by (simp add: run)
    have 3: "resp_status (resp w) = None \<longrightarrow> status_of ?H = Some 500"
      using copyFromURL_status(2) [OF _ g c, of ?w2 "fst cl"] w2
      by (simp add: run status_of_def)
    from 1 2 quiet [OF d] 3
    show "resp_body (resp (outcome ?H)) = resp_body (resp w)
          \<and> fs (outcome ?H) = fs w
          \<and> broadcasts (emitted w (outcome ?H)) = []
          \<and> (resp_status (resp w) = None \<longrightarrow> status_of ?H = Some 500)"
      by (intro conjI)
  qed
  have c7: "http_get e url = Some body \<and> \<not> create_fails e ?fp \<longrightarrow>
            resp_body (resp (outcome ?H)) = resp_body (resp w) @ delivered body
          \<and> ((\<forall>c \<in> set body. c_resp c = WriteAll) \<longrightarrow>
                resp_body (resp (outcome ?H)) = resp_body (resp w) @ body_bytes body)
          \<and> Create ?fp \<in> set (emitted w (outcome ?H))
          \<and> broadcasts (emitted w (outcome ?H))
              = [started (fst cl) (req_path req), ended (fst cl) (req_path req)]
          \<and> fs (outcome ?H) ?fp = (if copy_fails body then None else Some (cached body))"
  proof
    assume a: "http_get e url = Some body \<and> \<not> create_fails e ?fp"
    then have g: "http_get e url = Some body" and c: "\<not> create_fails e ?fp" by simp_all
    from copyFromURL_trace [OF g c] obtain xs where xs:
      "trace (copyFromURL p (fst cl) e (req_path req) url ?w2)
         = trace ?w2 @ [Log ''copy from url'', HttpGet url, Create ?fp,
                      started (fst cl) (req_path req)] @ xs
             @ [ended (fst cl) (req_path req), BodyClose]"
      "\<forall>a \<in> set xs. \<not> is_broadcast a"
      by blast
    have em: "emitted w (outcome ?H)
                = [SetHeader ''Content-Length'' (q_len req), CallEndpoints (req_path req),
                   Log ''copy from url'', HttpGet url, Create ?fp,
                   started (fst cl) (req_path req)] @ xs
                  @ [ended (fst cl) (req_path req), BodyClose]"
      using xs(1) by (simp add: run)
    have f: "filter is_broadcast xs = []" using xs(2) by (simp add: filter_empty_conv)
    have 1: "resp_body (resp (outcome ?H)) = resp_body (resp w) @ delivered body"
      using copyFromURL_body [OF g c, of "fst cl" ?w2] w2 by (simp add: run)
    have 2: "(\<forall>c \<in> set body. c_resp c = WriteAll) \<longrightarrow>
                resp_body (resp (outcome ?H)) = resp_body (resp w) @ body_bytes body"
      using 1 delivered_whole [of body] by simp
    have 3: "Create ?fp \<in> set (emitted w (outcome ?H))"
      unfolding em by simp
    have 4: "broadcasts (emitted w (outcome ?H))
              = [started (fst cl) (req_path req), ended (fst cl) (req_path req)]"
      unfolding em using f by (simp add: broadcasts_def)
    have 5: "fs (outcome ?H) ?fp = (if copy_fails body then None else Some (cached body))"
      using copyFromURL_file [OF g c, of "fst cl" ?w2] by (simp add: run)
    from 1 2 3 4 5
    show "resp_body (resp (outcome ?H)) = resp_body (resp w) @ delivered body
          \<and> ((\<forall>c \<in> set body. c_resp c = WriteAll) \<longrightarrow>
                resp_body (resp (outcome ?H)) = resp_body (resp w) @ body_bytes body)
          \<and> Create ?fp \<in> set (emitted w (outcome ?H))
          \<and> broadcasts (emitted w (outcome ?H))
              = [started (fst cl) (req_path req), ended (fst cl) (req_path req)]
          \<and> fs (outcome ?H) ?fp = (if copy_fails body then None else Some (cached body))"
      by (intro conjI)
  qed
  show ?thesis
    by (rule conjI [OF mem conjI [OF len conjI [OF run conjI [OF get conjI [OF c5 conjI [OF c6 c7]]]]]])
qed

lemma req_peer_path:
  "ParseInt (q_len req_peer) = Some 10" "q_relay req_peer = []"
  "elems (snd cl1) (Endpoints (fst cl1) (req_path req_peer)) = [''10.0.0.1'']"
  "[''10.0.0.1''] \<noteq> ([] :: string list)"
  "''10.0.0.1'' = [''10.0.0.1''] ! (intn e0 (length [''10.0.0.1'']) mod length [''10.0.0.1''])"
  "''http://10.0.0.1:8080/abc?relay=true&len=10''
     = ''http://'' @ ''10.0.0.1'' @ '':'' @ show_int (port p0) @ req_path req_peer
         @ ''?relay=true&len='' @ show_int 10"
  "http_get e0 ''http://10.0.0.1:8080/abc?relay=true&len=10''
     = Some [ck ''01234'' NoErr, ck ''56789'' NoErr]
   \<and> \<not> create_fails e0 (localDir p0 @ req_path req_peer)"
  "\<forall>c \<in> set [ck ''01234'' NoErr, ck ''56789'' NoErr]. c_resp c = WriteAll"
  "body_bytes [ck ''01234'' NoErr, ck ''56789'' NoErr] = ''0123456789''"
  "cached [ck ''01234'' NoErr, ck ''56789'' NoErr] = ''0123456789''"
  "\<not> copy_fails [ck ''01234'' NoErr, ck ''56789'' NoErr]"
  by (simp_all add: req_peer_def parse_10 cl1_nodes e0_def p0_def show_int_def show_nat_values
        ck_def taken_def failed_def)

lemma cl_unreachable_nodes:
  "elems (snd cl_unreachable) (Endpoints (fst cl_unreachable) ''/abc'') = [''10.0.0.9'']"
  by (simp add: cl_unreachable_def cl0_def addNode_def New_def heap0_def empty_slice_def elems_def
        append_go_def grow2_def Endpoints_def Let_def)

lemma cl_locked_nodes:
  "elems (snd cl_locked) (Endpoints (fst cl_locked) ''/locked'') = [''10.0.0.1'']"
  by (simp add: cl_locked_def cl0_def addNode_def New_def heap0_def empty_slice_def elems_def
        append_go_def grow2_def Endpoints_def Let_def)

lemma req_unreachable_path:
  "elems (snd cl_unreachable) (Endpoints (fst cl_unreachable) (req_path req_peer)) = [''10.0.0.9'']"
  "[''10.0.0.9''] \<noteq> ([] :: string list)"
  "''10.0.0.9'' = [''10.0.0.9''] ! (intn e0 (length [''10.0.0.9'']) mod length [''10.0.0.9''])"
  "''http://10.0.0.9:8080/abc?relay=true&len=10''
     = ''http://'' @ ''10.0.0.9'' @ '':'' @ show_int (port p0) @ req_path req_peer
         @ ''?relay=true&len='' @ show_int 10"
  "http_get e0 ''http://10.0.0.9:8080/abc?relay=true&len=10'' = None"
  "resp_status (resp w0) = None"
  by (simp_all add: req_peer_def cl_unreachable_nodes e0_def p0_def show_int_def show_nat_values
        w0_def response0_def)

lemma req_peer_locked_path:
  "ParseInt (q_len req_peer_locked) = Some 10" "q_relay req_peer_locked = []"
  "elems (snd cl_locked) (Endpoints (fst cl_locked) (req_path req_peer_locked)) = [''10.0.0.1'']"
  "[''10.0.0.1''] \<noteq> ([] :: string list)"
  "''10.0.0.1'' = [''10.0.0.1''] ! (intn e0 (length [''10.0.0.1'']) mod length [''10.0.0.1''])"
  "''http://10.0.0.1:8080/locked?relay=true&len=10''
     = ''http://'' @ ''10.0.0.1'' @ '':'' @ show_int (port p0) @ req_path req_peer_locked
         @ ''?relay=true&len='' @ show_int 10"
  "http_get e0 ''http://10.0.0.1:8080/locked?relay=true&len=10''
     = Some [ck ''01234'' NoErr, ck ''56789'' NoErr]
   \<and> create_fails e0 (localDir p0 @ req_path req_peer_locked)"
  by (simp_all add: req_peer_locked_def parse_10 cl_locked_nodes e0_def p0_def show_int_def
        show_nat_values)

theorem relay_through_peer_witness:
  "ParseInt (q_len req_peer) = Some 10 \<and> q_relay req_peer = []
   \<and> elems (snd cl1) (Endpoints (fst cl1) (req_path req_peer)) = [''10.0.0.1'']
   \<and> http_get e0 ''http://10.0.0.1:8080/abc?relay=true&len=10''
        = Some [ck ''01234'' NoErr, ck ''56789'' NoErr]
   \<and> \<not> create_fails e0 (localDir p0 @ req_path req_peer)
   \<and> ParseInt (show_int 10) = Some 10
   \<and> HttpGet ''http://10.0.0.1:8080/abc?relay=true&len=10''
        \<in> set (emitted w0 (outcome (HandlerFunc p0 cl1 e0 req_peer w0)))
   \<and> resp_body (resp (outcome (HandlerFunc p0 cl1 e0 req_peer w0)))
        = resp_body (resp w0) @ body_bytes [ck ''01234'' NoErr, ck ''56789'' NoErr]
   \<and> Create (localDir p0 @ req_path req_peer)
        \<in> set (emitted w0 (outcome (HandlerFunc p0 cl1 e0 req_peer w0)))
   \<and> broadcasts (emitted w0 (outcome (HandlerFunc p0 cl1 e0 req_peer w0)))
        = [started (fst cl1) (req_path req_peer), ended (fst cl1) (req_path req_peer)]
   \<and> fs (outcome (HandlerFunc p0 cl1 e0 req_peer w0)) (localDir p0 @ req_path req_peer)
        = (if copy_fails [ck ''01234'' NoErr, ck ''56789'' NoErr] then None
           else Some (cached [ck ''01234'' NoErr, ck ''56789'' NoErr]))
   \<and> elems (snd cl_unreachable) (Endpoints (fst cl_unreachable) (req_path req_peer))
        = [''10.0.0.9'']
   \<and> http_get e0 ''http://10.0.0.9:8080/abc?relay=true&len=10'' = None
   \<and> resp_status (resp w0) = None
   \<and> resp_body (resp (outcome (HandlerFunc p0 cl_unreachable e0 req_peer w0)))
        = resp_body (resp w0)
   \<and> fs (outcome (HandlerFunc p0 cl_unreachable e0 req_peer w0)) = fs w0
   \<and> broadcasts (emitted w0 (outcome (HandlerFunc p0 cl_unreachable e0 req_peer w0))) = []
   \<and> status_of (HandlerFunc p0 cl_unreachable e0 req_peer w0) = Some 400
   \<and> elems (snd cl_locked) (Endpoints (fst cl_locked) (req_path req_peer_locked))
        = [''10.0.0.1'']
   \<and> create_fails e0 (localDir p0 @ req_path req_peer_locked)
   \<and> resp_body (resp (outcome (HandlerFunc p0 cl_locked e0 req_peer_locked w0)))
        = resp_body (resp w0)
   \<and> fs (outcome (HandlerFunc p0 cl_locked e0 req_peer_locked w0)) = fs w0
   \<and> broadcasts (emitted w0 (outcome (HandlerFunc p0 cl_locked e0 req_peer_locked w0))) = []
   \<and> status_of (HandlerFunc p0 cl_locked e0 req_peer_locked w0) = Some 500"
proof -
  note a = relay_through_peer [OF req_peer_path(1-6),
             where w = w0 and body = "[ck ''01234'' NoErr, ck ''56789'' NoErr]"]
  note a7 = a [THEN conjunct2, THEN conjunct2, THEN conjunct2, THEN conjunct2,
               THEN conjunct2, THEN conjunct2, THEN mp, OF req_peer_path(7)]
  note b = relay_through_peer [OF req_peer_path(1,2) req_unreachable_path(1-4), where w = w0]
  note b5 = b [THEN conjunct2, THEN conjunct2, THEN conjunct2, THEN conjunct2,
               THEN conjunct1, THEN mp, OF req_unreachable_path(5)]
  note c = relay_through_peer [OF req_peer_locked_path(1-6),
             where w = w0 and body = "[ck ''01234'' NoErr, ck ''56789'' NoErr]"]
  note c6 = c [THEN conjunct2, THEN conjunct2, THEN conjunct2, THEN conjunct2,
               THEN conjunct2, THEN conjunct1, THEN mp, OF req_peer_locked_path(7)]
  show ?thesis
    using req_peer_path(1-3) req_peer_path(7) [THEN conjunct1] req_peer_path(7) [THEN conjunct2]
      a [THEN conjunct2, THEN conjunct1]
      a [THEN conjunct2, THEN conjunct2, THEN conjunct2, THEN conjunct1]
      a7 [THEN conjunct2, THEN conjunct1, THEN mp, OF req_peer_path(8)]
      a7 [THEN conjunct2, THEN conjunct2, THEN conjunct1]
      a7 [THEN conjunct2, THEN conjunct2, THEN conjunct2, THEN conjunct1]
      a7 [THEN conjunct2, THEN conjunct2, THEN conjunct2, THEN conjunct2]
      req_unreachable_path(1,5,6)
      b5 [THEN conjunct1] b5 [THEN conjunct2, THEN conjunct1]
      b5 [THEN conjunct2, THEN conjunct2, THEN conjunct1]
      b5 [THEN conjunct2, THEN conjunct2, THEN conjunct2, THEN mp, OF req_unreachable_path(6)]
      req_peer_locked_path(3) req_peer_locked_path(7) [THEN conjunct2]
      c6 [THEN conjunct1] c6 [THEN conjunct2, THEN conjunct1]
      c6 [THEN conjunct2, THEN conjunct2, THEN conjunct1]
      c6 [THEN conjunct2, THEN conjunct2, THEN conjunct2, THEN mp, OF req_unreachable_path(6)]
    by (intro conjI)
qed

lemma run_peer:
  "HandlerFunc p0 cl1 e0 req_peer w0
     = Returned (copyFromURL p0 (fst cl1) e0 ''/abc'' ''http://10.0.0.1:8080/abc?relay=true&len=10''
         (act (CallEndpoints ''/abc'') (setHeader ''Content-Length'' ''10'' w0)))"
proof -
  have "intn e0 (length [''10.0.0.1'']) mod length [''10.0.0.1''] = 0" by simp
  with Handler_peer [OF req_peer_path(1-4), of p0 e0 w0] show ?thesis
    by (simp add: req_peer_def relay_url_10)
qed

lemma run_peer_trace:
  "trace (outcome (HandlerFunc p0 cl1 e0 req_peer w0))
     = [SetHeader ''Content-Length'' ''10'', CallEndpoints ''/abc'', Log ''copy from url'',
        HttpGet ''http://10.0.0.1:8080/abc?relay=true&len=10'', Create ''/tmp/pull-agent/abc'',
        started (fst cl1) ''/abc'',
        BodyRead, FileWrite ''/tmp/pull-agent/abc'' ''01234'', RespWrite ''01234'',
        BodyRead, FileWrite ''/tmp/pull-agent/abc'' ''56789'', RespWrite ''56789'', BodyRead,
        ended (fst cl1) ''/abc'', BodyClose]"
  unfolding run_peer
  by (simp add: copyFromURL_def CopyBuffer_def e0_def p0_def w0_def ck_def Let_def taken_def failed_def)

lemma run_peer_fs:
  "fs (outcome (HandlerFunc p0 cl1 e0 req_peer w0)) ''/tmp/pull-agent/abc'' = Some ''0123456789''"
  unfolding run_peer
  by (simp add: copyFromURL_def CopyBuffer_def e0_def p0_def w0_def ck_def Let_def taken_def failed_def
        fileWriter_Write_def respWrite_def fileWrite_def)

text \<open>
  The claim as stated fails: relaying \<^verbatim>\<open>/abc\<close> through \<^verbatim>\<open>10.0.0.1\<close>, the node
  creates and fills its own cache file, which did not exist before, and broadcasts both
  events.
\<close>

theorem relay_writes_nothing_counterexample:
  "fs w0 ''/tmp/pull-agent/abc'' = None
   \<and> fs (outcome (HandlerFunc p0 cl1 e0 req_peer w0)) ''/tmp/pull-agent/abc'' = Some ''0123456789''
   \<and> broadcasts (trace (outcome (HandlerFunc p0 cl1 e0 req_peer w0)))
        = [started (fst cl1) ''/abc'', ended (fst cl1) ''/abc'']"
proof -
  have "fs w0 ''/tmp/pull-agent/abc'' = None" by (simp add: w0_def)
  then show ?thesis by (simp add: run_peer_trace run_peer_fs broadcasts_def)
qed

section \<open>The two sinks of the copy\<close>












lemma diskfull_keeps_file:
  "fs (copyFromURL p0 (fst cl0) e0 ''/abc'' ''http://origin/diskfull'' w0) ''/tmp/pull-agent/abc''
     = Some ''world''"
  by (simp add: copyFromURL_def CopyBuffer_def e0_def p0_def w0_def ck_def Let_def taken_def failed_def
        fileWriter_Write_def respWrite_def fileWrite_def)




section \<open>The loop of copyFromFile\<close>

lemma wrap64_id: "- (2 ^ 63) \<le> x \<Longrightarrow> x < 2 ^ 63 \<Longrightarrow> wrap64 x = x"
  by (simp add: wrap64_def)

lemma taken_le: "taken r d \<le> length d"
  by (simp add: taken_def split: wres.splits)

lemma ReadAt_length:
  "0 \<le> off \<Longrightarrow> int (length (fst (ReadAt t off))) \<le> max 0 (int (length (t_file t)) - off)"
  by (auto simp: ReadAt_def Let_def split: option.splits)

lemma loop_here:
  "off = wrap64 (len - 1) \<Longrightarrow> copyFromFile_loop ts fp len off w = Returned (w, off)"
  by (cases ts) simp_all

lemma loop_exit_offset:
  "returned (copyFromFile_loop ts fp len off w)
     = (snd (outcome (copyFromFile_loop ts fp len off w)) = wrap64 (len - 1))"
proof (induction ts arbitrary: off w)
  case Nil
  show ?case by simp
next
  case (Cons t ts)
  show ?case
  proof (cases "off = wrap64 (len - 1)")
    case True
    then show ?thesis by (simp add: loop_here)
  next
    case False
    then show ?thesis using Cons.IH by (simp add: Let_def)
  qed
qed

lemma loop_step_offset:
  assumes "int (length (t_file t)) < len - 1" and "0 \<le> off" and "off < len - 1" and "len < 2 ^ 63"
  shows "0 \<le> wrap64 (off + int (taken r (fst (ReadAt t off))))"
    and "wrap64 (off + int (taken r (fst (ReadAt t off)))) < len - 1"
proof -
  let ?n = "int (taken r (fst (ReadAt t off)))"
  have "?n \<le> int (length (fst (ReadAt t off)))" using taken_le by simp
  also have "\<dots> \<le> max 0 (int (length (t_file t)) - off)" using assms(2) by (rule ReadAt_length)
  finally have n: "?n \<le> max 0 (int (length (t_file t)) - off)" .
  have lo: "0 \<le> off + ?n" using assms(2) by simp
  have hi: "off + ?n < len - 1" using n assms(1,3) by (simp add: max_def split: if_splits)
  have "wrap64 (off + ?n) = off + ?n"
    using lo hi assms(4) by (intro wrap64_id) simp_all
  with lo hi show "0 \<le> wrap64 (off + ?n)" and "wrap64 (off + ?n) < len - 1" by simp_all
qed

lemma loop_pending:
  assumes "\<forall>t \<in> set ts. int (length (t_file t)) < len - 1" and "len < 2 ^ 63"
      and "0 \<le> off" and "off < len - 1"
  shows "\<not> returned (copyFromFile_loop ts fp len off w)"
  using assms(1,3,4)
proof (induction ts arbitrary: off w)
  case Nil
  then have "off \<noteq> wrap64 (len - 1)" using assms(2) by (simp add: wrap64_id)
  then show ?case by simp
next
  case (Cons t ts)
  then have ne: "off \<noteq> wrap64 (len - 1)" using assms(2) by (simp add: wrap64_id)
  have t: "int (length (t_file t)) < len - 1" and rest: "\<forall>x \<in> set ts. int (length (t_file x)) < len - 1"
    using Cons.prems(1) by simp_all
  note st = loop_step_offset [OF t Cons.prems(2,3) assms(2)]
  show ?case
    using ne Cons.IH [OF rest st] by (simp add: Let_def)
qed

lemma ReadAt_short:
  "t_fault t = None \<Longrightarrow> 0 \<le> off \<Longrightarrow> length (t_file t) < bufsize \<Longrightarrow> snd (ReadAt t off) = EOF"
  by (simp add: ReadAt_def Let_def)

lemma loop_sleeps:
  assumes "\<forall>t \<in> set ts. int (length (t_file t)) < len - 1 \<and> t_fault t = None \<and> length (t_file t) < bufsize"
      and "len < 2 ^ 63" and "0 \<le> off" and "off < len - 1"
  shows "\<exists>xs. trace (fst (outcome (copyFromFile_loop ts fp len off w))) = trace w @ xs
             \<and> count_list xs (Sleep 300) = length ts"
  using assms(1,3,4)
proof (induction ts arbitrary: off w)
  case Nil
  show ?case by simp
next
  case (Cons t ts)
  then have ne: "off \<noteq> wrap64 (len - 1)" using assms(2) by (simp add: wrap64_id)
  have t: "int (length (t_file t)) < len - 1" "t_fault t = None" "length (t_file t) < bufsize"
    and rest: "\<forall>x \<in> set ts. int (length (t_file x)) < len - 1 \<and> t_fault x = None \<and> length (t_file x) < bufsize"
    using Cons.prems(1) by simp_all
  note st = loop_step_offset [OF t(1) Cons.prems(2,3) assms(2)]
  have eof: "snd (ReadAt t off) = EOF" using t(2) Cons.prems(2) t(3) by (rule ReadAt_short)
  have lt: "off < len" using Cons.prems(3) by simp
  let ?d = "fst (ReadAt t off)"
  let ?w2 = "act (Sleep 300) (act (FileReadAt fp off) w)"
  let ?wr = "respWrite ?d (t_resp t) ?w2"
  let ?w3 = "if snd (snd ?wr) then act (Log ''failed to write'') (fst ?wr) else fst ?wr"
  have step: "copyFromFile_loop (t # ts) fp len off w
                = copyFromFile_loop ts fp len (wrap64 (off + int (taken (t_resp t) ?d))) ?w3"
    using ne eof lt by (simp add: Let_def)
  obtain ys where ys: "trace ?w3 = trace w @ [FileReadAt fp off, Sleep 300, RespWrite ?d] @ ys"
      "count_list ys (Sleep 300) = 0"
    by (cases "failed (t_resp t)") simp_all
  obtain xs where xs:
      "trace (fst (outcome (copyFromFile_loop ts fp len (wrap64 (off + int (taken (t_resp t) ?d))) ?w3)))
         = trace ?w3 @ xs"
      "count_list xs (Sleep 300) = length ts"
    using Cons.IH [OF rest st] by blast
  have "trace (fst (outcome (copyFromFile_loop (t # ts) fp len off w)))
          = trace w @ ([FileReadAt fp off, Sleep 300, RespWrite ?d] @ ys @ xs)"
    using xs(1) ys(1) by (simp only: step) simp
  moreover have "count_list ([FileReadAt fp off, Sleep 300, RespWrite ?d] @ ys @ xs) (Sleep 300)
                   = length (t # ts)"
    using xs(2) ys(2) by simp
  ultimately show ?case by blast
qed


lemma copyFromFile_no_file:
  "fs w (localDir p @ path) = None \<Longrightarrow>
     copyFromFile p e path len w
       = Returned (writeHeader 500 (act (Log ''failed to open file'')
           (act (Open (localDir p @ path)) (act (Log ''copy from file'') w))))"
  by (simp add: copyFromFile_def Let_def)

lemma copyFromFile_open:
  assumes "fs w (localDir p @ path) \<noteq> None"
  shows "returned (copyFromFile p e path len w)
           = returned (copyFromFile_loop (ticks e) (localDir p @ path) len 0
               (act (Open (localDir p @ path)) (act (Log ''copy from file'') w)))"
    and "\<not> returned (copyFromFile p e path len w) \<Longrightarrow>
         outcome (copyFromFile p e path len w)
           = fst (outcome (copyFromFile_loop (ticks e) (localDir p @ path) len 0
               (act (Open (localDir p @ path)) (act (Log ''copy from file'') w))))"
    and "returned (copyFromFile p e path len w) \<Longrightarrow>
         outcome (copyFromFile p e path len w)
           = act (FileClose (localDir p @ path))
               (fst (outcome (copyFromFile_loop (ticks e) (localDir p @ path) len 0
                 (act (Open (localDir p @ path)) (act (Log ''copy from file'') w)))))"
  using assms by (auto simp: copyFromFile_def Let_def split: run.splits option.splits)

lemma wrap64_range: "- (2 ^ 63) \<le> wrap64 x" "wrap64 x < 2 ^ 63"
proof -
  have "0 \<le> (x + 2 ^ 63) mod (2 ^ 64 :: int)" by simp
  then show "- (2 ^ 63) \<le> wrap64 x" by (simp add: wrap64_def)
  have "(x + 2 ^ 63) mod (2 ^ 64 :: int) < 2 ^ 64" by simp
  then show "wrap64 x < 2 ^ 63" by (simp add: wrap64_def)
qed

lemma wrap64_idem: "wrap64 (wrap64 x) = wrap64 x"
  using wrap64_range [of x] by (intro wrap64_id)

lemma wrap64_add_left: "wrap64 (wrap64 a + b) = wrap64 (a + b)"
proof -
  have "(wrap64 a + b + 2 ^ 63) mod (2 ^ 64 :: int)
          = ((a + 2 ^ 63) mod 2 ^ 64 + b) mod 2 ^ 64"
    by (simp add: wrap64_def)
  also have "\<dots> = (a + 2 ^ 63 + b) mod 2 ^ 64"
    by (rule mod_add_left_eq)
  also have "\<dots> = (a + b + 2 ^ 63) mod 2 ^ 64"
    by (simp only: ac_simps)
  finally show ?thesis by (simp add: wrap64_def)
qed

text \<open>The offset counts, as an \<^verbatim>\<open>int64\<close>, the bytes sent to the caller.\<close>

lemma loop_offset_sent:
  "wrap64 (snd (outcome (copyFromFile_loop ts fp len off w)))
     = wrap64 (off + (int (length (resp_body (resp (fst (outcome (copyFromFile_loop ts fp len off w))))))
                       - int (length (resp_body (resp w)))))"
proof (induction ts arbitrary: off w)
  case Nil
  show ?case by simp
next
  case (Cons t ts)
  show ?case
  proof (cases "off = wrap64 (len - 1)")
    case True
    then show ?thesis by (simp add: loop_here)
  next
    case False
    let ?rd = "ReadAt t off"
    let ?w1 = "act (FileReadAt fp off) w"
    let ?w2 = "if snd ?rd = EOF then (if off < len then act (Sleep 300) ?w1 else ?w1)
               else if snd ?rd \<noteq> NoErr then act (Log ''failed to read from file'') ?w1 else ?w1"
    let ?wr = "respWrite (fst ?rd) (t_resp t) ?w2"
    let ?w3 = "if snd (snd ?wr) then act (Log ''failed to write'') (fst ?wr) else fst ?wr"
    let ?n = "taken (t_resp t) (fst ?rd)"
    let ?R = "copyFromFile_loop ts fp len (wrap64 (off + int ?n)) ?w3"
    have step: "copyFromFile_loop (t # ts) fp len off w = ?R"
      using False by (simp add: Let_def)
    have "resp_body (resp ?w3) = resp_body (resp w) @ take ?n (fst ?rd)"
      by simp
    then have b: "int (length (resp_body (resp ?w3))) = int (length (resp_body (resp w))) + int ?n"
      using taken_le [of "t_resp t" "fst ?rd"] by simp
    have "wrap64 (snd (outcome ?R))
            = wrap64 (wrap64 (off + int ?n)
                + (int (length (resp_body (resp (fst (outcome ?R)))))
                     - int (length (resp_body (resp ?w3)))))"
      by (rule Cons.IH)
    also have "\<dots> = wrap64 (off + int ?n
                + (int (length (resp_body (resp (fst (outcome ?R)))))
                     - int (length (resp_body (resp ?w3)))))"
      by (rule wrap64_add_left)
    also have "\<dots> = wrap64 (off + (int (length (resp_body (resp (fst (outcome ?R)))))
                                   - int (length (resp_body (resp w)))))"
      unfolding b by (simp add: algebra_simps)
    finally show ?thesis by (simp only: step)
  qed
qed

lemma loop_offset_int64:
  "wrap64 off = off \<Longrightarrow>
     wrap64 (snd (outcome (copyFromFile_loop ts fp len off w)))
       = snd (outcome (copyFromFile_loop ts fp len off w))"
proof (induction ts arbitrary: off w)
  case Nil
  then show ?case by (simp add: wrap64_idem)
next
  case (Cons t ts)
  show ?case
  proof (cases "off = wrap64 (len - 1)")
    case True
    then show ?thesis by (simp add: loop_here wrap64_idem)
  next
    case False
    then show ?thesis using Cons.IH [OF wrap64_idem] by (simp add: Let_def)
  qed
qed

lemma copyFromFile_body:
  assumes "fs w (localDir p @ path) \<noteq> None"
  shows "resp_body (resp (outcome (copyFromFile p e path len w)))
           = resp_body (resp (fst (outcome (copyFromFile_loop (ticks e) (localDir p @ path) len 0
               (act (Open (localDir p @ path)) (act (Log ''copy from file'') w))))))"
  using assms by (auto simp: copyFromFile_def Let_def split: run.splits option.splits)

lemma copyFromFile_exit:
  assumes "fs w (localDir p @ path) \<noteq> None"
  shows "returned (copyFromFile p e path len w)
           = (wrap64 (int (length (resp_body (resp (outcome (copyFromFile p e path len w)))))
                        - int (length (resp_body (resp w))))
              = wrap64 (len - 1))"
proof -
  let ?w1 = "act (Open (localDir p @ path)) (act (Log ''copy from file'') w)"
  let ?L = "copyFromFile_loop (ticks e) (localDir p @ path) len 0 ?w1"
  have "wrap64 (snd (outcome ?L)) = snd (outcome ?L)"
    by (rule loop_offset_int64) (simp add: wrap64_def)
  then have "snd (outcome ?L)
          = wrap64 (0 + (int (length (resp_body (resp (fst (outcome ?L)))))
                          - int (length (resp_body (resp ?w1)))))"
    using loop_offset_sent [of "ticks e" "localDir p @ path" len 0 ?w1] by simp
  then have "snd (outcome ?L)
          = wrap64 (int (length (resp_body (resp (outcome (copyFromFile p e path len w)))))
                      - int (length (resp_body (resp w))))"
    by (simp add: copyFromFile_body [OF assms])
  then show ?thesis
    using loop_exit_offset [of "ticks e" "localDir p @ path" len 0 ?w1]
    by (simp add: copyFromFile_open(1) [OF assms])
qed

text \<open>What a healthy reader of a growing file has sent after its passes.\<close>

lemma take_eq_length: "take (length f) x = f \<Longrightarrow> length f \<le> length x"
  by (metis length_take min.cobounded1)

lemma drop_take_cat: "m \<le> n \<Longrightarrow> drop m (take n xs) @ drop n xs = drop m xs"
  by (induction xs arbitrary: m n) (auto simp: take_Cons drop_Cons split: nat.splits)

lemma grows_last:
  "grows f ts \<Longrightarrow> ts \<noteq> [] \<Longrightarrow> take (length f) (t_file (last ts)) = f"
proof (induction ts arbitrary: f)
  case Nil
  then show ?case by simp
next
  case (Cons t ts)
  show ?case
  proof (cases "ts = []")
    case True
    then show ?thesis using Cons.prems by simp
  next
    case False
    have a: "take (length f) (t_file t) = f" and g: "grows (t_file t) ts"
      using Cons.prems by simp_all
    have b: "take (length (t_file t)) (t_file (last ts)) = t_file t"
      using Cons.IH [OF g False] .
    have le: "length f \<le> length (t_file t)"
      using a by (rule take_eq_length)
    have "take (length f) (t_file (last ts))
            = take (length f) (take (length (t_file t)) (t_file (last ts)))"
      using le by (simp add: min_def)
    also have "\<dots> = f" using a b by simp
    finally show ?thesis using False by simp
  qed
qed

lemma loop_delivers:
  assumes "\<forall>t \<in> set ts. t_fault t = None \<and> t_resp t = WriteAll \<and> length (t_file t) < bufsize"
      and "\<forall>t \<in> set (butlast ts). int (length (t_file t)) < len - 1"
      and "grows f ts" and "ts \<noteq> []"
      and "off = int (length f)" and "off \<noteq> len - 1" and "1 < len" and "len < 2 ^ 63"
  shows "resp_body (resp (fst (outcome (copyFromFile_loop ts fp len off w))))
           = resp_body (resp w) @ drop (length f) (t_file (last ts))
       \<and> snd (outcome (copyFromFile_loop ts fp len off w)) = int (length (t_file (last ts)))"
  using assms(1-6)
proof (induction ts arbitrary: f off w)
  case Nil
  then show ?case by simp
next
  case (Cons t ts)
  have wl: "wrap64 (len - 1) = len - 1"
    using assms(7,8) by (intro wrap64_id) simp_all
  have ne: "off \<noteq> wrap64 (len - 1)" using Cons.prems(6) wl by simp
  have t: "t_fault t = None" "t_resp t = WriteAll" "length (t_file t) < bufsize"
    using Cons.prems(1) by simp_all
  have a: "take (length f) (t_file t) = f" and g: "grows (t_file t) ts"
    using Cons.prems(3) by simp_all
  have le: "length f \<le> length (t_file t)"
    using a by (rule take_eq_length)
  have off: "0 \<le> off" "nat off = length f" using Cons.prems(5) by simp_all
  have rd: "ReadAt t off = (drop (length f) (t_file t), EOF)"
    using t(1,3) off by (simp add: ReadAt_def Let_def)
  let ?d = "drop (length f) (t_file t)"
  let ?w1 = "act (FileReadAt fp off) w"
  let ?w2 = "if off < len then act (Sleep 300) ?w1 else ?w1"
  let ?w3 = "fst (respWrite ?d WriteAll ?w2)"
  have bs: "(2 ^ 63 :: int) > int bufsize" by (simp add: bufsize_def)
  have n: "off + int (length ?d) = int (length (t_file t))"
    using le Cons.prems(5) by simp
  have wn: "wrap64 (off + int (length ?d)) = int (length (t_file t))"
    unfolding n using t(3) bs by (intro wrap64_id) simp_all
  have step: "copyFromFile_loop (t # ts) fp len off w
                = copyFromFile_loop ts fp len (int (length (t_file t))) ?w3"
    using ne rd t(2) wn by (simp add: Let_def taken_def failed_def)
  have body3: "resp_body (resp ?w3) = resp_body (resp w) @ ?d"
    by (simp add: taken_def)
  show ?case
  proof (cases "ts = []")
    case True
    then show ?thesis using step body3 by simp
  next
    case False
    have h: "\<forall>x \<in> set ts. t_fault x = None \<and> t_resp x = WriteAll \<and> length (t_file x) < bufsize"
      using Cons.prems(1) by simp
    have bl: "\<forall>x \<in> set (butlast ts). int (length (t_file x)) < len - 1"
      and tl: "int (length (t_file t)) < len - 1"
      using Cons.prems(2) False by simp_all
    have ne': "int (length (t_file t)) \<noteq> len - 1" using tl by simp
    note ih = Cons.IH [OF h bl g False refl ne', of ?w3]
    have pre: "take (length (t_file t)) (t_file (last ts)) = t_file t"
      using g False by (rule grows_last)
    have "?d @ drop (length (t_file t)) (t_file (last ts))
            = drop (length f) (take (length (t_file t)) (t_file (last ts)))
                @ drop (length (t_file t)) (t_file (last ts))"
      by (simp only: pre)
    also have "\<dots> = drop (length f) (t_file (last ts))"
      using le by (rule drop_take_cat)
    finally have cat: "?d @ drop (length (t_file t)) (t_file (last ts))
                         = drop (length f) (t_file (last ts))" .
    show ?thesis
      using ih body3 cat False by (simp only: step) simp
  qed
qed

lemma copyFromFile_delivers:
  assumes "fs w (localDir p @ path) \<noteq> None" and "1 < len" and "len < 2 ^ 63"
      and "ticks e \<noteq> []" and "grows [] (ticks e)"
      and "\<forall>t \<in> set (ticks e). t_fault t = None \<and> t_resp t = WriteAll
             \<and> length (t_file t) < bufsize"
      and "\<forall>t \<in> set (butlast (ticks e)). int (length (t_file t)) < len - 1"
  shows "resp_body (resp (outcome (copyFromFile p e path len w)))
           = resp_body (resp w) @ t_file (last (ticks e))"
    and "returned (copyFromFile p e path len w) = (int (length (t_file (last (ticks e)))) = len - 1)"
proof -
  let ?w1 = "act (Open (localDir p @ path)) (act (Log ''copy from file'') w)"
  let ?L = "copyFromFile_loop (ticks e) (localDir p @ path) len 0 ?w1"
  have wl: "wrap64 (len - 1) = len - 1"
    using assms(2,3) by (intro wrap64_id) simp_all
  have z: "(0::int) = int (length ([] :: string))" "(0::int) \<noteq> len - 1"
    using assms(2) by simp_all
  note d = loop_delivers [OF assms(6,7,5,4) z assms(2,3), of "localDir p @ path" ?w1]
  show "resp_body (resp (outcome (copyFromFile p e path len w)))
           = resp_body (resp w) @ t_file (last (ticks e))"
    using d [THEN conjunct1] by (simp add: copyFromFile_body [OF assms(1)])
  show "returned (copyFromFile p e path len w) = (int (length (t_file (last (ticks e)))) = len - 1)"
    using d [THEN conjunct2] loop_exit_offset [of "ticks e" "localDir p @ path" len 0 ?w1] wl
    by (simp add: copyFromFile_open(1) [OF assms(1)])
qed

text \<open>
  C8.  The loop of \<open>copyFromFile\<close> stops exactly when the running offset equals
  \<^verbatim>\<open>length - 1\<close> (the \<^verbatim>\<open>int64\<close> value, which is \<open>len - 1\<close> itself for every length
  but the smallest \<^verbatim>\<open>int64\<close>).  So as long as the file holds fewer than
  \<open>len - 1\<close> bytes at every pass (for an expected length of 10: fewer than 9, for
  instance the 5 bytes present at the start), the reader has not returned, however many
  passes it made; and with a healthy file smaller than the read buffer every one of these
  passes hit end-of-file and slept 300 ms before going on at its offset.

  For \<open>copyFromFile\<close> itself, on a file that can be opened: the offset is the number of
  bytes sent to the caller, counted as an \<^verbatim>\<open>int64\<close>, so the reader has returned exactly
  when that number equals \<^verbatim>\<open>length - 1\<close>; with 10 bytes sent for a length of 10 it has
  not.  And the reader does read and deliver: when the file only grows, stays smaller than
  the read buffer, is read without fault, the caller takes every write, and every pass
  but the last found fewer than \<open>len - 1\<close> bytes, then the caller has received exactly
  the file as the last pass found it, and the reader has returned exactly when that is
  \<open>len - 1\<close> bytes.
\<close>

theorem partial_read_boundary:
  "(returned (copyFromFile_loop ts fp len off w)
      = (snd (outcome (copyFromFile_loop ts fp len off w)) = wrap64 (len - 1)))
   \<and> (- (2 ^ 63) < len \<and> len < 2 ^ 63 \<longrightarrow> wrap64 (len - 1) = len - 1)
   \<and> (fs w (localDir p @ path) \<noteq> None \<and> 1 < len \<and> len < 2 ^ 63
        \<and> (\<forall>t \<in> set (ticks e). int (length (t_file t)) < len - 1) \<longrightarrow>
      \<not> returned (copyFromFile p e path len w))
   \<and> (fs w (localDir p @ path) \<noteq> None \<and> 1 < len \<and> len < 2 ^ 63
        \<and> (\<forall>t \<in> set (ticks e). int (length (t_file t)) < len - 1 \<and> t_fault t = None
               \<and> length (t_file t) < bufsize) \<longrightarrow>
      count_list (emitted w (outcome (copyFromFile p e path len w))) (Sleep 300)
        = length (ticks e))
   \<and> (fs w (localDir p @ path) \<noteq> None \<longrightarrow>
      returned (copyFromFile p e path len w)
        = (wrap64 (int (length (resp_body (resp (outcome (copyFromFile p e path len w)))))
                     - int (length (resp_body (resp w))))
           = wrap64 (len - 1)))
   \<and> (fs w (localDir p @ path) \<noteq> None \<and> 1 < len \<and> len < 2 ^ 63
        \<and> ticks e \<noteq> [] \<and> grows [] (ticks e)
        \<and> (\<forall>t \<in> set (ticks e). t_fault t = None \<and> t_resp t = WriteAll
               \<and> length (t_file t) < bufsize)
        \<and> (\<forall>t \<in> set (butlast (ticks e)). int (length (t_file t)) < len - 1) \<longrightarrow>
      resp_body (resp (outcome (copyFromFile p e path len w)))
        = resp_body (resp w) @ t_file (last (ticks e))
      \<and> returned (copyFromFile p e path len w)
          = (int (length (t_file (last (ticks e)))) = len - 1))"
proof (intro conjI impI)
  show "returned (copyFromFile_loop ts fp len off w)
      = (snd (outcome (copyFromFile_loop ts fp len off w)) = wrap64 (len - 1))"
    by (rule loop_exit_offset)
next
  assume "- (2 ^ 63) < len \<and> len < 2 ^ 63"
  then show "wrap64 (len - 1) = len - 1" by (intro wrap64_id) simp_all
next
  assume a: "fs w (localDir p @ path) \<noteq> None \<and> 1 < len \<and> len < 2 ^ 63
        \<and> (\<forall>t \<in> set (ticks e). int (length (t_file t)) < len - 1)"
  then have f: "fs w (localDir p @ path) \<noteq> None" and l: "len < 2 ^ 63" and o: "0 < len - 1"
    and ts: "\<forall>t \<in> set (ticks e). int (length (t_file t)) < len - 1"
    by simp_all
  show "\<not> returned (copyFromFile p e path len w)"
    using loop_pending [OF ts l _ o] by (simp add: copyFromFile_open(1) [OF f])
next
  assume a: "fs w (localDir p @ path) \<noteq> None \<and> 1 < len \<and> len < 2 ^ 63
        \<and> (\<forall>t \<in> set (ticks e). int (length (t_file t)) < len - 1 \<and> t_fault t = None
               \<and> length (t_file t) < bufsize)"
  then have f: "fs w (localDir p @ path) \<noteq> None" and l: "len < 2 ^ 63" and o: "0 < len - 1"
    and ts: "\<forall>t \<in> set (ticks e). int (length (t_file t)) < len - 1 \<and> t_fault t = None
               \<and> length (t_file t) < bufsize"
    by simp_all
  let ?w1 = "act (Open (localDir p @ path)) (act (Log ''copy from file'') w)"
  from ts have ts': "\<forall>t \<in> set (ticks e). int (length (t_file t)) < len - 1" by simp
  have nr: "\<not> returned (copyFromFile p e path len w)"
    using loop_pending [OF ts' l _ o] by (simp add: copyFromFile_open(1) [OF f])
  obtain xs where xs:
      "trace (fst (outcome (copyFromFile_loop (ticks e) (localDir p @ path) len 0 ?w1)))
         = trace ?w1 @ xs"
      "count_list xs (Sleep 300) = length (ticks e)"
    using loop_sleeps [OF ts l _ o, of "localDir p @ path" ?w1] by auto
  have "trace (outcome (copyFromFile p e path len w))
          = trace w @ ([Log ''copy from file'', Open (localDir p @ path)] @ xs)"
    using xs(1) by (simp add: copyFromFile_open(2) [OF f nr])
  then have "emitted w (outcome (copyFromFile p e path len w))
               = [Log ''copy from file'', Open (localDir p @ path)] @ xs"
    by (rule emitted_append)
  then show "count_list (emitted w (outcome (copyFromFile p e path len w))) (Sleep 300)
               = length (ticks e)"
    using xs(2) by simp
next
  assume "fs w (localDir p @ path) \<noteq> None"
  then show "returned (copyFromFile p e path len w)
        = (wrap64 (int (length (resp_body (resp (outcome (copyFromFile p e path len w)))))
                     - int (length (resp_body (resp w))))
           = wrap64 (len - 1))"
    by (rule copyFromFile_exit)
next
  assume a: "fs w (localDir p @ path) \<noteq> None \<and> 1 < len \<and> len < 2 ^ 63
        \<and> ticks e \<noteq> [] \<and> grows [] (ticks e)
        \<and> (\<forall>t \<in> set (ticks e). t_fault t = None \<and> t_resp t = WriteAll
               \<and> length (t_file t) < bufsize)
        \<and> (\<forall>t \<in> set (butlast (ticks e)). int (length (t_file t)) < len - 1)"
  then have h: "fs w (localDir p @ path) \<noteq> None" "1 < len" "len < 2 ^ 63"
      "ticks e \<noteq> []" "grows [] (ticks e)"
      "\<forall>t \<in> set (ticks e). t_fault t = None \<and> t_resp t = WriteAll \<and> length (t_file t) < bufsize"
      "\<forall>t \<in> set (butlast (ticks e)). int (length (t_file t)) < len - 1"
    by simp_all
  show "resp_body (resp (outcome (copyFromFile p e path len w)))
        = resp_body (resp w) @ t_file (last (ticks e))"
    using h by (rule copyFromFile_delivers(1))
  show "returned (copyFromFile p e path len w)
          = (int (length (t_file (last (ticks e)))) = len - 1)"
    using h by (rule copyFromFile_delivers(2))
qed

lemma poll_then_exit:
  "copyFromFile_loop [tk ''01234'', tk ''01234'', tk ''012345678''] ''f'' 10 0 w0
     = Returned (w0\<lparr>resp := \<lparr>resp_status = Some 200, resp_headers = [], resp_body = ''012345678''\<rparr>,
                    trace := [FileReadAt ''f'' 0, Sleep 300, RespWrite ''01234'',
                              FileReadAt ''f'' 5, Sleep 300, RespWrite [],
                              FileReadAt ''f'' 5, Sleep 300, RespWrite ''5678'']\<rparr>, 9)"
  by (simp add: ReadAt_def tk_def bufsize_def wrap64_def taken_def failed_def Let_def
        respWrite_def act_def w0_def response0_def)

lemma complete_file_never_exits:
  "copyFromFile_loop [tk ''01234'', tk ''0123456789'', tk ''0123456789''] ''f'' 10 0 w0
     = Pending (w0\<lparr>resp := \<lparr>resp_status = Some 200, resp_headers = [], resp_body = ''0123456789''\<rparr>,
                    trace := [FileReadAt ''f'' 0, Sleep 300, RespWrite ''01234'',
                              FileReadAt ''f'' 5, Sleep 300, RespWrite ''56789'',
                              FileReadAt ''f'' 10, RespWrite []]\<rparr>, 10)"
  by (simp add: ReadAt_def tk_def bufsize_def wrap64_def taken_def failed_def Let_def
        respWrite_def act_def w0_def response0_def)

lemma polling_path:
  "fs w_cached (localDir p0 @ ''/abc'') \<noteq> None" "(1::int) < 10" "(10::int) < 2 ^ 63"
  "- (2 ^ 63) < (10::int)"
  "\<forall>t \<in> set (ticks e_polling). int (length (t_file t)) < 10 - 1 \<and> t_fault t = None
       \<and> length (t_file t) < bufsize"
  "length (ticks e_polling) = 3"
  by (simp_all add: w_cached_def p0_def e_polling_def tk_def bufsize_def)

lemma growing_path:
  "ticks e_grown \<noteq> [] \<and> grows [] (ticks e_grown)"
  "\<forall>t \<in> set (ticks e_grown). t_fault t = None \<and> t_resp t = WriteAll
       \<and> length (t_file t) < bufsize"
  "\<forall>t \<in> set (butlast (ticks e_grown)). int (length (t_file t)) < 10 - 1"
  "t_file (last (ticks e_grown)) = ''012345678''"
  "ticks e_complete \<noteq> [] \<and> grows [] (ticks e_complete)"
  "\<forall>t \<in> set (ticks e_complete). t_fault t = None \<and> t_resp t = WriteAll
       \<and> length (t_file t) < bufsize"
  "\<forall>t \<in> set (butlast (ticks e_complete)). int (length (t_file t)) < 10 - 1"
  "t_file (last (ticks e_complete)) = ''0123456789''"
  "resp_body (resp w_cached) = []"
  "wrap64 (10 - 1) = 9" "wrap64 10 = 10"
  by (simp_all add: e_grown_def e_complete_def tk_def bufsize_def w_cached_def w0_def
        response0_def wrap64_def)

theorem partial_read_boundary_witness:
  "fs w_cached (localDir p0 @ ''/abc'') \<noteq> None \<and> (1::int) < 10 \<and> (10::int) < 2 ^ 63
   \<and> \<not> returned (copyFromFile p0 e_polling ''/abc'' 10 w_cached)
   \<and> count_list (emitted w_cached (outcome (copyFromFile p0 e_polling ''/abc'' 10 w_cached)))
        (Sleep 300) = 3
   \<and> wrap64 (10 - 1) = 10 - 1
   \<and> returned (copyFromFile_loop [tk ''01234'', tk ''01234'', tk ''012345678''] ''f'' 10 0 w0)
   \<and> snd (outcome (copyFromFile_loop [tk ''01234'', tk ''01234'', tk ''012345678''] ''f'' 10 0 w0))
        = wrap64 (10 - 1)
   \<and> ticks e_grown \<noteq> [] \<and> grows [] (ticks e_grown)
   \<and> resp_body (resp (outcome (copyFromFile p0 e_grown ''/abc'' 10 w_cached))) = ''012345678''
   \<and> returned (copyFromFile p0 e_grown ''/abc'' 10 w_cached)
   \<and> ticks e_complete \<noteq> [] \<and> grows [] (ticks e_complete)
   \<and> resp_body (resp (outcome (copyFromFile p0 e_complete ''/abc'' 10 w_cached)))
        = ''0123456789''
   \<and> \<not> returned (copyFromFile p0 e_complete ''/abc'' 10 w_cached)
   \<and> returned (copyFromFile p0 e_complete ''/abc'' 10 w_cached)
        = (wrap64 (int (length (resp_body (resp (outcome
                      (copyFromFile p0 e_complete ''/abc'' 10 w_cached)))))
                    - int (length (resp_body (resp w_cached))))
           = wrap64 (10 - 1))"
proof -
  note th = partial_read_boundary [of "[tk ''01234'', tk ''01234'', tk ''012345678'']" "''f''" 10 0
              w_cached p0 "''/abc''" e_polling]
    and th' = partial_read_boundary [of "[tk ''01234'', tk ''01234'', tk ''012345678'']" "''f''" 10 0
              w0 p0 "''/abc''" e_polling]
    and tg = partial_read_boundary [of "[]" "''f''" 10 0 w_cached p0 "''/abc''" e_grown]
    and tc = partial_read_boundary [of "[]" "''f''" 10 0 w_cached p0 "''/abc''" e_complete]
  have r: "returned (copyFromFile_loop [tk ''01234'', tk ''01234'', tk ''012345678''] ''f'' 10 0 w0)"
    by (simp only: poll_then_exit returned.simps)
  have weak: "\<forall>t \<in> set (ticks e_polling). int (length (t_file t)) < 10 - 1"
    using polling_path(5) by blast
  have o1: "\<not> returned (copyFromFile p0 e_polling ''/abc'' 10 w_cached)"
    by (rule th [THEN conjunct2, THEN conjunct2, THEN conjunct1, THEN mp,
                 OF conjI [OF polling_path(1) conjI [OF polling_path(2)
                   conjI [OF polling_path(3) weak]]]])
  have o2: "count_list (emitted w_cached (outcome (copyFromFile p0 e_polling ''/abc'' 10 w_cached)))
              (Sleep 300) = 3"
    using th [THEN conjunct2, THEN conjunct2, THEN conjunct2, THEN conjunct1, THEN mp,
              OF conjI [OF polling_path(1) conjI [OF polling_path(2)
                conjI [OF polling_path(3) polling_path(5)]]]]
    by (simp only: polling_path(6))
  have o3: "wrap64 (10 - 1) = 10 - 1"
    by (rule th [THEN conjunct2, THEN conjunct1, THEN mp,
                 OF conjI [OF polling_path(4) polling_path(3)]])
  have o4: "snd (outcome (copyFromFile_loop [tk ''01234'', tk ''01234'', tk ''012345678'']
                            ''f'' 10 0 w0)) = wrap64 (10 - 1)"
    by (rule th' [THEN conjunct1, THEN iffD1, OF r])
  have old: "fs w_cached (localDir p0 @ ''/abc'') \<noteq> None \<and> (1::int) < 10 \<and> (10::int) < 2 ^ 63
   \<and> \<not> returned (copyFromFile p0 e_polling ''/abc'' 10 w_cached)
   \<and> count_list (emitted w_cached (outcome (copyFromFile p0 e_polling ''/abc'' 10 w_cached)))
        (Sleep 300) = 3
   \<and> wrap64 (10 - 1) = 10 - 1
   \<and> returned (copyFromFile_loop [tk ''01234'', tk ''01234'', tk ''012345678''] ''f'' 10 0 w0)
   \<and> snd (outcome (copyFromFile_loop [tk ''01234'', tk ''01234'', tk ''012345678''] ''f'' 10 0 w0))
        = wrap64 (10 - 1)"
    using polling_path(1,2,3) o1 o2 o3 r o4 by (intro conjI)
  note g6 = tg [THEN conjunct2, THEN conjunct2, THEN conjunct2, THEN conjunct2, THEN conjunct2,
                THEN mp, OF conjI [OF polling_path(1) conjI [OF polling_path(2)
                  conjI [OF polling_path(3) conjI [OF growing_path(1) [THEN conjunct1]
                  conjI [OF growing_path(1) [THEN conjunct2]
                  conjI [OF growing_path(2) growing_path(3)]]]]]]]
  note c6 = tc [THEN conjunct2, THEN conjunct2, THEN conjunct2, THEN conjunct2, THEN conjunct2,
                THEN mp, OF conjI [OF polling_path(1) conjI [OF polling_path(2)
                  conjI [OF polling_path(3) conjI [OF growing_path(5) [THEN conjunct1]
                  conjI [OF growing_path(5) [THEN conjunct2]
                  conjI [OF growing_path(6) growing_path(7)]]]]]]]
  note c5 = tc [THEN conjunct2, THEN conjunct2, THEN conjunct2, THEN conjunct2, THEN conjunct1,
                THEN mp, OF polling_path(1)]
  have g1: "resp_body (resp (outcome (copyFromFile p0 e_grown ''/abc'' 10 w_cached)))
              = ''012345678''"
    using g6 [THEN conjunct1] by (simp only: growing_path(4,9) append_Nil)
  have g2: "returned (copyFromFile p0 e_grown ''/abc'' 10 w_cached)"
    using g6 [THEN conjunct2] by (simp add: growing_path(4))
  have c1: "resp_body (resp (outcome (copyFromFile p0 e_complete ''/abc'' 10 w_cached)))
              = ''0123456789''"
    using c6 [THEN conjunct1] by (simp only: growing_path(8,9) append_Nil)
  have c2: "\<not> returned (copyFromFile p0 e_complete ''/abc'' 10 w_cached)"
    using c6 [THEN conjunct2] by (simp add: growing_path(8))
  show ?thesis
    using old growing_path(1) g1 g2 growing_path(5) c1 c2 c5
    by (simp only: simp_thms)
qed
section \<open>Status codes\<close>

lemma resp_status_act [simp]: "resp_status (resp (act a w)) = resp_status (resp w)"
  by simp

lemma respWrite_status:
  "resp_status (resp (fst (respWrite d r w)))
     = (case resp_status (resp w) of None \<Rightarrow> Some 200 | Some c \<Rightarrow> Some c)"
  by (simp add: respWrite_def)

lemma fileWriter_Write_status:
  "resp_status (resp (fst (fileWriter_Write fp d rf rr w)))
     = (case resp_status (resp w) of None \<Rightarrow> Some 200 | Some c \<Rightarrow> Some c)"
  by (simp add: fileWriter_Write_def respWrite_def)

lemma copyBuffer_loop_status:
  "resp_status (resp w) \<in> {None, Some 200} \<Longrightarrow>
     resp_status (resp (fst (copyBuffer_loop fp cs w))) \<in> {None, Some 200}"
proof (induction cs arbitrary: w)
  case Nil
  then show ?case by simp
next
  case (Cons c cs)
  let ?w' = "fst (fileWriter_Write fp (c_data c) (c_file c) (c_resp c) (act BodyRead w))"
  have r: "resp_status (resp (act BodyRead w)) \<in> {None, Some 200}"
    using Cons.prems by simp
  have w': "resp_status (resp ?w') \<in> {None, Some 200}"
    using Cons.prems by (auto simp: fileWriter_Write_status split: option.splits)
  consider
      (stop) "c_data c \<noteq> []" "failed (c_resp c) \<or> c_err c \<noteq> NoErr"
    | (go) "c_data c \<noteq> []" "\<not> failed (c_resp c)" "c_err c = NoErr"
    | (estop) "c_data c = []" "c_err c \<noteq> NoErr"
    | (ego) "c_data c = []" "c_err c = NoErr"
    by blast
  then show ?case
  proof cases
    case stop
    show ?thesis unfolding copyBuffer_loop_stop [OF stop] by (rule w')
  next
    case go
    show ?thesis unfolding copyBuffer_loop_go [OF go] by (rule Cons.IH [OF w'])
  next
    case estop
    show ?thesis unfolding copyBuffer_loop_empty_stop [OF estop] by (rule r)
  next
    case ego
    show ?thesis unfolding copyBuffer_loop_empty_go [OF ego] by (rule Cons.IH [OF r])
  qed
qed

lemma CopyBuffer_status:
  "resp_status (resp w) \<in> {None, Some 200} \<Longrightarrow>
     resp_status (resp (fst (CopyBuffer fp cs w))) \<in> {None, Some 200}"
proof (cases "cs = []")
  case True
  assume "resp_status (resp w) \<in> {None, Some 200}"
  then show ?thesis using True by (simp only: CopyBuffer_Nil fst_conv)
next
  case False
  assume "resp_status (resp w) \<in> {None, Some 200}"
  then show ?thesis
    unfolding CopyBuffer_nonempty [OF False] by (rule copyBuffer_loop_status)
qed

lemma copyFromURL_status_fine:
  assumes "http_get e url = Some body" and "\<not> create_fails e (localDir p @ path)"
      and "resp_status (resp w) \<in> {None, Some 200}"
  shows "resp_status (resp (copyFromURL p cl e path url w)) \<in> {None, Some 200}"
proof -
  let ?fp = "localDir p @ path"
  let ?w3 = "StartLayer cl path (osCreate ?fp (act (Create ?fp)
               (act (HttpGet url) (act (Log ''copy from url'') w))))"
  have "resp_status (resp ?w3) \<in> {None, Some 200}" using assms(3) by simp
  then have "resp_status (resp (fst (CopyBuffer ?fp body ?w3))) \<in> {None, Some 200}"
    by (rule CopyBuffer_status)
  then show ?thesis
    using assms(1,2) by (simp add: copyFromURL_def Let_def)
qed

lemma copyFromFile_loop_status:
  "resp_status (resp w) \<in> {None, Some 200} \<Longrightarrow>
     resp_status (resp (fst (outcome (copyFromFile_loop ts fp len off w)))) \<in> {None, Some 200}"
proof (induction ts arbitrary: off w)
  case Nil
  then show ?case by simp
next
  case (Cons t ts)
  show ?case
  proof (cases "off = wrap64 (len - 1)")
    case True
    then show ?thesis using Cons.prems by (simp add: loop_here)
  next
    case False
    let ?rd = "ReadAt t off"
    let ?w1 = "act (FileReadAt fp off) w"
    let ?w2 = "if snd ?rd = EOF then (if off < len then act (Sleep 300) ?w1 else ?w1)
               else if snd ?rd \<noteq> NoErr then act (Log ''failed to read from file'') ?w1 else ?w1"
    let ?wr = "respWrite (fst ?rd) (t_resp t) ?w2"
    let ?w3 = "if snd (snd ?wr) then act (Log ''failed to write'') (fst ?wr) else fst ?wr"
    have step: "copyFromFile_loop (t # ts) fp len off w
                  = copyFromFile_loop ts fp len (wrap64 (off + int (fst (snd ?wr)))) ?w3"
      using False by (simp add: Let_def)
    have e2: "resp ?w2 = resp w" by simp
    have "resp_status (resp (fst ?wr))
            = (case resp_status (resp w) of None \<Rightarrow> Some 200 | Some c \<Rightarrow> Some c)"
      by (simp only: respWrite_status e2)
    then have "resp_status (resp (fst ?wr)) \<in> {None, Some 200}"
      using Cons.prems by (auto split: option.splits)
    then have "resp_status (resp ?w3) \<in> {None, Some 200}" by simp
    then show ?thesis unfolding step by (rule Cons.IH)
  qed
qed

lemma copyFromFile_status_fine:
  assumes "fs w (localDir p @ path) \<noteq> None" and "resp_status (resp w) \<in> {None, Some 200}"
  shows "resp_status (resp (outcome (copyFromFile p e path len w))) \<in> {None, Some 200}"
proof -
  let ?w1 = "act (Open (localDir p @ path)) (act (Log ''copy from file'') w)"
  have "resp_status (resp ?w1) \<in> {None, Some 200}" using assms(2) by simp
  then have "resp_status (resp (fst (outcome
               (copyFromFile_loop (ticks e) (localDir p @ path) len 0 ?w1)))) \<in> {None, Some 200}"
    by (rule copyFromFile_loop_status)
  then show ?thesis
    using assms(1) by (auto simp: copyFromFile_def Let_def split: run.splits option.splits)
qed

text \<open>
  C7 (as amended).  What the handler answers depends on the path the request takes; on a
  response that has no status yet:

  \<^item> when \<^verbatim>\<open>len\<close> is missing or does not parse: 400, for every request;
  \<^item> with a length and the relay flag: 500 when the local cache file cannot be opened,
    otherwise no error status (200 once something was written);
  \<^item> with a length, without the relay flag, when the registry knows an endpoint: 400 when
    the GET to the chosen peer fails, 500 when the local cache file cannot be created,
    otherwise no error status; the source parameter is not looked at;
  \<^item> with a length, without the relay flag, when the registry knows no endpoint, and with
    a source: 500 when the source does not unescape, 400 when the GET to the source
    fails, 500 when the local cache file cannot be created, otherwise no error status;
  \<^item> with a length, without relay flag, endpoint and source: no status at all.
\<close>

theorem handler_status_codes:
  assumes "resp_status (resp w) = None"
  shows "(ParseInt (q_len req) = None \<longrightarrow> status_of (HandlerFunc p cl e req w) = Some 400)
       \<and> (ParseInt (q_len req) = Some n \<and> q_relay req = []
            \<and> elems (snd cl) (Endpoints (fst cl) (req_path req)) = []
            \<and> q_source req \<noteq> [] \<and> QueryUnescape (q_source req) = None \<longrightarrow>
          status_of (HandlerFunc p cl e req w) = Some 500)
       \<and> (ParseInt (q_len req) = Some n \<and> q_relay req \<noteq> []
            \<and> fs w (localDir p @ req_path req) = None \<longrightarrow>
          status_of (HandlerFunc p cl e req w) = Some 500)
       \<and> (ParseInt (q_len req) = Some n \<and> q_relay req = []
            \<and> elems (snd cl) (Endpoints (fst cl) (req_path req)) = []
            \<and> q_source req \<noteq> [] \<and> QueryUnescape (q_source req) = Some src
            \<and> http_get e src = Some body \<and> create_fails e (localDir p @ req_path req) \<longrightarrow>
          status_of (HandlerFunc p cl e req w) = Some 500)
       \<and> (ParseInt (q_len req) = Some n \<and> q_relay req = []
            \<and> elems (snd cl) (Endpoints (fst cl) (req_path req)) = []
            \<and> q_source req \<noteq> [] \<and> QueryUnescape (q_source req) = Some src
            \<and> http_get e src = None \<longrightarrow>
          status_of (HandlerFunc p cl e req w) = Some 400)
       \<and> (ParseInt (q_len req) = Some n \<and> q_relay req = []
            \<and> elems (snd cl) (Endpoints (fst cl) (req_path req)) = nodes \<and> nodes \<noteq> []
            \<and> http_get e (relay_url p (nodes ! (intn e (length nodes) mod length nodes))
                             (req_path req) n) = None \<longrightarrow>
          status_of (HandlerFunc p cl e req w) = Some 400)
       \<and> (ParseInt (q_len req) = Some n \<and> q_relay req = []
            \<and> elems (snd cl) (Endpoints (fst cl) (req_path req)) = nodes \<and> nodes \<noteq> []
            \<and> http_get e (relay_url p (nodes ! (intn e (length nodes) mod length nodes))
                             (req_path req) n) = Some body
            \<and> create_fails e (localDir p @ req_path req) \<longrightarrow>
          status_of (HandlerFunc p cl e req w) = Some 500)
       \<and> (ParseInt (q_len req) = Some n \<and> q_relay req \<noteq> []
            \<and> fs w (localDir p @ req_path req) \<noteq> None \<longrightarrow>
          status_of (HandlerFunc p cl e req w) \<in> {None, Some 200})
       \<and> (ParseInt (q_len req) = Some n \<and> q_relay req = []
            \<and> elems (snd cl) (Endpoints (fst cl) (req_path req)) = nodes \<and> nodes \<noteq> []
            \<and> http_get e (relay_url p (nodes ! (intn e (length nodes) mod length nodes))
                             (req_path req) n) = Some body
            \<and> \<not> create_fails e (localDir p @ req_path req) \<longrightarrow>
          status_of (HandlerFunc p cl e req w) \<in> {None, Some 200})
       \<and> (ParseInt (q_len req) = Some n \<and> q_relay req = []
            \<and> elems (snd cl) (Endpoints (fst cl) (req_path req)) = []
            \<and> q_source req \<noteq> [] \<and> QueryUnescape (q_source req) = Some src
            \<and> http_get e src = Some body \<and> \<not> create_fails e (localDir p @ req_path req) \<longrightarrow>
          status_of (HandlerFunc p cl e req w) \<in> {None, Some 200})
       \<and> (ParseInt (q_len req) = Some n \<and> q_relay req = []
            \<and> elems (snd cl) (Endpoints (fst cl) (req_path req)) = []
            \<and> q_source req = [] \<longrightarrow>
          status_of (HandlerFunc p cl e req w) = None)"
proof -
  let ?w1 = "setHeader ''Content-Length'' (q_len req) w"
  let ?w2 = "act (CallEndpoints (req_path req)) ?w1"
  let ?url = "relay_url p (nodes ! (intn e (length nodes) mod length nodes)) (req_path req) n"
  have s2: "resp_status (resp ?w2) = None" "resp_status (resp ?w1) = None"
    using assms by simp_all
  have s2': "resp_status (resp ?w2) \<in> {None, Some 200}" "resp_status (resp ?w1) \<in> {None, Some 200}"
    using s2 by simp_all
  have c1: "ParseInt (q_len req) = None \<longrightarrow> status_of (HandlerFunc p cl e req w) = Some 400"
    using assms by (simp add: Handler_bad_len status_of_def)
  have c2: "ParseInt (q_len req) = Some n \<and> q_relay req = []
            \<and> elems (snd cl) (Endpoints (fst cl) (req_path req)) = []
            \<and> q_source req \<noteq> [] \<and> QueryUnescape (q_source req) = None \<longrightarrow>
          status_of (HandlerFunc p cl e req w) = Some 500"
  proof
    assume a: "ParseInt (q_len req) = Some n \<and> q_relay req = []
            \<and> elems (snd cl) (Endpoints (fst cl) (req_path req)) = []
            \<and> q_source req \<noteq> [] \<and> QueryUnescape (q_source req) = None"
    then have "HandlerFunc p cl e req w
         = Returned (writeHeader 500 (act (Log ''failed to unescape source query param'') ?w2))"
      by (intro Handler_bad_source) simp_all
    then show "status_of (HandlerFunc p cl e req w) = Some 500"
      using assms by (simp add: status_of_def)
  qed
  have c3: "ParseInt (q_len req) = Some n \<and> q_relay req \<noteq> []
            \<and> fs w (localDir p @ req_path req) = None \<longrightarrow>
          status_of (HandlerFunc p cl e req w) = Some 500"
  proof
    assume a: "ParseInt (q_len req) = Some n \<and> q_relay req \<noteq> []
            \<and> fs w (localDir p @ req_path req) = None"
    then have "HandlerFunc p cl e req w = copyFromFile p e (req_path req) n ?w1"
      by (intro Handler_relay) simp_all
    moreover have "fs ?w1 (localDir p @ req_path req) = None"
      using a by simp
    ultimately show "status_of (HandlerFunc p cl e req w) = Some 500"
      using assms by (simp add: status_of_def copyFromFile_no_file)
  qed
  have c4: "ParseInt (q_len req) = Some n \<and> q_relay req = []
            \<and> elems (snd cl) (Endpoints (fst cl) (req_path req)) = []
            \<and> q_source req \<noteq> [] \<and> QueryUnescape (q_source req) = Some src
            \<and> http_get e src = Some body \<and> create_fails e (localDir p @ req_path req) \<longrightarrow>
          status_of (HandlerFunc p cl e req w) = Some 500"
  proof
    assume a: "ParseInt (q_len req) = Some n \<and> q_relay req = []
            \<and> elems (snd cl) (Endpoints (fst cl) (req_path req)) = []
            \<and> q_source req \<noteq> [] \<and> QueryUnescape (q_source req) = Some src
            \<and> http_get e src = Some body \<and> create_fails e (localDir p @ req_path req)"
    then have "HandlerFunc p cl e req w
             = Returned (copyFromURL p (fst cl) e (req_path req) src ?w2)"
      by (intro Handler_source) simp_all
    then show "status_of (HandlerFunc p cl e req w) = Some 500"
      using copyFromURL_status(2) [OF s2(1), of e src body p "req_path req" "fst cl"] a
      by (simp add: status_of_def)
  qed
  have c5: "ParseInt (q_len req) = Some n \<and> q_relay req = []
            \<and> elems (snd cl) (Endpoints (fst cl) (req_path req)) = []
            \<and> q_source req \<noteq> [] \<and> QueryUnescape (q_source req) = Some src
            \<and> http_get e src = None \<longrightarrow>
          status_of (HandlerFunc p cl e req w) = Some 400"
  proof
    assume a: "ParseInt (q_len req) = Some n \<and> q_relay req = []
            \<and> elems (snd cl) (Endpoints (fst cl) (req_path req)) = []
            \<and> q_source req \<noteq> [] \<and> QueryUnescape (q_source req) = Some src
            \<and> http_get e src = None"
    then have "HandlerFunc p cl e req w
             = Returned (copyFromURL p (fst cl) e (req_path req) src ?w2)"
      by (intro Handler_source) simp_all
    then show "status_of (HandlerFunc p cl e req w) = Some 400"
      using copyFromURL_status(1) [OF s2(1), of e src p "fst cl" "req_path req"] a
      by (simp add: status_of_def)
  qed
  have peer: "HandlerFunc p cl e req w
                = Returned (copyFromURL p (fst cl) e (req_path req) ?url ?w2)"
    if "ParseInt (q_len req) = Some n" "q_relay req = []"
       "elems (snd cl) (Endpoints (fst cl) (req_path req)) = nodes" "nodes \<noteq> []"
    using that by (rule Handler_peer)
  have c6: "ParseInt (q_len req) = Some n \<and> q_relay req = []
            \<and> elems (snd cl) (Endpoints (fst cl) (req_path req)) = nodes \<and> nodes \<noteq> []
            \<and> http_get e ?url = None \<longrightarrow>
          status_of (HandlerFunc p cl e req w) = Some 400"
  proof
    assume a: "ParseInt (q_len req) = Some n \<and> q_relay req = []
            \<and> elems (snd cl) (Endpoints (fst cl) (req_path req)) = nodes \<and> nodes \<noteq> []
            \<and> http_get e ?url = None"
    then have "HandlerFunc p cl e req w
                = Returned (copyFromURL p (fst cl) e (req_path req) ?url ?w2)"
      by (intro peer) simp_all
    then show "status_of (HandlerFunc p cl e req w) = Some 400"
      using copyFromURL_status(1) [OF s2(1), of e ?url p "fst cl" "req_path req"] a
      by (simp add: status_of_def)
  qed
  have c7: "ParseInt (q_len req) = Some n \<and> q_relay req = []
            \<and> elems (snd cl) (Endpoints (fst cl) (req_path req)) = nodes \<and> nodes \<noteq> []
            \<and> http_get e ?url = Some body
            \<and> create_fails e (localDir p @ req_path req) \<longrightarrow>
          status_of (HandlerFunc p cl e req w) = Some 500"
  proof
    assume a: "ParseInt (q_len req) = Some n \<and> q_relay req = []
            \<and> elems (snd cl) (Endpoints (fst cl) (req_path req)) = nodes \<and> nodes \<noteq> []
            \<and> http_get e ?url = Some body
            \<and> create_fails e (localDir p @ req_path req)"
    then have "HandlerFunc p cl e req w
                = Returned (copyFromURL p (fst cl) e (req_path req) ?url ?w2)"
      by (intro peer) simp_all
    then show "status_of (HandlerFunc p cl e req w) = Some 500"
      using copyFromURL_status(2) [OF s2(1), of e ?url body p "req_path req" "fst cl"] a
      by (simp add: status_of_def)
  qed
  have c8: "ParseInt (q_len req) = Some n \<and> q_relay req \<noteq> []
            \<and> fs w (localDir p @ req_path req) \<noteq> None \<longrightarrow>
          status_of (HandlerFunc p cl e req w) \<in> {None, Some 200}"
  proof
    assume a: "ParseInt (q_len req) = Some n \<and> q_relay req \<noteq> []
            \<and> fs w (localDir p @ req_path req) \<noteq> None"
    then have h: "HandlerFunc p cl e req w = copyFromFile p e (req_path req) n ?w1"
      by (intro Handler_relay) simp_all
    have f: "fs ?w1 (localDir p @ req_path req) \<noteq> None"
      using a by simp
    show "status_of (HandlerFunc p cl e req w) \<in> {None, Some 200}"
      unfolding h status_of_def using f s2'(2) by (rule copyFromFile_status_fine)
  qed
  have c9: "ParseInt (q_len req) = Some n \<and> q_relay req = []
            \<and> elems (snd cl) (Endpoints (fst cl) (req_path req)) = nodes \<and> nodes \<noteq> []
            \<and> http_get e ?url = Some body
            \<and> \<not> create_fails e (localDir p @ req_path req) \<longrightarrow>
          status_of (HandlerFunc p cl e req w) \<in> {None, Some 200}"
  proof
    assume a: "ParseInt (q_len req) = Some n \<and> q_relay req = []
            \<and> elems (snd cl) (Endpoints (fst cl) (req_path req)) = nodes \<and> nodes \<noteq> []
            \<and> http_get e ?url = Some body
            \<and> \<not> create_fails e (localDir p @ req_path req)"
    then have h: "HandlerFunc p cl e req w
                = Returned (copyFromURL p (fst cl) e (req_path req) ?url ?w2)"
      by (intro peer) simp_all
    have g: "http_get e ?url = Some body" "\<not> create_fails e (localDir p @ req_path req)"
      using a by simp_all
    show "status_of (HandlerFunc p cl e req w) \<in> {None, Some 200}"
      unfolding h status_of_def outcome.simps using g s2'(1) by (rule copyFromURL_status_fine)
  qed
  have c10: "ParseInt (q_len req) = Some n \<and> q_relay req = []
            \<and> elems (snd cl) (Endpoints (fst cl) (req_path req)) = []
            \<and> q_source req \<noteq> [] \<and> QueryUnescape (q_source req) = Some src
            \<and> http_get e src = Some body \<and> \<not> create_fails e (localDir p @ req_path req) \<longrightarrow>
          status_of (HandlerFunc p cl e req w) \<in> {None, Some 200}"
  proof
    assume a: "ParseInt (q_len req) = Some n \<and> q_relay req = []
            \<and> elems (snd cl) (Endpoints (fst cl) (req_path req)) = []
            \<and> q_source req \<noteq> [] \<and> QueryUnescape (q_source req) = Some src
            \<and> http_get e src = Some body \<and> \<not> create_fails e (localDir p @ req_path req)"
    then have h: "HandlerFunc p cl e req w
             = Returned (copyFromURL p (fst cl) e (req_path req) src ?w2)"
      by (intro Handler_source) simp_all
    have g: "http_get e src = Some body" "\<not> create_fails e (localDir p @ req_path req)"
      using a by simp_all
    show "status_of (HandlerFunc p cl e req w) \<in> {None, Some 200}"
      unfolding h status_of_def outcome.simps using g s2'(1) by (rule copyFromURL_status_fine)
  qed
  have c11: "ParseInt (q_len req) = Some n \<and> q_relay req = []
            \<and> elems (snd cl) (Endpoints (fst cl) (req_path req)) = []
            \<and> q_source req = [] \<longrightarrow>
          status_of (HandlerFunc p cl e req w) = None"
  proof
    assume a: "ParseInt (q_len req) = Some n \<and> q_relay req = []
            \<and> elems (snd cl) (Endpoints (fst cl) (req_path req)) = []
            \<and> q_source req = []"
    then have "HandlerFunc p cl e req w = Returned ?w2"
      by (intro Handler_nothing) simp_all
    then show "status_of (HandlerFunc p cl e req w) = None"
      using s2(1) by (simp add: status_of_def)
  qed
  show ?thesis
    by (rule conjI [OF c1 conjI [OF c2 conjI [OF c3 conjI [OF c4 conjI [OF c5 conjI [OF c6
          conjI [OF c7 conjI [OF c8 conjI [OF c9 conjI [OF c10 c11]]]]]]]]]])
qed

lemma status_paths:
  "resp_status (resp w0) = None"
  "ParseInt (q_len req_no_len) = None"
  "ParseInt (q_len req_bad_source) = Some 10 \<and> q_relay req_bad_source = []
     \<and> elems (snd cl0) (Endpoints (fst cl0) (req_path req_bad_source)) = []
     \<and> q_source req_bad_source \<noteq> [] \<and> QueryUnescape (q_source req_bad_source) = None"
  "ParseInt (q_len req_relay) = Some 10 \<and> q_relay req_relay \<noteq> []
     \<and> fs w0 (localDir p0 @ req_path req_relay) = None"
  "ParseInt (q_len req_locked) = Some 10 \<and> q_relay req_locked = []
     \<and> elems (snd cl0) (Endpoints (fst cl0) (req_path req_locked)) = []
     \<and> q_source req_locked \<noteq> []
     \<and> QueryUnescape (q_source req_locked) = Some ''http://origin/abc''
     \<and> http_get e0 ''http://origin/abc'' = Some [ck ''hello'' NoErr, ck ''world'' EOF]
     \<and> create_fails e0 (localDir p0 @ req_path req_locked)"
  "ParseInt (q_len req_nowhere) = Some 10 \<and> q_relay req_nowhere = []
     \<and> elems (snd cl0) (Endpoints (fst cl0) (req_path req_nowhere)) = []
     \<and> q_source req_nowhere \<noteq> []
     \<and> QueryUnescape (q_source req_nowhere) = Some ''http://nowhere/abc''
     \<and> http_get e0 ''http://nowhere/abc'' = None"
  by (simp_all add: w0_def response0_def req_no_len_def req_bad_source_def req_relay_def
        req_locked_def req_nowhere_def parse_10 parse_empty cl0_nodes e0_def p0_def ishex_def)

lemma status_paths_peer:
  "ParseInt (q_len req_peer) = Some 10 \<and> q_relay req_peer = []
     \<and> elems (snd cl_unreachable) (Endpoints (fst cl_unreachable) (req_path req_peer))
         = [''10.0.0.9'']
     \<and> [''10.0.0.9''] \<noteq> ([] :: string list)
     \<and> http_get e0 (relay_url p0 ([''10.0.0.9''] ! (intn e0 (length [''10.0.0.9''])
                                     mod length [''10.0.0.9''])) (req_path req_peer) 10) = None"
  "ParseInt (q_len req_peer_locked) = Some 10 \<and> q_relay req_peer_locked = []
     \<and> elems (snd cl_locked) (Endpoints (fst cl_locked) (req_path req_peer_locked))
         = [''10.0.0.1'']
     \<and> [''10.0.0.1''] \<noteq> ([] :: string list)
     \<and> http_get e0 (relay_url p0 ([''10.0.0.1''] ! (intn e0 (length [''10.0.0.1''])
                                     mod length [''10.0.0.1''])) (req_path req_peer_locked) 10)
         = Some [ck ''01234'' NoErr, ck ''56789'' NoErr]
     \<and> create_fails e0 (localDir p0 @ req_path req_peer_locked)"
  "ParseInt (q_len req_peer) = Some 10 \<and> q_relay req_peer = []
     \<and> elems (snd cl1) (Endpoints (fst cl1) (req_path req_peer)) = [''10.0.0.1'']
     \<and> [''10.0.0.1''] \<noteq> ([] :: string list)
     \<and> http_get e0 (relay_url p0 ([''10.0.0.1''] ! (intn e0 (length [''10.0.0.1''])
                                     mod length [''10.0.0.1''])) (req_path req_peer) 10)
         = Some [ck ''01234'' NoErr, ck ''56789'' NoErr]
     \<and> \<not> create_fails e0 (localDir p0 @ req_path req_peer)"
  "ParseInt (q_len req_plain) = Some 10 \<and> q_relay req_plain = []
     \<and> elems (snd cl0) (Endpoints (fst cl0) (req_path req_plain)) = []
     \<and> q_source req_plain = []"
  "ParseInt (q_len req_relay) = Some 10 \<and> q_relay req_relay \<noteq> []
     \<and> fs w_cached (localDir p0 @ req_path req_relay) \<noteq> None"
  "resp_status (resp w_cached) = None"
  by (simp_all add: req_peer_def req_peer_locked_def req_plain_def req_relay_def parse_10
        cl0_nodes cl1_nodes cl_unreachable_nodes cl_locked_nodes relay_url_def e0_def p0_def
        show_int_def show_nat_values w_cached_def w0_def response0_def)

theorem handler_status_codes_witness:
  "resp_status (resp w0) = None
   \<and> ParseInt (q_len req_no_len) = None
   \<and> status_of (HandlerFunc p0 cl0 e0 req_no_len w0) = Some 400
   \<and> QueryUnescape (q_source req_bad_source) = None
   \<and> status_of (HandlerFunc p0 cl0 e0 req_bad_source w0) = Some 500
   \<and> fs w0 (localDir p0 @ req_path req_relay) = None
   \<and> status_of (HandlerFunc p0 cl0 e0 req_relay w0) = Some 500
   \<and> create_fails e0 (localDir p0 @ req_path req_locked)
   \<and> status_of (HandlerFunc p0 cl0 e0 req_locked w0) = Some 500
   \<and> http_get e0 ''http://nowhere/abc'' = None
   \<and> status_of (HandlerFunc p0 cl0 e0 req_nowhere w0) = Some 400
   \<and> status_of (HandlerFunc p0 cl_unreachable e0 req_peer w0) = Some 400
   \<and> create_fails e0 (localDir p0 @ req_path req_peer_locked)
   \<and> status_of (HandlerFunc p0 cl_locked e0 req_peer_locked w0) = Some 500
   \<and> status_of (HandlerFunc p0 cl1 e0 req_peer w0) \<in> {None, Some 200}
   \<and> status_of (HandlerFunc p0 cl0 e0 req_plain w0) = None
   \<and> fs w_cached (localDir p0 @ req_path req_relay) \<noteq> None
   \<and> status_of (HandlerFunc p0 cl0 e0 req_relay w_cached) \<in> {None, Some 200}"
proof -
  note s1 = handler_status_codes [OF status_paths(1),
          where req = req_no_len and p = p0 and cl = cl0 and e = e0,
          THEN conjunct1, THEN mp, OF status_paths(2)]
  note s2 = handler_status_codes [OF status_paths(1),
          where req = req_bad_source and n = 10 and p = p0 and cl = cl0 and e = e0,
          THEN conjunct2, THEN conjunct1, THEN mp, OF status_paths(3)]
  note s3 = handler_status_codes [OF status_paths(1),
          where req = req_relay and n = 10 and p = p0 and cl = cl0 and e = e0,
          THEN conjunct2, THEN conjunct2, THEN conjunct1, THEN mp, OF status_paths(4)]
  note s4 = handler_status_codes [OF status_paths(1),
          where req = req_locked and n = 10 and p = p0 and cl = cl0 and e = e0
            and src = "''http://origin/abc''" and body = "[ck ''hello'' NoErr, ck ''world'' EOF]",
          THEN conjunct2, THEN conjunct2, THEN conjunct2, THEN conjunct1, THEN mp,
          OF status_paths(5)]
  note s5 = handler_status_codes [OF status_paths(1),
          where req = req_nowhere and n = 10 and p = p0 and cl = cl0 and e = e0
            and src = "''http://nowhere/abc''",
          THEN conjunct2, THEN conjunct2, THEN conjunct2, THEN conjunct2, THEN conjunct1,
          THEN mp, OF status_paths(6)]
  note s6 = handler_status_codes [OF status_paths(1),
          where req = req_peer and n = 10 and p = p0 and cl = cl_unreachable and e = e0
            and nodes = "[''10.0.0.9'']",
          THEN conjunct2, THEN conjunct2, THEN conjunct2, THEN conjunct2, THEN conjunct2,
          THEN conjunct1, THEN mp, OF status_paths_peer(1)]
  note s7 = handler_status_codes [OF status_paths(1),
          where req = req_peer_locked and n = 10 and p = p0 and cl = cl_locked and e = e0
            and nodes = "[''10.0.0.1'']" and body = "[ck ''01234'' NoErr, ck ''56789'' NoErr]",
          THEN conjunct2, THEN conjunct2, THEN conjunct2, THEN conjunct2, THEN conjunct2,
          THEN conjunct2, THEN conjunct1, THEN mp, OF status_paths_peer(2)]
  note s8 = handler_status_codes [OF status_paths_peer(6),
          where req = req_relay and n = 10 and p = p0 and cl = cl0 and e = e0,
          THEN conjunct2, THEN conjunct2, THEN conjunct2, THEN conjunct2, THEN conjunct2,
          THEN conjunct2, THEN conjunct2, THEN conjunct1, THEN mp, OF status_paths_peer(5)]
  note s9 = handler_status_codes [OF status_paths(1),
          where req = req_peer and n = 10 and p = p0 and cl = cl1 and e = e0
            and nodes = "[''10.0.0.1'']" and body = "[ck ''01234'' NoErr, ck ''56789'' NoErr]",
          THEN conjunct2, THEN conjunct2, THEN conjunct2, THEN conjunct2, THEN conjunct2,
          THEN conjunct2, THEN conjunct2, THEN conjunct2, THEN conjunct1, THEN mp,
          OF status_paths_peer(3)]
  note s11 = handler_status_codes [OF status_paths(1),
          where req = req_plain and n = 10 and p = p0 and cl = cl0 and e = e0,
          THEN conjunct2, THEN conjunct2, THEN conjunct2, THEN conjunct2, THEN conjunct2,
          THEN conjunct2, THEN conjunct2, THEN conjunct2, THEN conjunct2, THEN conjunct2,
          THEN mp, OF status_paths_peer(4)]
  have p1: "resp_status (resp w0) = None" by (rule status_paths(1))
  have p2: "ParseInt (q_len req_no_len) = None" by (rule status_paths(2))
  have p3: "QueryUnescape (q_source req_bad_source) = None"
    using status_paths(3) by (simp only:)
  have p4: "fs w0 (localDir p0 @ req_path req_relay) = None"
    using status_paths(4) by (simp only:)
  have p5: "create_fails e0 (localDir p0 @ req_path req_locked)"
    using status_paths(5) by (simp only:)
  have p6: "http_get e0 ''http://nowhere/abc'' = None"
    using status_paths(6) by (simp only:)
  have p7: "create_fails e0 (localDir p0 @ req_path req_peer_locked)"
    using status_paths_peer(2) by (simp only:)
  have p8: "fs w_cached (localDir p0 @ req_path req_relay) \<noteq> None"
    by (rule status_paths_peer(5) [THEN conjunct2, THEN conjunct2])
  show ?thesis
    using p1 p2 s1 p3 s2 p4 s3 p5 s4 p6 s5 s6 p7 s7 s9 s11 p8 s8
    by (intro conjI)
qed

text \<open>
  The claim as stated fails twice: a source that does not unescape is answered with 500,
  not with a client error, and a GET that fails is answered with 400, not with a server
  error.
\<close>

theorem status_classes_counterexample:
  "status_of (HandlerFunc p0 cl0 e0 req_bad_source w0) = Some 500
   \<and> \<not> client_error (status_of (HandlerFunc p0 cl0 e0 req_bad_source w0))
   \<and> status_of (HandlerFunc p0 cl0 e0 req_nowhere w0) = Some 400
   \<and> \<not> server_error (status_of (HandlerFunc p0 cl0 e0 req_nowhere w0))"
proof -
  have b: "HandlerFunc p0 cl0 e0 req_bad_source w0
       = Returned (writeHeader 500 (act (Log ''failed to unescape source query param'')
           (act (CallEndpoints (req_path req_bad_source))
             (setHeader ''Content-Length'' (q_len req_bad_source) w0))))"
    using status_paths(3) by (intro Handler_bad_source) simp_all
  have n: "HandlerFunc p0 cl0 e0 req_nowhere w0
           = Returned (writeHeader 400 (act (HttpGet ''http://nowhere/abc'') (act (Log ''copy from url'')
               (act (CallEndpoints (req_path req_nowhere))
                  (setHeader ''Content-Length'' (q_len req_nowhere) w0)))))"
    using status_paths(6) by (intro Handler_source_get_fails) simp_all
  have "status_of (HandlerFunc p0 cl0 e0 req_bad_source w0) = Some 500"
    unfolding b using status_paths(1) by (simp add: status_of_def)
  moreover have "status_of (HandlerFunc p0 cl0 e0 req_nowhere w0) = Some 400"
    unfolding n using status_paths(1) by (simp add: status_of_def)
  ultimately show ?thesis by (simp add: client_error_def server_error_def)
qed

section \<open>The order of the handler's decisions\<close>





end
